theory Spec2Isabelle
  imports Main "HOL-Library.Word" "HOL-Library.Monad_Syntax"
begin

unbundle bit_operations_syntax

section \<open>The sunxi SPI boot loader (arch/arm/mach-sunxi/spl\_spi\_sunxi.c)\<close>

text \<open>
  The loader drives the SPI0 controller through memory-mapped registers. The model is a
  shallow embedding with explicit state: every register access, delay and pin setup is
  appended to a trace, the values that register reads return come from a scripted input
  queue (the device under test), and the destination RAM is a byte map.

  A function that polls the hardware returns an \<open>option\<close>: \<open>None\<close> means that the
  scripted device answers ran out before the C function returned (for the two polling
  loops without a bound, the loop is still spinning), or that the C code has no defined
  behaviour on the input (a read past the transmit buffer, a page size of zero).

  \<open>u32\<close> stands for \<open>u32\<close> and \<open>uint32_t\<close>, and for the addresses of RAM: the header
  buffer at \<open>CONFIG_TEXT_BASE\<close> and the load addresses lie below \<open>2^32\<close> on every build,
  and a destination buffer is taken to end below \<open>2^32\<close> (the addresses of the model wrap
  there).
  \<open>unsigned long\<close> is 32 bits wide on the 32-bit builds and 64 bits wide under
  \<open>CONFIG_ARM64\<close>, which the sun50i machines select. The dispatch hands a \<open>uint32_t\<close>
  offset and a 32-bit count to the read functions; where the code then computes with
  \<open>unsigned long\<close>, in the loop of the NAND read, the model computes with natural numbers
  and reduces modulo \<open>2^32\<close> or \<open>2^64\<close> where the C addition can wrap.
\<close>

type_synonym u8 = "8 word"
type_synonym u32 = "32 word"

subsection \<open>Build-time configuration\<close>

record config =
  MACH_SUN4I :: bool
  MACH_SUN7I :: bool
  MACH_SUN8I_R40 :: bool
  MACH_SUN8I_R528 :: bool
  MACH_SUN8I_V3S :: bool
  MACH_SUN50I :: bool
  MACH_SUN50I_H6 :: bool
  MACH_SUN50I_H616 :: bool
  MACH_SUNIV :: bool
  SUNXI_GEN_SUN6I :: bool
  SUN50I_GEN_H6 :: bool
  SUNXI_GEN_NCAT2 :: bool
  ARM64 :: bool
  SPL_LOAD_FIT :: bool
  SPL_SPINAND_PAGE_SIZE :: u32
  SYS_SPI_U_BOOT_OFFS :: u32
  TEXT_BASE :: u32

subsection \<open>Events and hardware state\<close>

datatype gpio_pin = SUNXI_GPC nat

datatype pin_function =
    SUNXI_GPC_SPI0 | SUN50I_GPC_SPI0 | SUNIV_GPC_SPI0 | SUNXI_GPIO_INPUT | SUNXI_GPIO_DISABLE

text \<open>
  The first eight events are the accesses the C code performs (value before address for
  the writes, as in \<open>writel(v, a)\<close>; a read event carries the value the device returned).
  The three \<open>Call\<close> events mark the entry of a bus routine with its arguments, so that
  properties of whole transfers can be read off the trace.
\<close>

datatype event =
    Writel u32 u32
  | Writeb u8 u32
  | Readl u32 u32
  | Readb u32 u8
  | Setbits_le32 u32 u32
  | Clrbits_le32 u32 u32
  | Udelay nat
  | Gpio_set_cfgpin gpio_pin pin_function
  | Call_spi0_xfer "u8 list" u32 u32
  | Call_spi0_nand_switch_page u32
  | Call_spi0_read_data u32 u32 u32 u32

record hw =
  trace :: "event list"
  input :: "u32 list"
  mem :: "u32 \<Rightarrow> u8"

definition emit :: "event \<Rightarrow> hw \<Rightarrow> hw" where
  "emit e s = s\<lparr>trace := trace s @ [e]\<rparr>"

definition writel :: "u32 \<Rightarrow> u32 \<Rightarrow> hw \<Rightarrow> hw" where
  "writel v a s = emit (Writel v a) s"

definition writeb :: "u8 \<Rightarrow> u32 \<Rightarrow> hw \<Rightarrow> hw" where
  "writeb v a s = emit (Writeb v a) s"

definition setbits_le32 :: "u32 \<Rightarrow> u32 \<Rightarrow> hw \<Rightarrow> hw" where
  "setbits_le32 a m s = emit (Setbits_le32 a m) s"

definition clrbits_le32 :: "u32 \<Rightarrow> u32 \<Rightarrow> hw \<Rightarrow> hw" where
  "clrbits_le32 a m s = emit (Clrbits_le32 a m) s"

definition udelay :: "nat \<Rightarrow> hw \<Rightarrow> hw" where
  "udelay n s = emit (Udelay n) s"

definition sunxi_gpio_set_cfgpin :: "gpio_pin \<Rightarrow> pin_function \<Rightarrow> hw \<Rightarrow> hw" where
  "sunxi_gpio_set_cfgpin p f s = emit (Gpio_set_cfgpin p f) s"

definition readl :: "u32 \<Rightarrow> hw \<Rightarrow> (u32 \<times> hw) option" where
  "readl a s =
     (case input s of
        [] \<Rightarrow> None
      | v # vs \<Rightarrow> Some (v, emit (Readl a v) (s\<lparr>input := vs\<rparr>)))"

definition readb :: "u32 \<Rightarrow> hw \<Rightarrow> (u8 \<times> hw) option" where
  "readb a s =
     (case input s of
        [] \<Rightarrow> None
      | v # vs \<Rightarrow> Some (ucast v, emit (Readb a (ucast v)) (s\<lparr>input := vs\<rparr>)))"

subsection \<open>Register map\<close>

definition SUN4I_SPI0_CCTL :: u32 where "SUN4I_SPI0_CCTL = 0x1C"
definition SUN4I_SPI0_CTL :: u32 where "SUN4I_SPI0_CTL = 0x08"
definition SUN4I_SPI0_RX :: u32 where "SUN4I_SPI0_RX = 0x00"
definition SUN4I_SPI0_TX :: u32 where "SUN4I_SPI0_TX = 0x04"
definition SUN4I_SPI0_FIFO_STA :: u32 where "SUN4I_SPI0_FIFO_STA = 0x28"
definition SUN4I_SPI0_BC :: u32 where "SUN4I_SPI0_BC = 0x20"
definition SUN4I_SPI0_TC :: u32 where "SUN4I_SPI0_TC = 0x24"

definition SUN4I_CTL_ENABLE :: u32 where "SUN4I_CTL_ENABLE = push_bit 0 1"
definition SUN4I_CTL_MASTER :: u32 where "SUN4I_CTL_MASTER = push_bit 1 1"
definition SUN4I_CTL_TF_RST :: u32 where "SUN4I_CTL_TF_RST = push_bit 8 1"
definition SUN4I_CTL_RF_RST :: u32 where "SUN4I_CTL_RF_RST = push_bit 9 1"
definition SUN4I_CTL_XCH :: u32 where "SUN4I_CTL_XCH = push_bit 10 1"

definition SUN6I_SPI0_CCTL :: u32 where "SUN6I_SPI0_CCTL = 0x24"
definition SUN6I_SPI0_GCR :: u32 where "SUN6I_SPI0_GCR = 0x04"
definition SUN6I_SPI0_TCR :: u32 where "SUN6I_SPI0_TCR = 0x08"
definition SUN6I_SPI0_FIFO_STA :: u32 where "SUN6I_SPI0_FIFO_STA = 0x1C"
definition SUN6I_SPI0_MBC :: u32 where "SUN6I_SPI0_MBC = 0x30"
definition SUN6I_SPI0_MTC :: u32 where "SUN6I_SPI0_MTC = 0x34"
definition SUN6I_SPI0_BCC :: u32 where "SUN6I_SPI0_BCC = 0x38"
definition SUN6I_SPI0_TXD :: u32 where "SUN6I_SPI0_TXD = 0x200"
definition SUN6I_SPI0_RXD :: u32 where "SUN6I_SPI0_RXD = 0x300"

definition SUN6I_CTL_ENABLE :: u32 where "SUN6I_CTL_ENABLE = push_bit 0 1"
definition SUN6I_CTL_MASTER :: u32 where "SUN6I_CTL_MASTER = push_bit 1 1"
definition SUN6I_CTL_SRST :: u32 where "SUN6I_CTL_SRST = push_bit 31 1"
definition SUN6I_TCR_SDM :: u32 where "SUN6I_TCR_SDM = push_bit 13 1"
definition SUN6I_TCR_XCH :: u32 where "SUN6I_TCR_XCH = push_bit 31 1"

definition CCM_BASE :: "config \<Rightarrow> u32" where
  "CCM_BASE cfg =
     (if SUN50I_GEN_H6 cfg then 0x03001000
      else if SUNXI_GEN_NCAT2 cfg then 0x02001000
      else 0x01C20000)"

definition CCM_AHB_GATING0 :: "config \<Rightarrow> u32" where
  "CCM_AHB_GATING0 cfg = CCM_BASE cfg + 0x60"

definition CCM_H6_SPI_BGR_REG :: "config \<Rightarrow> u32" where
  "CCM_H6_SPI_BGR_REG cfg = CCM_BASE cfg + 0x96c"

definition CCM_SPI0_CLK :: "config \<Rightarrow> u32" where
  "CCM_SPI0_CLK cfg =
     (if SUN50I_GEN_H6 cfg \<or> SUNXI_GEN_NCAT2 cfg then CCM_BASE cfg + 0x940
      else CCM_BASE cfg + 0xA0)"

definition SUN6I_BUS_SOFT_RST_REG0 :: "config \<Rightarrow> u32" where
  "SUN6I_BUS_SOFT_RST_REG0 cfg = CCM_BASE cfg + 0x2C0"

definition AHB_RESET_SPI0_SHIFT :: nat where "AHB_RESET_SPI0_SHIFT = 20"
definition AHB_GATE_OFFSET_SPI0 :: nat where "AHB_GATE_OFFSET_SPI0 = 20"

definition SPI0_CLK_DIV_BY_4 :: u32 where "SPI0_CLK_DIV_BY_4 = 0x1001"
definition SPI0_CLK_DIV_BY_32 :: u32 where "SPI0_CLK_DIV_BY_32 = 0x100f"

subsection \<open>Controller lifecycle\<close>

definition spi0_pinmux_setup :: "config \<Rightarrow> pin_function \<Rightarrow> hw \<Rightarrow> hw" where
  "spi0_pinmux_setup cfg pin_function s0 =
     (let s1 = (if \<not> MACH_SUN8I_R528 cfg
                then sunxi_gpio_set_cfgpin (SUNXI_GPC 0) pin_function s0 else s0);
          s2 = sunxi_gpio_set_cfgpin (SUNXI_GPC 2) pin_function s1;
          s3 = (if \<not> SUN50I_GEN_H6 cfg \<and> \<not> MACH_SUN8I_R528 cfg
                then sunxi_gpio_set_cfgpin (SUNXI_GPC 1) pin_function s2 else s2);
          s4 = (if MACH_SUN50I_H6 cfg \<or> MACH_SUN8I_R528 cfg
                then sunxi_gpio_set_cfgpin (SUNXI_GPC 5) pin_function s3 else s3);
          s5 = (if MACH_SUN50I_H616 cfg \<or> MACH_SUN8I_R528 cfg
                then sunxi_gpio_set_cfgpin (SUNXI_GPC 4) pin_function s4 else s4)
      in if MACH_SUN4I cfg \<or> MACH_SUN7I cfg \<or> MACH_SUN8I_R40 cfg
         then sunxi_gpio_set_cfgpin (SUNXI_GPC 23) pin_function s5
         else sunxi_gpio_set_cfgpin (SUNXI_GPC 3) pin_function s5)"

definition is_sun6i_gen_spi :: "config \<Rightarrow> bool" where
  "is_sun6i_gen_spi cfg \<longleftrightarrow>
     SUNXI_GEN_SUN6I cfg \<or> SUN50I_GEN_H6 cfg \<or> SUNXI_GEN_NCAT2 cfg \<or> MACH_SUN8I_V3S cfg"

definition spi0_base_address :: "config \<Rightarrow> u32" where
  "spi0_base_address cfg =
     (if MACH_SUN8I_R40 cfg then 0x01C05000
      else if SUN50I_GEN_H6 cfg then 0x05010000
      else if SUNXI_GEN_NCAT2 cfg then 0x04025000
      else if \<not> is_sun6i_gen_spi cfg \<or> MACH_SUNIV cfg then 0x01C05000
      else 0x01C68000)"

text \<open>The soft-reset wait of \<open>spi0_enable_clock\<close>: \<open>while (readl(GCR) & SRST) ;\<close>.\<close>

function wait_srst :: "u32 \<Rightarrow> hw \<Rightarrow> hw option" where
  "wait_srst reg s =
     (case readl reg s of
        None \<Rightarrow> None
      | Some (v, s') \<Rightarrow> if v AND SUN6I_CTL_SRST \<noteq> 0 then wait_srst reg s' else Some s')"
  by pat_completeness auto
termination
  by (relation "measure (\<lambda>(reg, s). length (input s))")
     (auto simp: readl_def emit_def split: list.splits)

definition spi0_enable_clock :: "config \<Rightarrow> hw \<Rightarrow> hw option" where
  "spi0_enable_clock cfg s0 =
     (let base = spi0_base_address cfg;
          s1 = (if SUN50I_GEN_H6 cfg \<or> SUNXI_GEN_NCAT2 cfg
                then setbits_le32 (CCM_H6_SPI_BGR_REG cfg) (push_bit 16 1 OR 0x1) s0
                else if is_sun6i_gen_spi cfg
                then setbits_le32 (SUN6I_BUS_SOFT_RST_REG0 cfg)
                       (push_bit AHB_RESET_SPI0_SHIFT 1) s0
                else s0);
          s2 = (if \<not> SUN50I_GEN_H6 cfg \<and> \<not> SUNXI_GEN_NCAT2 cfg
                then setbits_le32 (CCM_AHB_GATING0 cfg) (push_bit AHB_GATE_OFFSET_SPI0 1) s1
                else s1);
          s3 = (if MACH_SUNIV cfg
                then writel SPI0_CLK_DIV_BY_32 (base + SUN6I_SPI0_CCTL) s2
                else
                  (let t = (if \<not> SUNXI_GEN_NCAT2 cfg
                            then writel SPI0_CLK_DIV_BY_4
                                   (base + (if is_sun6i_gen_spi cfg then SUN6I_SPI0_CCTL
                                            else SUN4I_SPI0_CCTL)) s2
                            else s2)
                   in writel (push_bit 31 1) (CCM_SPI0_CLK cfg) t))
      in if is_sun6i_gen_spi cfg
         then
           (case wait_srst (base + SUN6I_SPI0_GCR)
                   (setbits_le32 (base + SUN6I_SPI0_GCR)
                      (SUN6I_CTL_MASTER OR SUN6I_CTL_ENABLE OR SUN6I_CTL_SRST) s3) of
              None \<Rightarrow> None
            | Some s4 \<Rightarrow>
                Some (if SUNXI_GEN_NCAT2 cfg
                      then setbits_le32 (base + SUN6I_SPI0_TCR) SUN6I_TCR_SDM s4 else s4))
         else
           Some (setbits_le32 (base + SUN4I_SPI0_CTL)
                   (SUN4I_CTL_MASTER OR SUN4I_CTL_ENABLE OR SUN4I_CTL_TF_RST OR SUN4I_CTL_RF_RST)
                   s3))"

definition spi0_disable_clock :: "config \<Rightarrow> hw \<Rightarrow> hw" where
  "spi0_disable_clock cfg s0 =
     (let base = spi0_base_address cfg;
          s1 = (if is_sun6i_gen_spi cfg
                then clrbits_le32 (base + SUN6I_SPI0_GCR) (SUN6I_CTL_MASTER OR SUN6I_CTL_ENABLE) s0
                else clrbits_le32 (base + SUN4I_SPI0_CTL) (SUN4I_CTL_MASTER OR SUN4I_CTL_ENABLE) s0);
          s2 = (if \<not> MACH_SUNIV cfg then writel 0 (CCM_SPI0_CLK cfg) s1 else s1);
          s3 = (if \<not> SUN50I_GEN_H6 cfg \<and> \<not> SUNXI_GEN_NCAT2 cfg
                then clrbits_le32 (CCM_AHB_GATING0 cfg) (push_bit AHB_GATE_OFFSET_SPI0 1) s2
                else s2)
      in if SUN50I_GEN_H6 cfg \<or> SUNXI_GEN_NCAT2 cfg
         then clrbits_le32 (CCM_H6_SPI_BGR_REG cfg) (push_bit 16 1 OR 0x1) s3
         else if is_sun6i_gen_spi cfg
         then clrbits_le32 (SUN6I_BUS_SOFT_RST_REG0 cfg) (push_bit AHB_RESET_SPI0_SHIFT 1) s3
         else s3)"

definition spi0_init :: "config \<Rightarrow> hw \<Rightarrow> hw option" where
  "spi0_init cfg s =
     (let pin_function =
            (if MACH_SUN50I cfg \<or> SUN50I_GEN_H6 cfg then SUN50I_GPC_SPI0
             else if MACH_SUNIV cfg \<or> MACH_SUN8I_R528 cfg then SUNIV_GPC_SPI0
             else SUNXI_GPC_SPI0)
      in spi0_enable_clock cfg (spi0_pinmux_setup cfg pin_function s))"

definition spi0_deinit :: "config \<Rightarrow> hw \<Rightarrow> hw" where
  "spi0_deinit cfg s =
     (let pin_function = (if is_sun6i_gen_spi cfg then SUNXI_GPIO_DISABLE else SUNXI_GPIO_INPUT)
      in spi0_pinmux_setup cfg pin_function (spi0_disable_clock cfg s))"

subsection \<open>Byte transfer engine\<close>

definition SPI_READ_MAX_SIZE :: u32 where "SPI_READ_MAX_SIZE = 60"

text \<open>\<open>while ((readl(spi_fifo_reg) & 0x7F) < txlen + rxlen) ;\<close>\<close>

function wait_fifo :: "u32 \<Rightarrow> u32 \<Rightarrow> hw \<Rightarrow> hw option" where
  "wait_fifo reg want s =
     (case readl reg s of
        None \<Rightarrow> None
      | Some (v, s') \<Rightarrow> if (v AND 0x7F) < want then wait_fifo reg want s' else Some s')"
  by pat_completeness auto
termination
  by (relation "measure (\<lambda>(reg, want, s). length (input s))")
     (auto simp: readl_def emit_def split: list.splits)

text \<open>\<open>for (u32 i = 0; i < txlen; i++) readb(spi_rx_reg);\<close>\<close>

fun skip_rx :: "nat \<Rightarrow> u32 \<Rightarrow> hw \<Rightarrow> hw option" where
  "skip_rx 0 reg s = Some s"
| "skip_rx (Suc n) reg s =
     (case readb reg s of None \<Rightarrow> None | Some (b, s') \<Rightarrow> skip_rx n reg s')"

text \<open>
  \<open>while (rxlen-- > 0) *rxbuf++ = readb(spi_rx_reg);\<close> The bytes stored through the
  out-parameter \<open>rxbuf\<close> are returned in order; the caller places them where its
  \<open>rxbuf\<close> points.
\<close>

fun read_rx :: "nat \<Rightarrow> u32 \<Rightarrow> hw \<Rightarrow> (u8 list \<times> hw) option" where
  "read_rx 0 reg s = Some ([], s)"
| "read_rx (Suc n) reg s =
     (case readb reg s of
        None \<Rightarrow> None
      | Some (b, s') \<Rightarrow>
          (case read_rx n reg s' of None \<Rightarrow> None | Some (bs, s'') \<Rightarrow> Some (b # bs, s'')))"

definition sunxi_spi0_xfer ::
  "u8 list \<Rightarrow> u32 \<Rightarrow> u32 \<Rightarrow> u32 \<Rightarrow> u32 \<Rightarrow> u32 \<Rightarrow> u32 \<Rightarrow> u32 \<Rightarrow> u32 \<Rightarrow> u32 \<Rightarrow> u32 \<Rightarrow> hw
     \<Rightarrow> (u8 list \<times> hw) option" where
  "sunxi_spi0_xfer txbuf txlen rxlen spi_ctl_reg spi_ctl_xch_bitmask spi_fifo_reg
       spi_tx_reg spi_rx_reg spi_bc_reg spi_tc_reg spi_bcc_reg s0 =
     (if length txbuf < unat txlen then None
      else
        (let s1 = writel (txlen + rxlen) spi_bc_reg s0;
             s2 = writel txlen spi_tc_reg s1;
             s3 = (if spi_bcc_reg \<noteq> 0 then writel txlen spi_bcc_reg s2 else s2);
             s4 = fold (\<lambda>b. writeb b spi_tx_reg) (take (unat txlen) txbuf) s3;
             s5 = setbits_le32 spi_ctl_reg spi_ctl_xch_bitmask s4
         in case wait_fifo spi_fifo_reg (txlen + rxlen) s5 of
              None \<Rightarrow> None
            | Some s6 \<Rightarrow>
                (case skip_rx (unat txlen) spi_rx_reg s6 of
                   None \<Rightarrow> None
                 | Some s7 \<Rightarrow> read_rx (unat rxlen) spi_rx_reg s7)))"

definition spi0_xfer :: "config \<Rightarrow> u8 list \<Rightarrow> u32 \<Rightarrow> u32 \<Rightarrow> hw \<Rightarrow> (u8 list \<times> hw) option" where
  "spi0_xfer cfg txbuf txlen rxlen s =
     (let base = spi0_base_address cfg;
          s0 = emit (Call_spi0_xfer txbuf txlen rxlen) s
      in if is_sun6i_gen_spi cfg
         then sunxi_spi0_xfer txbuf txlen rxlen
                (base + SUN6I_SPI0_TCR) SUN6I_TCR_XCH (base + SUN6I_SPI0_FIFO_STA)
                (base + SUN6I_SPI0_TXD) (base + SUN6I_SPI0_RXD)
                (base + SUN6I_SPI0_MBC) (base + SUN6I_SPI0_MTC) (base + SUN6I_SPI0_BCC) s0
         else sunxi_spi0_xfer txbuf txlen rxlen
                (base + SUN4I_SPI0_CTL) SUN4I_CTL_XCH (base + SUN4I_SPI0_FIFO_STA)
                (base + SUN4I_SPI0_TX) (base + SUN4I_SPI0_RX)
                (base + SUN4I_SPI0_BC) (base + SUN4I_SPI0_TC) 0 s0)"

subsection \<open>Flash read abstractions\<close>

text \<open>
  Modelled from the spec: the errno values are declared in headers that are not under
  src/; the spec names the conditions Timeout and InvalidArgument, and the numbers are
  the usual ones of errno.h. No theorem depends on the numbers beyond their being nonzero.
\<close>

definition ETIMEDOUT :: int where "ETIMEDOUT = 110"
definition EINVAL :: int where "EINVAL = 22"

fun store_at :: "nat \<Rightarrow> u8 list \<Rightarrow> u8 list \<Rightarrow> u8 list" where
  "store_at i [] buf = buf"
| "store_at i (b # bs) buf = store_at (Suc i) bs (buf[i := b])"

fun store_bytes :: "u32 \<Rightarrow> u8 list \<Rightarrow> (u32 \<Rightarrow> u8) \<Rightarrow> (u32 \<Rightarrow> u8)" where
  "store_bytes a [] m = m"
| "store_bytes a (b # bs) m = store_bytes (a + 1) bs (m(a := b))"

text \<open>
  The status poll of \<open>spi0_nand_switch_page\<close>:
  \<open>for (count = 0; count < 100; count++) { udelay(1); spi0_xfer(buf, 2, buf+2, 1);
  if (!(buf[2] & 0x1)) return 0; } return -ETIMEDOUT;\<close>
\<close>

function spi0_nand_wait_loop :: "config \<Rightarrow> nat \<Rightarrow> u8 list \<Rightarrow> hw \<Rightarrow> (int \<times> hw) option" where
  "spi0_nand_wait_loop cfg count buf s =
     (if count < 100 then
        (case spi0_xfer cfg buf 2 1 (udelay 1 s) of
           None \<Rightarrow> None
         | Some (rx, s') \<Rightarrow>
             (let buf' = store_at 2 rx buf
              in if (buf' ! 2) AND 0x1 = 0 then Some (0, s')
                 else spi0_nand_wait_loop cfg (Suc count) buf' s'))
      else Some (- ETIMEDOUT, s))"
  by pat_completeness auto
termination
  by (relation "measure (\<lambda>(cfg, count, buf, s). 100 - count)") auto

definition spi0_nand_switch_page :: "config \<Rightarrow> u32 \<Rightarrow> hw \<Rightarrow> (int \<times> hw) option" where
  "spi0_nand_switch_page cfg page s =
     (let buf = [0x13, ucast (drop_bit 16 page), ucast (drop_bit 8 page), ucast page]
      in case spi0_xfer cfg buf 4 0 (emit (Call_spi0_nand_switch_page page) s) of
           None \<Rightarrow> None
         | Some (rx, s') \<Rightarrow> spi0_nand_wait_loop cfg 0 (buf[0 := 0x0f, 1 := 0xc0]) s')"

definition spi0_nand_reset :: "config \<Rightarrow> hw \<Rightarrow> hw option" where
  "spi0_nand_reset cfg s =
     (case spi0_xfer cfg [0xff] 1 0 s of
        None \<Rightarrow> None
      | Some (rx, s') \<Rightarrow> Some (udelay 10 s'))"

text \<open>The Read Data Bytes (03h) command header that one iteration writes into \<open>txbuf\<close>.\<close>

definition read_cmd :: "u8 list \<Rightarrow> u32 \<Rightarrow> u32 \<Rightarrow> u8 list" where
  "read_cmd txbuf addr addr_len =
     (let t = txbuf[0 := 0x03]
      in if addr_len = 3
         then t[1 := ucast (drop_bit 16 addr), 2 := ucast (drop_bit 8 addr), 3 := ucast addr]
         else if addr_len = 2
         then t[1 := ucast (drop_bit 8 addr), 2 := ucast addr, 3 := 0]
         else t)"

function spi0_read_data_loop ::
  "config \<Rightarrow> u8 list \<Rightarrow> u32 \<Rightarrow> u32 \<Rightarrow> u32 \<Rightarrow> u32 \<Rightarrow> hw \<Rightarrow> hw option" where
  "spi0_read_data_loop cfg txbuf buf8 addr len addr_len s =
     (if len > 0 then
        (let chunk_len = (if len > SPI_READ_MAX_SIZE then SPI_READ_MAX_SIZE else len);
             txbuf' = read_cmd txbuf addr addr_len
         in case spi0_xfer cfg txbuf' 4 chunk_len s of
              None \<Rightarrow> None
            | Some (rx, s') \<Rightarrow>
                spi0_read_data_loop cfg txbuf' (buf8 + chunk_len) (addr + chunk_len)
                  (len - chunk_len) addr_len
                  (udelay 1 (s'\<lparr>mem := store_bytes buf8 rx (mem s')\<rparr>)))
      else Some s)"
  by pat_completeness auto
termination
proof (relation "measure (\<lambda>(cfg, txbuf, buf8, addr, len, addr_len, s). unat len)")
  show "wf (measure (\<lambda>(cfg, txbuf, buf8, addr, len, addr_len, s). unat len))"
    by simp
next
  fix cfg :: config and txbuf :: "u8 list" and buf8 addr len addr_len :: u32 and s :: hw
    and chunk_len :: u32
  assume pos: "0 < len"
    and chunk: "chunk_len = (if SPI_READ_MAX_SIZE < len then SPI_READ_MAX_SIZE else len)"
  have le: "chunk_len \<le> len"
    using chunk by (simp add: less_imp_le)
  have nz: "chunk_len \<noteq> 0"
    using chunk pos by (auto simp: SPI_READ_MAX_SIZE_def)
  have "unat (len - chunk_len) = unat len - unat chunk_len"
    using le by (simp add: unat_sub)
  moreover have "0 < unat chunk_len"
    using nz by (simp add: unat_gt_0)
  moreover have "unat chunk_len \<le> unat len"
    using le by (simp add: word_le_nat_alt)
  ultimately have "unat (len - chunk_len) < unat len"
    by arith
  then show "\<And>txbuf' x2 x y. ((cfg, txbuf', buf8 + chunk_len, addr + chunk_len, len - chunk_len,
        addr_len, udelay 1 (y\<lparr>mem := store_bytes buf8 x (mem y)\<rparr>)),
        cfg, txbuf, buf8, addr, len, addr_len, s)
       \<in> measure (\<lambda>(cfg, txbuf, buf8, addr, len, addr_len, s). unat len)"
    by simp
qed

text \<open>
  \<open>txbuf\<close> is an uninitialised local array in C. Both callers pass an \<open>addr_len\<close> of 2 or
  3, for which all four bytes are written before the first transfer; the model starts
  from zeroes.
\<close>

definition spi0_read_data :: "config \<Rightarrow> u32 \<Rightarrow> u32 \<Rightarrow> u32 \<Rightarrow> u32 \<Rightarrow> hw \<Rightarrow> hw option" where
  "spi0_read_data cfg buf addr len addr_len s =
     spi0_read_data_loop cfg [0, 0, 0, 0] buf addr len addr_len
       (emit (Call_spi0_read_data buf addr len addr_len) s)"

definition spi_load_read_nor :: "config \<Rightarrow> u32 \<Rightarrow> u32 \<Rightarrow> u32 \<Rightarrow> hw \<Rightarrow> (u32 \<times> hw) option" where
  "spi_load_read_nor cfg sector count buf s =
     (case spi0_read_data cfg buf sector count 3 s of
        None \<Rightarrow> None
      | Some s' \<Rightarrow> Some (count, s'))"

text \<open>
  The width of \<open>unsigned long\<close>, and the value an \<open>unsigned long\<close> holds after an
  addition whose exact result is \<open>n\<close>.
\<close>

definition ulong_bits :: "config \<Rightarrow> nat" where
  "ulong_bits cfg = (if ARM64 cfg then 64 else 32)"

definition ulong :: "config \<Rightarrow> nat \<Rightarrow> nat" where
  "ulong cfg n = n mod 2 ^ ulong_bits cfg"

text \<open>
  The loop of \<open>spi_load_read_nand\<close>. \<open>count\<close> is the requested length (returned on
  success); \<open>sector\<close> and \<open>remain\<close> are the loop variables, all three \<open>unsigned long\<close>.
  \<open>pagesize - sector % pagesize\<close> and \<open>remain - count_in_page\<close> cannot wrap,
  \<open>sector + count_in_page\<close> can. The page index is converted to the \<open>u32\<close> parameter of
  \<open>spi0_nand_switch_page\<close>, the column and the length to the \<open>u32\<close> parameters of
  \<open>spi0_read_data\<close>. A page size of zero makes the C code divide by zero on its first
  iteration; the model has no result there.
\<close>

function spi_load_read_nand_loop ::
  "config \<Rightarrow> nat \<Rightarrow> nat \<Rightarrow> nat \<Rightarrow> u32 \<Rightarrow> hw \<Rightarrow> (nat \<times> hw) option" where
  "spi_load_read_nand_loop cfg count sector remain buf s =
     (if remain \<noteq> 0 then
        (if SPL_SPINAND_PAGE_SIZE cfg = 0 then None
         else
           (let pagesize = unat (SPL_SPINAND_PAGE_SIZE cfg);
                count_in_page = min remain (pagesize - (sector mod pagesize));
                current_page = sector div pagesize
            in case spi0_nand_switch_page cfg (of_nat current_page) s of
                 None \<Rightarrow> None
               | Some (r, s') \<Rightarrow>
                   if r \<noteq> 0 then Some (0, s')
                   else
                     (case spi0_read_data cfg buf (of_nat (sector mod pagesize))
                             (of_nat count_in_page) 2 s' of
                        None \<Rightarrow> None
                      | Some s'' \<Rightarrow>
                          spi_load_read_nand_loop cfg count (ulong cfg (sector + count_in_page))
                            (remain - count_in_page) (buf + of_nat count_in_page) s'')))
      else Some (count, s))"
  by pat_completeness auto
termination
proof (relation "measure (\<lambda>(cfg, count, sector, remain, buf, s). remain)", goal_cases)
  case 1
  show ?case by simp
next
  case (2 cfg count sector remain buf s pagesize count_in_page current_page x2 r s' s'')
  have "0 < pagesize"
    using 2(2,3) by (simp add: unat_gt_0)
  then have "sector mod pagesize < pagesize"
    by simp
  then have "0 < count_in_page"
    using 2(1,4) by simp
  then show ?case
    using 2(1) by simp
qed

text \<open>
  \<open>spi_load_read_nand\<close> as the dispatch calls it: the offset and the count are 32-bit
  values converted to \<open>unsigned long\<close>, and the count returned, which is the requested
  one or 0, is handed back.
\<close>

definition spi_load_read_nand :: "config \<Rightarrow> u32 \<Rightarrow> u32 \<Rightarrow> u32 \<Rightarrow> hw \<Rightarrow> (u32 \<times> hw) option" where
  "spi_load_read_nand cfg sector count buf s =
     (case spi_load_read_nand_loop cfg (unat count) (unat sector) (unat count) buf s of
        None \<Rightarrow> None
      | Some (n, s') \<Rightarrow> Some (of_nat n, s'))"

subsection \<open>Image dispatch\<close>

datatype boot_device = BOOT_DEVICE_SPI | BOOT_DEVICE_SPINAND

text \<open>
  The two fields of \<open>struct spl_image_info\<close> that the loader reads; \<open>size'\<close> is the C
  field \<open>size\<close>.
\<close>

record spl_image_info =
  size' :: u32
  load_addr :: u32

text \<open>The \<open>read\<close> callback of \<open>struct spl_load_info\<close>: sector, count, destination.\<close>

type_synonym load_read = "u32 \<Rightarrow> u32 \<Rightarrow> u32 \<Rightarrow> hw \<Rightarrow> (u32 \<times> hw) option"

text \<open>
  What the loader consumes from outside this file, taken as parameters: the two magic
  numbers of image.h, the size of the loader's own flash image, the structured-image (FIT)
  loader and the legacy header parser. The FIT loader calls back into \<open>read\<close>, so it may
  not return; the header parser always returns.
\<close>

record externals =
  FDT_MAGIC :: u32
  IH_MAGIC :: u32
  sunxi_get_spl_size :: u32
  spl_load_simple_fit ::
    "spl_image_info \<Rightarrow> load_read \<Rightarrow> u32 \<Rightarrow> u32 \<Rightarrow> hw \<Rightarrow> (int \<times> spl_image_info \<times> hw) option"
  spl_parse_image_header ::
    "spl_image_info \<Rightarrow> boot_device \<Rightarrow> u32 \<Rightarrow> hw \<Rightarrow> int \<times> spl_image_info \<times> hw"

text \<open>
  Modelled from the spec: \<open>image_get_magic\<close> is declared in image.h, which is not under
  src/. The spec classifies on the first 4 bytes of the header; they are read most
  significant byte first, as for the addresses on the bus.
\<close>

definition image_get_magic :: "u32 \<Rightarrow> hw \<Rightarrow> u32" where
  "image_get_magic header s =
     push_bit 24 (ucast (mem s header)) OR push_bit 16 (ucast (mem s (header + 1)))
       OR push_bit 8 (ucast (mem s (header + 2))) OR ucast (mem s (header + 3))"

definition spl_spi_try_load ::
  "config \<Rightarrow> externals \<Rightarrow> spl_image_info \<Rightarrow> boot_device \<Rightarrow> load_read \<Rightarrow> u32 \<Rightarrow> bool \<Rightarrow> hw
     \<Rightarrow> (int \<times> spl_image_info \<times> hw) option" where
  "spl_spi_try_load cfg ext spl_image bootdev load_read offset allow_raw s =
     (let header = TEXT_BASE cfg
      in case load_read offset 0x40 header s of
           None \<Rightarrow> None
         | Some (n, s1) \<Rightarrow>
             if n = 0 then Some (- EINVAL, spl_image, s1)
             else if SPL_LOAD_FIT cfg \<and> image_get_magic header s1 = FDT_MAGIC ext
             then spl_load_simple_fit ext spl_image load_read offset header s1
             else if \<not> allow_raw \<and> image_get_magic header s1 \<noteq> IH_MAGIC ext
             then Some (- EINVAL, spl_image, s1)
             else
               (case spl_parse_image_header ext spl_image bootdev header s1 of
                  (ret, spl_image', s2) \<Rightarrow>
                    if ret \<noteq> 0 then Some (ret, spl_image', s2)
                    else
                      (case load_read offset (size' spl_image') (load_addr spl_image') s2 of
                         None \<Rightarrow> None
                       | Some (n', s3) \<Rightarrow>
                           Some (if n' = 0 then - EINVAL else ret, spl_image', s3))))"

text \<open>
  \<open>spl_spi_load_image\<close> is registered for \<open>BOOT_DEVICE_SPI\<close> and \<open>BOOT_DEVICE_SPINAND\<close>
  only, so the \<open>switch\<close> always selects a read function.
\<close>

definition spl_spi_load_image ::
  "config \<Rightarrow> externals \<Rightarrow> spl_image_info \<Rightarrow> boot_device \<Rightarrow> hw
     \<Rightarrow> (int \<times> spl_image_info \<times> hw) option" where
  "spl_spi_load_image cfg ext spl_image bootdev s =
     (let load_offset = sunxi_get_spl_size ext;
          load_offset = max load_offset (SYS_SPI_U_BOOT_OFFS cfg)
      in case spi0_init cfg s of
           None \<Rightarrow> None
         | Some s1 \<Rightarrow>
             (case (case bootdev of
                      BOOT_DEVICE_SPINAND \<Rightarrow>
                        (case spi0_nand_reset cfg s1 of
                           None \<Rightarrow> None
                         | Some s2 \<Rightarrow> Some (spi_load_read_nand cfg, False, s2))
                    | BOOT_DEVICE_SPI \<Rightarrow> Some (spi_load_read_nor cfg, True, s1)) of
                None \<Rightarrow> None
              | Some (load_read, allow_raw, s2) \<Rightarrow>
                  (case spl_spi_try_load cfg ext spl_image bootdev load_read load_offset
                          allow_raw s2 of
                     None \<Rightarrow> None
                   | Some (ret, spl_image', s3) \<Rightarrow> Some (ret, spl_image', spi0_deinit cfg s3))))"

section \<open>Vocabulary of the specification and scripted devices\<close>

text \<open>
  The step order of one transfer as the spec words it (section 4.2): burst counter,
  transfer counter, the secondary counter where the generation has one, the transmit
  bytes, the start bit, the polls of the FIFO status register, the discarded echo and the
  received bytes.
\<close>

definition transfer_steps ::
  "u32 \<Rightarrow> u32 \<Rightarrow> u32 option \<Rightarrow> u32 \<Rightarrow> u32 \<Rightarrow> u32 \<Rightarrow> u32 \<Rightarrow> u32
     \<Rightarrow> u8 list \<Rightarrow> u32 \<Rightarrow> u32 \<Rightarrow> u32 list \<Rightarrow> u8 list \<Rightarrow> u8 list \<Rightarrow> event list" where
  "transfer_steps burst_counter transfer_counter secondary_counter tx_data control start_bit
       fifo_status rx_data tx tx_len rx_len polls echo rx =
     [Writel (tx_len + rx_len) burst_counter, Writel tx_len transfer_counter]
     @ (case secondary_counter of None \<Rightarrow> [] | Some r \<Rightarrow> [Writel tx_len r])
     @ map (\<lambda>b. Writeb b tx_data) tx
     @ [Setbits_le32 control start_bit]
     @ map (Readl fifo_status) polls
     @ map (Readb rx_data) echo
     @ map (Readb rx_data) rx"

text \<open>Concrete inputs for the witnesses: a sun6i-generation build and a scripted device.\<close>

definition wit_cfg :: config where
  "wit_cfg = \<lparr>MACH_SUN4I = False, MACH_SUN7I = False, MACH_SUN8I_R40 = False,
     MACH_SUN8I_R528 = False, MACH_SUN8I_V3S = False, MACH_SUN50I = False,
     MACH_SUN50I_H6 = False, MACH_SUN50I_H616 = False, MACH_SUNIV = False,
     SUNXI_GEN_SUN6I = True, SUN50I_GEN_H6 = False, SUNXI_GEN_NCAT2 = False,
     ARM64 = False, SPL_LOAD_FIT = True, SPL_SPINAND_PAGE_SIZE = 2048, SYS_SPI_U_BOOT_OFFS = 0x8000,
     TEXT_BASE = 0x4A000000\<rparr>"

definition wit_hw :: "u32 list \<Rightarrow> hw" where
  "wit_hw xs = \<lparr>trace = [], input = xs, mem = (\<lambda>a. 0)\<rparr>"

fun is_reg_access :: "event \<Rightarrow> bool" where
  "is_reg_access (Writel v a) = True"
| "is_reg_access (Writeb v a) = True"
| "is_reg_access (Readl a v) = True"
| "is_reg_access (Readb a v) = True"
| "is_reg_access (Setbits_le32 a m) = True"
| "is_reg_access (Clrbits_le32 a m) = True"
| "is_reg_access e = False"

definition outline :: "event list \<Rightarrow> event list" where
  "outline tr = filter (\<lambda>e. \<not> is_reg_access e) tr"

definition prompt_xfer :: "nat \<Rightarrow> u8 list \<Rightarrow> u32 list" where
  "prompt_xfer tx_len data = 0x7F # replicate tx_len 0 @ map ucast data"

definition chunk_count :: "u32 \<Rightarrow> nat" where
  "chunk_count len = (unat len + 59) div 60"

definition chunk_len :: "u32 \<Rightarrow> nat \<Rightarrow> u32" where
  "chunk_len len k = of_nat (min 60 (unat len - 60 * k))"

fun be_bytes :: "nat \<Rightarrow> nat \<Rightarrow> u8 list" where
  "be_bytes 0 x = []"
| "be_bytes (Suc n) x = of_nat (x div 256 ^ n) # be_bytes n x"

definition data_read_cmd :: "u32 \<Rightarrow> u32 \<Rightarrow> u8 list" where
  "data_read_cmd addr_len addr =
     (if addr_len = 3 then 0x03 # be_bytes 3 (unat addr) else 0x03 # be_bytes 2 (unat addr) @ [0])"

definition read_outline :: "u32 \<Rightarrow> u32 \<Rightarrow> u32 \<Rightarrow> event list" where
  "read_outline addr_len addr len =
     concat (map (\<lambda>k. [Call_spi0_xfer (data_read_cmd addr_len (addr + of_nat (60 * k))) 4
                          (chunk_len len k), Udelay 1]) [0..<chunk_count len])"

function prompt_read :: "u8 list \<Rightarrow> u32 list" where
  "prompt_read data =
     (if data = [] then [] else prompt_xfer 4 (take 60 data) @ prompt_read (drop 60 data))"
  by pat_completeness auto

termination
  by (relation "measure length") auto

text \<open>
  The statuses that the first \<open>n\<close> status polls of a page switch read, each poll run
  whatever the previous one returned: the device's answers, independent of where the
  driver stops polling.
\<close>

fun nand_status_polls :: "config \<Rightarrow> nat \<Rightarrow> u8 list \<Rightarrow> hw \<Rightarrow> (u8 list \<times> hw) option" where
  "nand_status_polls cfg 0 buf s = Some ([], s)"
| "nand_status_polls cfg (Suc n) buf s =
     (case spi0_xfer cfg buf 2 1 (udelay 1 s) of
        None \<Rightarrow> None
      | Some (rx, s') \<Rightarrow>
          (case nand_status_polls cfg n (store_at 2 rx buf) s' of
             None \<Rightarrow> None
           | Some (sts, s'') \<Rightarrow> Some ((store_at 2 rx buf ! 2) # sts, s'')))"

definition page_switch_statuses :: "config \<Rightarrow> u32 \<Rightarrow> nat \<Rightarrow> hw \<Rightarrow> (u8 list \<times> hw) option" where
  "page_switch_statuses cfg page n s =
     (case spi0_xfer cfg [0x13, ucast (drop_bit 16 page), ucast (drop_bit 8 page), ucast page] 4 0
             (emit (Call_spi0_nand_switch_page page) s) of
        None \<Rightarrow> None
      | Some (rx, s') \<Rightarrow>
          nand_status_polls cfg n [0x0f, 0xc0, ucast (drop_bit 8 page), ucast page] s')"

text \<open>
  A device that answers the page command at once and then reports the statuses \<open>sts\<close>,
  one per poll.
\<close>

definition prompt_switch :: "u8 list \<Rightarrow> u32 list" where
  "prompt_switch sts = prompt_xfer 4 [] @ concat (map (\<lambda>st. prompt_xfer 2 [st]) sts)"

definition poll_outline :: "u8 list list \<Rightarrow> event list" where
  "poll_outline bufs = concat (map (\<lambda>b. [Udelay 1, Call_spi0_xfer b 2 1]) bufs)"

text \<open>
  The page-level operations of a trace, the bound a data read must keep, and the number
  of bytes the data reads of a trace have asked for.
\<close>

fun is_page_op :: "event \<Rightarrow> bool" where
  "is_page_op (Call_spi0_nand_switch_page p) = True"
| "is_page_op (Call_spi0_read_data b a l al) = True"
| "is_page_op e = False"

definition page_ops :: "event list \<Rightarrow> event list" where
  "page_ops tr = filter is_page_op tr"

fun within_page :: "u32 \<Rightarrow> event \<Rightarrow> bool" where
  "within_page ps (Call_spi0_read_data b a l al) = (al = 2 \<and> 0 < l \<and> unat a + unat l \<le> unat ps)"
| "within_page ps (Call_spi0_xfer tx txlen rxlen) =
     (tx ! 0 = 0x03 \<longrightarrow> 256 * unat (tx ! 1) + unat (tx ! 2) + unat rxlen \<le> unat ps)"
| "within_page ps e = True"

fun read_len :: "event \<Rightarrow> nat" where
  "read_len (Call_spi0_read_data b a l al) = unat l"
| "read_len e = 0"

definition bytes_read :: "event list \<Rightarrow> nat" where
  "bytes_read evs = sum_list (map read_len evs)"

text \<open>
  A healthy NAND device: it answers every transfer at once, reports ready at the first
  status poll of every page switch, and delivers the bytes \<open>data\<close>, page after page.
\<close>

function prompt_nand :: "config \<Rightarrow> nat \<Rightarrow> u8 list \<Rightarrow> u32 list" where
  "prompt_nand cfg sector data =
     (if data = [] \<or> SPL_SPINAND_PAGE_SIZE cfg = 0 then []
      else
        (let ps = unat (SPL_SPINAND_PAGE_SIZE cfg);
             n = min (length data) (ps - sector mod ps)
         in prompt_switch [0] @ prompt_read (take n data)
              @ prompt_nand cfg (ulong cfg (sector + n)) (drop n data)))"
  by pat_completeness auto

termination
proof (relation "measure (\<lambda>(cfg, sector, data). length data)", goal_cases)
  case 1
  show ?case by simp
next
  case (2 cfg sector data ps n)
  then have "0 < ps" by (simp add: unat_gt_0)
  then have "sector mod ps < ps" by simp
  then have "0 < n" using 2 by (cases data) auto
  then show ?case using 2 by (cases data) auto
qed

text \<open>
  The page switches and data reads that a NAND read makes when no page switch times out,
  cycle by cycle, and an arm64 configuration (sun50i H6) for the examples.
\<close>

function nand_cycles :: "config \<Rightarrow> nat \<Rightarrow> nat \<Rightarrow> u32 \<Rightarrow> event list" where
  "nand_cycles cfg sector remain buf =
     (if remain = 0 \<or> SPL_SPINAND_PAGE_SIZE cfg = 0 then []
      else
        (let ps = unat (SPL_SPINAND_PAGE_SIZE cfg);
             n = min remain (ps - sector mod ps)
         in Call_spi0_nand_switch_page (of_nat (sector div ps)) #
            Call_spi0_read_data buf (of_nat (sector mod ps)) (of_nat n) 2 #
            nand_cycles cfg (ulong cfg (sector + n)) (remain - n) (buf + of_nat n)))"
  by pat_completeness auto

termination
proof (relation "measure (\<lambda>(cfg, sector, remain, buf). remain)", goal_cases)
  case 1
  show ?case by simp
next
  case (2 cfg sector remain buf ps n)
  then have "0 < ps" by (simp add: unat_gt_0)
  then have "sector mod ps < ps" by simp
  then have "0 < n" using 2 by simp
  then show ?case using 2 by simp
qed

definition wit_cfg64 :: config where
  "wit_cfg64 = \<lparr>MACH_SUN4I = False, MACH_SUN7I = False, MACH_SUN8I_R40 = False,
     MACH_SUN8I_R528 = False, MACH_SUN8I_V3S = False, MACH_SUN50I = False,
     MACH_SUN50I_H6 = True, MACH_SUN50I_H616 = False, MACH_SUNIV = False,
     SUNXI_GEN_SUN6I = False, SUN50I_GEN_H6 = True, SUNXI_GEN_NCAT2 = False,
     ARM64 = True, SPL_LOAD_FIT = True, SPL_SPINAND_PAGE_SIZE = 2048,
     SYS_SPI_U_BOOT_OFFS = 0x8000, TEXT_BASE = 0x4A000000\<rparr>"

text \<open>
  The answers a device gives to \<open>spi0_init\<close> when the soft reset has completed at the
  first look, and stand-ins for the image loaders outside this file.
\<close>

definition prompt_init :: "config \<Rightarrow> u32 list" where
  "prompt_init cfg = (if is_sun6i_gen_spi cfg then [0] else [])"

definition load_offset :: "config \<Rightarrow> externals \<Rightarrow> u32" where
  "load_offset cfg ext = max (sunxi_get_spl_size ext) (SYS_SPI_U_BOOT_OFFS cfg)"

definition wit_ext :: externals where
  "wit_ext = \<lparr>FDT_MAGIC = 0xD00DFEED, IH_MAGIC = 0x27051956, sunxi_get_spl_size = 0x6000,
     spl_load_simple_fit =
       (\<lambda>img load_read offset header s. Some (0, img\<lparr>size' := 0x100, load_addr := 0x40000000\<rparr>, s)),
     spl_parse_image_header =
       (\<lambda>img bootdev header s. (0, img\<lparr>size' := 4, load_addr := 0x42000000\<rparr>, s))\<rparr>"

definition wit_img :: spl_image_info where
  "wit_img = \<lparr>size' = 0, load_addr = 0\<rparr>"

text \<open>Three 64-byte headers: a legacy image, a structured (FIT) image, and neither.\<close>

definition legacy_header :: "u8 list" where
  "legacy_header = [0x27, 0x05, 0x19, 0x56] @ replicate 60 0"

definition fit_header :: "u8 list" where
  "fit_header = [0xD0, 0x0D, 0xFE, 0xED] @ replicate 60 0"

definition raw_header :: "u8 list" where
  "raw_header = replicate 64 0xAB"

text \<open>The configuration of the examples with structured-image support left out.\<close>

definition wit_cfg_nofit :: config where
  "wit_cfg_nofit = wit_cfg\<lparr>SPL_LOAD_FIT := False\<rparr>"

text \<open>
  The teardown of the controller as the trace shows it: the events of one \<open>spi0_deinit\<close>,
  the register clear that switches the controller off, and the register clears of a trace.
  Only \<open>spi0_disable_clock\<close> clears register bits.
\<close>

definition teardown_events :: "config \<Rightarrow> event list" where
  "teardown_events cfg = trace (spi0_deinit cfg \<lparr>trace = [], input = [], mem = (\<lambda>a. 0)\<rparr>)"

definition controller_disable :: "config \<Rightarrow> event" where
  "controller_disable cfg =
     (if is_sun6i_gen_spi cfg
      then Clrbits_le32 (spi0_base_address cfg + SUN6I_SPI0_GCR)
             (SUN6I_CTL_MASTER OR SUN6I_CTL_ENABLE)
      else Clrbits_le32 (spi0_base_address cfg + SUN4I_SPI0_CTL)
             (SUN4I_CTL_MASTER OR SUN4I_CTL_ENABLE))"

fun is_clrbits :: "event \<Rightarrow> bool" where
  "is_clrbits (Clrbits_le32 a m) = True"
| "is_clrbits e = False"

definition clrbits_of :: "event list \<Rightarrow> event list" where
  "clrbits_of tr = filter is_clrbits tr"

text \<open>Stand-ins for the image loaders that fail with \<open>-5\<close>.\<close>

definition wit_ext_fail :: externals where
  "wit_ext_fail = wit_ext\<lparr>
     spl_load_simple_fit := (\<lambda>img load_read offset header s. Some (- 5, img, s)),
     spl_parse_image_header := (\<lambda>img bootdev header s. (- 5, img, s))\<rparr>"

text \<open>Externals whose loader image is larger than the configured minimum offset.\<close>

definition wit_ext_big :: externals where
  "wit_ext_big = wit_ext\<lparr>sunxi_get_spl_size := 0xA000\<rparr>"

section \<open>Lemmas\<close>

declare wait_fifo.simps [simp del] wait_srst.simps [simp del] spi0_nand_wait_loop.simps [simp del]
  spi0_read_data_loop.simps [simp del] spi_load_read_nand_loop.simps [simp del]

lemma trace_emit [simp]: "trace (emit e s) = trace s @ [e]"
  and input_emit [simp]: "input (emit e s) = input s"
  and mem_emit [simp]: "mem (emit e s) = mem s"
  by (simp_all add: emit_def)

lemma readl_Some:
  "readl a s = Some (v, s') \<longleftrightarrow> (\<exists>vs. input s = v # vs \<and> s' = emit (Readl a v) (s\<lparr>input := vs\<rparr>))"
  by (auto simp: readl_def split: list.splits)

lemma readb_Some:
  "readb a s = Some (b, s') \<longleftrightarrow>
     (\<exists>v vs. input s = v # vs \<and> b = ucast v \<and> s' = emit (Readb a (ucast v)) (s\<lparr>input := vs\<rparr>))"
  by (auto simp: readb_def split: list.splits)

lemma fold_writeb:
  "trace (fold (\<lambda>b. writeb b reg) bs s) = trace s @ map (\<lambda>b. Writeb b reg) bs \<and>
   input (fold (\<lambda>b. writeb b reg) bs s) = input s \<and>
   mem (fold (\<lambda>b. writeb b reg) bs s) = mem s"
  by (induction bs arbitrary: s) (simp_all add: writeb_def)

lemma wait_fifo_Some:
  "wait_fifo reg want s = Some s' \<Longrightarrow>
     \<exists>polls. polls \<noteq> [] \<and> input s = polls @ input s' \<and>
       trace s' = trace s @ map (Readl reg) polls \<and> mem s' = mem s \<and>
       (\<forall>v \<in> set (butlast polls). (v AND 0x7F) < want) \<and> \<not> (last polls AND 0x7F) < want"
proof (induction reg want s rule: wait_fifo.induct)
  case (1 reg want s)
  from "1.prems" obtain v s1 where rd: "readl reg s = Some (v, s1)"
    by (auto simp: wait_fifo.simps [of reg want s] split: option.splits)
  from rd obtain vs where inp: "input s = v # vs" and s1: "s1 = emit (Readl reg v) (s\<lparr>input := vs\<rparr>)"
    by (auto simp: readl_Some)
  show ?case
  proof (cases "(v AND 0x7F) < want")
    case True
    with "1.prems" rd have "wait_fifo reg want s1 = Some s'"
      by (simp add: wait_fifo.simps [of reg want s])
    from "1.IH" [OF rd refl True this] obtain polls where
      p: "polls \<noteq> []" "input s1 = polls @ input s'" "trace s' = trace s1 @ map (Readl reg) polls"
        "mem s' = mem s1" "\<forall>v \<in> set (butlast polls). (v AND 0x7F) < want"
        "\<not> (last polls AND 0x7F) < want"
      by blast
    show ?thesis
      by (rule exI [of _ "v # polls"]) (use p inp s1 True in simp)
  next
    case False
    with "1.prems" rd have "s' = s1"
      by (simp add: wait_fifo.simps [of reg want s])
    then show ?thesis
      by (intro exI [of _ "[v]"]) (use inp s1 False in simp)
  qed
qed

lemma skip_rx_Some:
  "skip_rx n reg s = Some s' \<Longrightarrow>
     \<exists>raw. length raw = n \<and> input s = raw @ input s' \<and>
       trace s' = trace s @ map (\<lambda>v. Readb reg (ucast v)) raw \<and> mem s' = mem s"
proof (induction n arbitrary: s)
  case 0
  then show ?case by simp
next
  case (Suc n)
  from Suc.prems obtain b s1 where rd: "readb reg s = Some (b, s1)" and rest: "skip_rx n reg s1 = Some s'"
    by (auto split: option.splits)
  from rd obtain v vs where inp: "input s = v # vs" and s1: "s1 = emit (Readb reg (ucast v)) (s\<lparr>input := vs\<rparr>)"
    by (auto simp: readb_Some)
  from Suc.IH [OF rest] obtain raw where
    r: "length raw = n" "input s1 = raw @ input s'"
      "trace s' = trace s1 @ map (\<lambda>v. Readb reg (ucast v)) raw" "mem s' = mem s1"
    by blast
  show ?case
    by (rule exI [of _ "v # raw"]) (use r inp s1 in simp)
qed

lemma read_rx_Some:
  "read_rx n reg s = Some (rx, s') \<Longrightarrow>
     \<exists>raw. length raw = n \<and> rx = map ucast raw \<and> input s = raw @ input s' \<and>
       trace s' = trace s @ map (Readb reg) rx \<and> mem s' = mem s"
proof (induction n arbitrary: s rx)
  case 0
  then show ?case by simp
next
  case (Suc n)
  from Suc.prems obtain b s1 bs where rd: "readb reg s = Some (b, s1)"
    and rest: "read_rx n reg s1 = Some (bs, s')" and rx: "rx = b # bs"
    by (auto split: option.splits)
  from rd obtain v vs where inp: "input s = v # vs" and b: "b = ucast v"
    and s1: "s1 = emit (Readb reg (ucast v)) (s\<lparr>input := vs\<rparr>)"
    by (auto simp: readb_Some)
  from Suc.IH [OF rest] obtain raw where
    r: "length raw = n" "bs = map ucast raw" "input s1 = raw @ input s'"
      "trace s' = trace s1 @ map (Readb reg) bs" "mem s' = mem s1"
    by blast
  show ?case
    by (rule exI [of _ "v # raw"]) (use r inp s1 b rx in simp)
qed

lemma sunxi_spi0_xfer_Some:
  assumes "sunxi_spi0_xfer txbuf txlen rxlen ctl xch fifo tx rx bc tc bcc s = Some (data, s')"
  shows "\<exists>polls raw.
     trace s' = trace s @ transfer_steps bc tc (if bcc \<noteq> 0 then Some bcc else None) tx ctl xch
                   fifo rx (take (unat txlen) txbuf) txlen rxlen polls
                   (map ucast (take (unat txlen) raw)) data
     \<and> polls \<noteq> [] \<and> (\<forall>v \<in> set (butlast polls). (v AND 0x7F) < txlen + rxlen)
     \<and> \<not> (last polls AND 0x7F) < txlen + rxlen
     \<and> length raw = unat txlen + unat rxlen \<and> data = map ucast (drop (unat txlen) raw)
     \<and> input s = polls @ raw @ input s' \<and> mem s' = mem s \<and> unat txlen \<le> length txbuf"
proof -
  define s5 where "s5 = setbits_le32 ctl xch (fold (\<lambda>b. writeb b tx) (take (unat txlen) txbuf)
     ((if bcc \<noteq> 0 then writel txlen bcc else id) (writel txlen tc (writel (txlen + rxlen) bc s))))"
  from assms have len: "unat txlen \<le> length txbuf"
    by (auto simp: sunxi_spi0_xfer_def split: if_splits)
  from assms len obtain s6 s7 where
    w: "wait_fifo fifo (txlen + rxlen) s5 = Some s6" and
    k: "skip_rx (unat txlen) rx s6 = Some s7" and
    r: "read_rx (unat rxlen) rx s7 = Some (data, s')"
    by (auto simp: sunxi_spi0_xfer_def Let_def s5_def split: if_splits option.splits)
  have t5: "trace s5 = trace s @ [Writel (txlen + rxlen) bc, Writel txlen tc]
        @ (if bcc \<noteq> 0 then [Writel txlen bcc] else [])
        @ map (\<lambda>b. Writeb b tx) (take (unat txlen) txbuf) @ [Setbits_le32 ctl xch]"
    and i5: "input s5 = input s" and m5: "mem s5 = mem s"
    by (simp_all add: s5_def setbits_le32_def writel_def fold_writeb)
  from wait_fifo_Some [OF w] obtain polls where
    p: "polls \<noteq> []" "input s5 = polls @ input s6" "trace s6 = trace s5 @ map (Readl fifo) polls"
      "mem s6 = mem s5" "\<forall>v \<in> set (butlast polls). (v AND 0x7F) < txlen + rxlen"
      "\<not> (last polls AND 0x7F) < txlen + rxlen"
    by blast
  from skip_rx_Some [OF k] obtain raw1 where
    k1: "length raw1 = unat txlen" "input s6 = raw1 @ input s7"
      "trace s7 = trace s6 @ map (\<lambda>v. Readb rx (ucast v)) raw1" "mem s7 = mem s6"
    by blast
  from read_rx_Some [OF r] obtain raw2 where
    r1: "length raw2 = unat rxlen" "data = map ucast raw2" "input s7 = raw2 @ input s'"
      "trace s' = trace s7 @ map (Readb rx) data" "mem s' = mem s7"
    by blast
  show ?thesis
    apply (rule exI [of _ polls])
    apply (rule exI [of _ "raw1 @ raw2"])
    using p k1 r1 t5 i5 m5 len apply (simp add: transfer_steps_def comp_def)
    done
qed

lemma spi0_bcc_nonzero: "spi0_base_address cfg + SUN6I_SPI0_BCC \<noteq> 0"
  by (simp add: spi0_base_address_def SUN6I_SPI0_BCC_def)

lemmas reg_defs = SUN4I_SPI0_CCTL_def SUN4I_SPI0_CTL_def SUN4I_SPI0_RX_def SUN4I_SPI0_TX_def
  SUN4I_SPI0_FIFO_STA_def SUN4I_SPI0_BC_def SUN4I_SPI0_TC_def SUN4I_CTL_ENABLE_def
  SUN4I_CTL_MASTER_def SUN4I_CTL_TF_RST_def SUN4I_CTL_RF_RST_def SUN4I_CTL_XCH_def
  SUN6I_SPI0_CCTL_def SUN6I_SPI0_GCR_def SUN6I_SPI0_TCR_def SUN6I_SPI0_FIFO_STA_def
  SUN6I_SPI0_MBC_def SUN6I_SPI0_MTC_def SUN6I_SPI0_BCC_def SUN6I_SPI0_TXD_def
  SUN6I_SPI0_RXD_def SUN6I_CTL_ENABLE_def SUN6I_CTL_MASTER_def SUN6I_CTL_SRST_def
  SUN6I_TCR_SDM_def SUN6I_TCR_XCH_def

lemma outline_append [simp]: "outline (xs @ ys) = outline xs @ outline ys"
  by (simp add: outline_def)

lemma outline_Nil [simp]: "outline [] = []"
  by (simp add: outline_def)

lemma outline_Cons: "outline (e # es) = (if is_reg_access e then outline es else e # outline es)"
  by (simp add: outline_def)

lemma outline_transfer_steps [simp]:
  "outline (transfer_steps bc tc sec txd ctl xch fifo rxd tx tx_len rx_len polls echo rx) = []"
  by (simp add: transfer_steps_def outline_def split: option.splits)

lemma spi0_xfer_trace:
  assumes "spi0_xfer cfg txbuf txlen rxlen s = Some (rx, s')"
  shows "\<exists>polls raw.
     trace s' = trace s @ [Call_spi0_xfer txbuf txlen rxlen] @
       (let base = spi0_base_address cfg
        in if is_sun6i_gen_spi cfg
           then transfer_steps (base + SUN6I_SPI0_MBC) (base + SUN6I_SPI0_MTC)
                  (Some (base + SUN6I_SPI0_BCC)) (base + SUN6I_SPI0_TXD)
                  (base + SUN6I_SPI0_TCR) SUN6I_TCR_XCH (base + SUN6I_SPI0_FIFO_STA)
                  (base + SUN6I_SPI0_RXD) (take (unat txlen) txbuf) txlen rxlen polls
                  (map ucast (take (unat txlen) raw)) rx
           else transfer_steps (base + SUN4I_SPI0_BC) (base + SUN4I_SPI0_TC)
                  None (base + SUN4I_SPI0_TX)
                  (base + SUN4I_SPI0_CTL) SUN4I_CTL_XCH (base + SUN4I_SPI0_FIFO_STA)
                  (base + SUN4I_SPI0_RX) (take (unat txlen) txbuf) txlen rxlen polls
                  (map ucast (take (unat txlen) raw)) rx)
     \<and> polls \<noteq> []
     \<and> (\<forall>v \<in> set (butlast polls). (v AND 0x7F) < txlen + rxlen)
     \<and> \<not> (last polls AND 0x7F) < txlen + rxlen
     \<and> length raw = unat txlen + unat rxlen \<and> rx = map ucast (drop (unat txlen) raw)
     \<and> input s = polls @ raw @ input s' \<and> mem s' = mem s \<and> unat txlen \<le> length txbuf"
proof -
  define bcc where "bcc = (if is_sun6i_gen_spi cfg then spi0_base_address cfg + SUN6I_SPI0_BCC else 0)"
  have sec: "(if bcc \<noteq> 0 then Some bcc else None) =
      (if is_sun6i_gen_spi cfg then Some (spi0_base_address cfg + SUN6I_SPI0_BCC) else None)"
    using spi0_bcc_nonzero [of cfg] by (simp add: bcc_def)
  obtain ctl xch fifo tx rxr bc tc where
    x: "sunxi_spi0_xfer txbuf txlen rxlen ctl xch fifo tx rxr bc tc bcc
          (emit (Call_spi0_xfer txbuf txlen rxlen) s) = Some (rx, s')"
    and regs: "is_sun6i_gen_spi cfg \<Longrightarrow>
         ctl = spi0_base_address cfg + SUN6I_SPI0_TCR \<and> xch = SUN6I_TCR_XCH \<and>
         fifo = spi0_base_address cfg + SUN6I_SPI0_FIFO_STA \<and>
         tx = spi0_base_address cfg + SUN6I_SPI0_TXD \<and> rxr = spi0_base_address cfg + SUN6I_SPI0_RXD \<and>
         bc = spi0_base_address cfg + SUN6I_SPI0_MBC \<and> tc = spi0_base_address cfg + SUN6I_SPI0_MTC"
      "\<not> is_sun6i_gen_spi cfg \<Longrightarrow>
         ctl = spi0_base_address cfg + SUN4I_SPI0_CTL \<and> xch = SUN4I_CTL_XCH \<and>
         fifo = spi0_base_address cfg + SUN4I_SPI0_FIFO_STA \<and>
         tx = spi0_base_address cfg + SUN4I_SPI0_TX \<and> rxr = spi0_base_address cfg + SUN4I_SPI0_RX \<and>
         bc = spi0_base_address cfg + SUN4I_SPI0_BC \<and> tc = spi0_base_address cfg + SUN4I_SPI0_TC"
    using assms by (cases "is_sun6i_gen_spi cfg") (simp_all add: spi0_xfer_def Let_def bcc_def)
  from sunxi_spi0_xfer_Some [OF x] obtain polls and raw :: "u32 list" where
    y: "trace s' = trace (emit (Call_spi0_xfer txbuf txlen rxlen) s) @
          transfer_steps bc tc (if bcc \<noteq> 0 then Some bcc else None) tx ctl xch fifo rxr
            (take (unat txlen) txbuf) txlen rxlen polls (map ucast (take (unat txlen) raw)) rx"
      "polls \<noteq> []" "\<forall>v \<in> set (butlast polls). (v AND 0x7F) < txlen + rxlen"
      "\<not> (last polls AND 0x7F) < txlen + rxlen"
      "length raw = unat txlen + unat rxlen" "rx = map ucast (drop (unat txlen) raw)"
      "input (emit (Call_spi0_xfer txbuf txlen rxlen) s) = polls @ raw @ input s'"
      "mem s' = mem (emit (Call_spi0_xfer txbuf txlen rxlen) s)" "unat txlen \<le> length txbuf"
    by blast
  show ?thesis
    apply (rule exI [of _ polls])
    apply (rule exI [of _ raw])
    using y regs sec apply (cases "is_sun6i_gen_spi cfg") 
     apply (simp_all add: Let_def)
    done
qed

lemma spi0_xfer_outline:
  assumes "spi0_xfer cfg txbuf txlen rxlen s = Some (rx, s')"
  shows "outline (trace s') = outline (trace s) @ [Call_spi0_xfer txbuf txlen rxlen]"
    and "length rx = unat rxlen" and "mem s' = mem s" and "unat txlen \<le> length txbuf"
    and "\<exists>used. input s = used @ input s'"
proof -
  from spi0_xfer_trace [OF assms] obtain polls and raw :: "u32 list" where
    y: "trace s' = trace s @ [Call_spi0_xfer txbuf txlen rxlen] @
       (let base = spi0_base_address cfg
        in if is_sun6i_gen_spi cfg
           then transfer_steps (base + SUN6I_SPI0_MBC) (base + SUN6I_SPI0_MTC)
                  (Some (base + SUN6I_SPI0_BCC)) (base + SUN6I_SPI0_TXD)
                  (base + SUN6I_SPI0_TCR) SUN6I_TCR_XCH (base + SUN6I_SPI0_FIFO_STA)
                  (base + SUN6I_SPI0_RXD) (take (unat txlen) txbuf) txlen rxlen polls
                  (map ucast (take (unat txlen) raw)) rx
           else transfer_steps (base + SUN4I_SPI0_BC) (base + SUN4I_SPI0_TC)
                  None (base + SUN4I_SPI0_TX)
                  (base + SUN4I_SPI0_CTL) SUN4I_CTL_XCH (base + SUN4I_SPI0_FIFO_STA)
                  (base + SUN4I_SPI0_RX) (take (unat txlen) txbuf) txlen rxlen polls
                  (map ucast (take (unat txlen) raw)) rx)"
      "length raw = unat txlen + unat rxlen" "rx = map ucast (drop (unat txlen) raw)"
      "input s = polls @ raw @ input s'" "mem s' = mem s" "unat txlen \<le> length txbuf"
    by blast
  show "outline (trace s') = outline (trace s) @ [Call_spi0_xfer txbuf txlen rxlen]"
    using y(1) by (simp add: Let_def outline_Cons)
  show "length rx = unat rxlen" using y(2,3) by simp
  show "mem s' = mem s" by (rule y(5))
  show "unat txlen \<le> length txbuf" by (rule y(6))
  show "\<exists>used. input s = used @ input s'"
    using y(4) by (intro exI [of _ "polls @ raw"]) simp
qed

text \<open>progress\<close>

lemma wait_fifo_ready:
  "input s = v # rest \<Longrightarrow> \<not> (v AND 0x7F) < want \<Longrightarrow>
     wait_fifo reg want s = Some (emit (Readl reg v) (s\<lparr>input := rest\<rparr>))"
  by (simp add: wait_fifo.simps [of reg want s] readl_def)

lemma skip_rx_ready:
  "input s = raw @ rest \<Longrightarrow> length raw = n \<Longrightarrow>
     \<exists>s'. skip_rx n reg s = Some s' \<and> input s' = rest \<and> mem s' = mem s"
proof (induction n arbitrary: s raw)
  case 0
  then show ?case by simp
next
  case (Suc n)
  from Suc.prems obtain v raw' where raw: "raw = v # raw'" and l: "length raw' = n"
    by (cases raw) auto
  define s1 where "s1 = emit (Readb reg (ucast v)) (s\<lparr>input := raw' @ rest\<rparr>)"
  have rd: "readb reg s = Some (ucast v, s1)"
    using Suc.prems raw by (simp add: readb_def s1_def)
  have "input s1 = raw' @ rest" by (simp add: s1_def)
  from Suc.IH [OF this l] obtain s' where
    "skip_rx n reg s1 = Some s'" "input s' = rest" "mem s' = mem s1"
    by blast
  then show ?case using rd by (simp add: s1_def)
qed

lemma read_rx_ready:
  "input s = raw @ rest \<Longrightarrow> length raw = n \<Longrightarrow>
     \<exists>s'. read_rx n reg s = Some (map ucast raw, s') \<and> input s' = rest \<and> mem s' = mem s"
proof (induction n arbitrary: s raw)
  case 0
  then show ?case by simp
next
  case (Suc n)
  from Suc.prems obtain v raw' where raw: "raw = v # raw'" and l: "length raw' = n"
    by (cases raw) auto
  define s1 where "s1 = emit (Readb reg (ucast v)) (s\<lparr>input := raw' @ rest\<rparr>)"
  have rd: "readb reg s = Some (ucast v, s1)"
    using Suc.prems raw by (simp add: readb_def s1_def)
  have "input s1 = raw' @ rest" by (simp add: s1_def)
  from Suc.IH [OF this l] obtain s' where
    "read_rx n reg s1 = Some (map ucast raw', s')" "input s' = rest" "mem s' = mem s1"
    by blast
  then show ?case using rd raw by (simp add: s1_def)
qed

lemma ucast_u8_u32_u8: "(ucast (ucast (b :: u8) :: u32) :: u8) = b"
  by (simp add: ucast_up_ucast_id is_up)

lemma small_total_ready:
  fixes txlen rxlen :: u32
  assumes "unat txlen + unat rxlen \<le> 127"
  shows "\<not> ((0x7F :: u32) AND 0x7F) < txlen + rxlen"
proof -
  have "unat (txlen + rxlen) \<le> unat txlen + unat rxlen"
    by (simp add: unat_word_ariths)
  then have "unat (txlen + rxlen) \<le> 127" using assms by simp
  then have "txlen + rxlen \<le> 0x7F"
    by (simp add: word_le_nat_alt)
  then show ?thesis by simp
qed

lemma sunxi_spi0_xfer_prompt:
  assumes inp: "input s = prompt_xfer (unat txlen) data @ rest"
    and len: "length data = unat rxlen" "unat txlen \<le> length txbuf" "unat txlen + unat rxlen \<le> 127"
  shows "\<exists>s'. sunxi_spi0_xfer txbuf txlen rxlen ctl xch fifo tx rx bc tc bcc s = Some (data, s')
           \<and> input s' = rest \<and> mem s' = mem s"
proof -
  define s5 where "s5 = setbits_le32 ctl xch (fold (\<lambda>b. writeb b tx) (take (unat txlen) txbuf)
     ((if bcc \<noteq> 0 then writel txlen bcc else id) (writel txlen tc (writel (txlen + rxlen) bc s))))"
  have i5: "input s5 = 0x7F # (replicate (unat txlen) 0 @ map ucast data @ rest)" and m5: "mem s5 = mem s"
    using inp by (simp_all add: s5_def setbits_le32_def writel_def fold_writeb prompt_xfer_def)
  define s6 where "s6 = emit (Readl fifo 0x7F) (s5\<lparr>input := replicate (unat txlen) 0 @ map ucast data @ rest\<rparr>)"
  have w: "wait_fifo fifo (txlen + rxlen) s5 = Some s6"
    unfolding s6_def by (rule wait_fifo_ready [OF i5 small_total_ready [OF len(3)]])
  have i6: "input s6 = replicate (unat txlen) 0 @ (map ucast data @ rest)" and m6: "mem s6 = mem s5"
    by (simp_all add: s6_def)
  from skip_rx_ready [OF i6, of "unat txlen" rx] obtain s7 where
    k: "skip_rx (unat txlen) rx s6 = Some s7" "input s7 = map ucast data @ rest" "mem s7 = mem s6"
    by auto
  from read_rx_ready [OF k(2), of "unat rxlen" rx] len(1) obtain s' where
    r: "read_rx (unat rxlen) rx s7 = Some (map ucast (map ucast data :: u32 list), s')"
      "input s' = rest" "mem s' = mem s7"
    by auto
  have d: "map ucast (map ucast data :: u32 list) = data"
    by (simp add: comp_def ucast_u8_u32_u8)
  have "sunxi_spi0_xfer txbuf txlen rxlen ctl xch fifo tx rx bc tc bcc s = Some (data, s')"
    using w k(1) r(1) len(2) d
    by (auto simp: sunxi_spi0_xfer_def Let_def s5_def)
  then show ?thesis using r k m6 m5 by auto
qed

lemma spi0_xfer_prompt:
  assumes "input s = prompt_xfer (unat txlen) data @ rest"
    and "length data = unat rxlen" "unat txlen \<le> length txbuf" "unat txlen + unat rxlen \<le> 127"
  shows "\<exists>s'. spi0_xfer cfg txbuf txlen rxlen s = Some (data, s') \<and> input s' = rest \<and> mem s' = mem s"
proof -
  have i: "input (emit (Call_spi0_xfer txbuf txlen rxlen) s) = prompt_xfer (unat txlen) data @ rest"
    using assms(1) by simp
  show ?thesis
    using sunxi_spi0_xfer_prompt [OF i assms(2,3,4)]
    by (simp add: spi0_xfer_def Let_def)
qed

lemma be_bytes_3: "be_bytes 3 x = [of_nat (x div 65536), of_nat (x div 256), of_nat x]"
  by (simp add: numeral_3_eq_3)

lemma be_bytes_2: "be_bytes 2 x = [of_nat (x div 256), of_nat x]"
  by (simp add: numeral_2_eq_2)

lemma ucast_drop_bit_u8: "(ucast (drop_bit n (a :: u32)) :: u8) = of_nat (unat a div 2 ^ n)"
proof -
  have "unat (drop_bit n a) = drop_bit n (unat a)"
    by (rule unat_drop_bit_eq)
  also have "\<dots> = unat a div 2 ^ n"
    by (rule drop_bit_eq_div)
  finally show ?thesis
    by (simp add: word_unat_eq_iff unsigned_ucast_eq unat_of_nat take_bit_eq_mod)
qed

lemma ucast_u32_u8: "(ucast (a :: u32) :: u8) = of_nat (unat a)"
  by (simp add: word_unat_eq_iff unsigned_ucast_eq unat_of_nat take_bit_eq_mod)

lemma read_cmd_eq:
  assumes "length txbuf = 4" "addr_len = 3 \<or> addr_len = 2"
  shows "read_cmd txbuf addr addr_len = data_read_cmd addr_len addr"
proof -
  from assms(1) obtain a b c d where t: "txbuf = [a, b, c, d]"
    by (cases txbuf; cases "tl txbuf"; cases "tl (tl txbuf)"; cases "tl (tl (tl txbuf))") auto
  show ?thesis
    using assms(2) ucast_drop_bit_u8 [of 16 addr] ucast_drop_bit_u8 [of 8 addr]
    by (auto simp: t read_cmd_def data_read_cmd_def Let_def be_bytes_3 be_bytes_2)
qed

lemma length_data_read_cmd [simp]: "length (data_read_cmd addr_len addr) = 4"
  by (simp add: data_read_cmd_def be_bytes_3 be_bytes_2)

lemma store_bytes_append:
  "store_bytes a (xs @ ys) m = store_bytes (a + of_nat (length xs)) ys (store_bytes a xs m)"
  by (induction xs arbitrary: a m) (simp_all add: add.assoc)

lemma chunk_step:
  fixes len c :: u32
  assumes "0 < len" and c: "c = (if SPI_READ_MAX_SIZE < len then SPI_READ_MAX_SIZE else len)"
  shows "chunk_count len = Suc (chunk_count (len - c)) \<and>
      chunk_len len 0 = c \<and>
      (\<forall>k < chunk_count (len - c). chunk_len len (Suc k) = chunk_len (len - c) k \<and> c = 60) \<and>
      unat c + unat (len - c) = unat len \<and> c \<noteq> 0 \<and> c \<le> 60"
proof (cases "SPI_READ_MAX_SIZE < len")
  case True
  then have c60: "c = 60" by (simp add: c SPI_READ_MAX_SIZE_def)
  from True have big: "60 < unat len"
    by (simp add: word_less_nat_alt SPI_READ_MAX_SIZE_def)
  have "(60 :: u32) \<le> len" using True by (simp add: SPI_READ_MAX_SIZE_def less_imp_le)
  then have sub: "unat (len - 60) = unat len - 60"
    by (simp add: unat_sub)
  show ?thesis
    using big sub by (simp add: c60 chunk_count_def chunk_len_def)
next
  case False
  then have cl: "c = len" by (simp add: c)
  from False have small: "unat len \<le> 60"
    by (simp add: word_less_nat_alt SPI_READ_MAX_SIZE_def not_less)
  have l60: "len \<le> 60" using False by (simp add: SPI_READ_MAX_SIZE_def not_less)
  have pos: "0 < unat len" using assms(1) by (simp add: word_less_nat_alt)
  have nz: "len \<noteq> 0" using assms(1) by auto
  show ?thesis
    using small pos l60 nz by (simp add: cl chunk_count_def chunk_len_def min_def)
qed

lemma concat_map_upt_Suc:
  "concat (map F [0..<Suc n]) = F 0 @ concat (map (\<lambda>k. F (Suc k)) [0..<n])"
proof -
  have "[0..<Suc n] = 0 # map Suc [0..<n]"
    by (simp only: map_Suc_upt upt_conv_Cons [of 0 "Suc n"] zero_less_Suc)
  then show ?thesis
    by (simp add: comp_def del: upt_Suc)
qed

lemma read_outline_step:
  fixes len c :: u32
  assumes "0 < len" and c: "c = (if SPI_READ_MAX_SIZE < len then SPI_READ_MAX_SIZE else len)"
  shows "read_outline addr_len addr len =
     [Call_spi0_xfer (data_read_cmd addr_len addr) 4 c, Udelay 1]
       @ read_outline addr_len (addr + c) (len - c)"
proof -
  from chunk_step [OF assms] have
    n: "chunk_count len = Suc (chunk_count (len - c))" and c0: "chunk_len len 0 = c"
    and k: "\<forall>k < chunk_count (len - c). chunk_len len (Suc k) = chunk_len (len - c) k \<and> c = 60"
    by auto
  have e: "concat (map (\<lambda>k. [Call_spi0_xfer (data_read_cmd addr_len (addr + of_nat (60 * Suc k))) 4
                          (chunk_len len (Suc k)), Udelay 1]) [0..<chunk_count (len - c)])
      = concat (map (\<lambda>k. [Call_spi0_xfer (data_read_cmd addr_len (addr + c + of_nat (60 * k))) 4
                          (chunk_len (len - c) k), Udelay 1]) [0..<chunk_count (len - c)])"
    using k by (intro arg_cong [where f = concat] map_cong) (auto simp: algebra_simps)
  show ?thesis
    unfolding read_outline_def n concat_map_upt_Suc e
    by (simp add: c0)
qed

lemma read_outline_0 [simp]: "read_outline addr_len addr 0 = []"
  by (simp add: read_outline_def chunk_count_def)

lemma spi0_read_data_loop_Some:
  assumes "spi0_read_data_loop cfg txbuf buf8 addr len addr_len s = Some s'"
    and "length txbuf = 4" "addr_len = 3 \<or> addr_len = 2"
  shows "outline (trace s') = outline (trace s) @ read_outline addr_len addr len
     \<and> (\<exists>data. length data = unat len \<and> mem s' = store_bytes buf8 data (mem s))
     \<and> (\<exists>used. input s = used @ input s')"
  using assms
proof (induction cfg txbuf buf8 addr len addr_len s rule: spi0_read_data_loop.induct)
  case (1 cfg txbuf buf8 addr len addr_len s)
  show ?case
  proof (cases "0 < len")
    case False
    then have z: "len = 0" by (auto simp: word_gt_0)
    with "1.prems"(1) have "s' = s"
      by (simp add: spi0_read_data_loop.simps [of cfg txbuf buf8 addr 0 addr_len s])
    then show ?thesis
      using z by (auto intro: exI [of _ "[]"])
  next
    case True
    define c where "c = (if SPI_READ_MAX_SIZE < len then SPI_READ_MAX_SIZE else len)"
    define cmd where "cmd = read_cmd txbuf addr addr_len"
    have cmd_eq: "cmd = data_read_cmd addr_len addr"
      using "1.prems"(2,3) by (simp add: cmd_def read_cmd_eq)
    from "1.prems"(1) True obtain rx s1 where
      x: "spi0_xfer cfg cmd 4 c s = Some (rx, s1)" and
      rest: "spi0_read_data_loop cfg cmd (buf8 + c) (addr + c) (len - c) addr_len
               (udelay 1 (s1\<lparr>mem := store_bytes buf8 rx (mem s1)\<rparr>)) = Some s'"
      by (auto simp: spi0_read_data_loop.simps [of cfg txbuf buf8 addr len addr_len s] Let_def
            c_def cmd_def split: option.splits)
    define s2 where "s2 = udelay 1 (s1\<lparr>mem := store_bytes buf8 rx (mem s1)\<rparr>)"
    have l4: "length cmd = 4" by (simp add: cmd_eq)
    from "1.IH" [OF True c_def cmd_def x refl rest [unfolded s2_def [symmetric], unfolded s2_def] l4 "1.prems"(3)]
    obtain data used where
      ih: "outline (trace s') = outline (trace s2) @ read_outline addr_len (addr + c) (len - c)"
        "length data = unat (len - c)" "mem s' = store_bytes (buf8 + c) data (mem s2)"
        "input s2 = used @ input s'"
      unfolding s2_def by blast
    from spi0_xfer_outline [OF x] obtain used1 where
      o: "outline (trace s1) = outline (trace s) @ [Call_spi0_xfer cmd 4 c]"
        "length rx = unat c" "mem s1 = mem s" "input s = used1 @ input s1"
      by blast
    from chunk_step [OF True c_def] have sum: "unat c + unat (len - c) = unat len"
      by simp
    have t2: "outline (trace s2) = outline (trace s) @ [Call_spi0_xfer cmd 4 c, Udelay 1]"
      by (simp add: s2_def udelay_def o(1) outline_Cons)
    have m2: "mem s2 = store_bytes buf8 rx (mem s)" and i2: "input s2 = input s1"
      by (simp_all add: s2_def udelay_def o(3))
    have c_rx: "c = of_nat (length rx)"
      by (simp add: o(2))
    have "outline (trace s') = outline (trace s) @ read_outline addr_len addr len"
      by (simp add: ih(1) t2 read_outline_step [OF True c_def] cmd_eq)
    moreover have "length (rx @ data) = unat len \<and> mem s' = store_bytes buf8 (rx @ data) (mem s)"
      using sum by (simp add: ih(2,3) o(2) m2 store_bytes_append flip: c_rx)
    moreover have "input s = (used1 @ used) @ input s'"
      by (simp add: o(4) ih(4) flip: i2)
    ultimately show ?thesis by blast
  qed
qed

declare prompt_read.simps [simp del]

lemma spi0_read_data_Some:
  assumes "spi0_read_data cfg buf addr len addr_len s = Some s'" and "addr_len = 3 \<or> addr_len = 2"
  shows "outline (trace s') = outline (trace s)
           @ Call_spi0_read_data buf addr len addr_len # read_outline addr_len addr len"
    and "\<exists>data. length data = unat len \<and> mem s' = store_bytes buf data (mem s)"
    and "\<exists>used. input s = used @ input s'"
  using spi0_read_data_loop_Some [OF assms(1) [unfolded spi0_read_data_def] _ assms(2)]
  by (simp_all add: outline_Cons)

lemma length_read_cmd [simp]: "length (read_cmd txbuf addr addr_len) = length txbuf"
  by (simp add: read_cmd_def Let_def)

lemma spi0_read_data_loop_prompt:
  assumes "input s = prompt_read data @ rest" "length data = unat len" "length txbuf = 4"
  shows "\<exists>s'. spi0_read_data_loop cfg txbuf buf8 addr len addr_len s = Some s'
           \<and> input s' = rest \<and> mem s' = store_bytes buf8 data (mem s)"
  using assms
proof (induction cfg txbuf buf8 addr len addr_len s arbitrary: data
        rule: spi0_read_data_loop.induct)
  case (1 cfg txbuf buf8 addr len addr_len s)
  show ?case
  proof (cases "0 < len")
    case False
    then have z: "len = 0" by (auto simp: word_gt_0)
    then have "data = []" using "1.prems"(2) by simp
    then show ?thesis
      using z "1.prems"(1)
      by (simp add: spi0_read_data_loop.simps [of cfg txbuf buf8 addr 0 addr_len s]
            prompt_read.simps [of "[]"])
  next
    case True
    define c where "c = (if SPI_READ_MAX_SIZE < len then SPI_READ_MAX_SIZE else len)"
    define cmd where "cmd = read_cmd txbuf addr addr_len"
    from chunk_step [OF True c_def] have
      sum: "unat c + unat (len - c) = unat len" and c60: "c \<le> 60" and c0: "chunk_len len 0 = c"
      by simp_all
    have uc: "unat c = min 60 (unat len)"
      using c0 [symmetric] by (simp add: chunk_len_def unat_of_nat min_def)
    have ne: "data \<noteq> []"
      using True "1.prems"(2) by (auto simp: word_less_nat_alt)
    have lt: "length (take 60 data) = unat c"
      using "1.prems"(2) by (simp add: uc min.commute)
    have inp: "input s = prompt_xfer (unat (4 :: u32)) (take 60 data) @ (prompt_read (drop 60 data) @ rest)"
      using "1.prems"(1) ne by (simp add: prompt_read.simps [of data])
    have small: "unat (4 :: u32) + unat c \<le> 127"
      using uc by simp
    have l4: "unat (4 :: u32) \<le> length cmd"
      by (simp add: cmd_def "1.prems"(3))
    from spi0_xfer_prompt [OF inp lt l4 small, of cfg] obtain s1 where
      x: "spi0_xfer cfg cmd 4 c s = Some (take 60 data, s1)"
      and i1: "input s1 = prompt_read (drop 60 data) @ rest" and m1: "mem s1 = mem s"
      by blast
    define s2 where "s2 = udelay 1 (s1\<lparr>mem := store_bytes buf8 (take 60 data) (mem s1)\<rparr>)"
    have i2: "input s2 = prompt_read (drop 60 data) @ rest"
      by (simp add: s2_def udelay_def i1)
    have ld: "length (drop 60 data) = unat (len - c)"
      using "1.prems"(2) sum uc by simp
    have lc: "length cmd = 4" by (simp add: cmd_def "1.prems"(3))
    from "1.IH" [OF True c_def cmd_def x refl i2 [unfolded s2_def] ld lc]
    obtain s' where
      r: "spi0_read_data_loop cfg cmd (buf8 + c) (addr + c) (len - c) addr_len s2 = Some s'"
        "input s' = rest" "mem s' = store_bytes (buf8 + c) (drop 60 data) (mem s2)"
      unfolding s2_def by blast
    have c_eq: "c = of_nat (length (take 60 data))"
      by (simp only: lt) simp
    have "store_bytes buf8 (take 60 data @ drop 60 data) (mem s)
        = store_bytes (buf8 + c) (drop 60 data) (store_bytes buf8 (take 60 data) (mem s))"
      by (simp only: store_bytes_append flip: c_eq)
    then have m: "mem s' = store_bytes buf8 data (mem s)"
      by (simp add: r(3) s2_def udelay_def m1)
    have "spi0_read_data_loop cfg txbuf buf8 addr len addr_len s = Some s'"
      using True x r(1) [unfolded s2_def]
      by (simp add: spi0_read_data_loop.simps [of cfg txbuf buf8 addr len addr_len s] Let_def
            flip: c_def cmd_def)
    then show ?thesis using r(2) m by blast
  qed
qed

lemma spi0_read_data_prompt:
  assumes "input s = prompt_read data @ rest" "length data = unat len"
  shows "\<exists>s'. spi0_read_data cfg buf addr len addr_len s = Some s'
           \<and> input s' = rest \<and> mem s' = store_bytes buf data (mem s)"
  using spi0_read_data_loop_prompt [of "emit (Call_spi0_read_data buf addr len addr_len) s"
      data rest len "[0, 0, 0, 0]" cfg buf addr addr_len] assms
  by (simp add: spi0_read_data_def)

lemma chunk_count_bound: "k < chunk_count len \<longleftrightarrow> 60 * k < unat len"
  by (auto simp: chunk_count_def)

lemma unat_chunk_len: "unat (chunk_len len k) = min 60 (unat len - 60 * k)"
  by (simp add: chunk_len_def unat_of_nat min_def)







lemma poll_outline_simps [simp]:
  "poll_outline [] = []"
  "poll_outline (b # bs) = Udelay 1 # Call_spi0_xfer b 2 1 # poll_outline bs"
  by (simp_all add: poll_outline_def)

lemma store_at_one: "length rx = 1 \<Longrightarrow> store_at i rx buf = buf[i := rx ! 0]"
  by (cases rx) auto

lemma status_xfer:
  assumes "spi0_xfer cfg buf 2 1 (udelay 1 s) = Some (rx, s1)"
    and "length buf = 4" "take 2 buf = [0x0f, 0xc0]"
  shows "outline (trace s1) = outline (trace s) @ [Udelay 1, Call_spi0_xfer buf 2 1]"
    and "mem s1 = mem s" and "\<exists>used. input s = used @ input s1"
    and "length (store_at 2 rx buf) = 4" and "take 2 (store_at 2 rx buf) = [0x0f, 0xc0]"
proof -
  note o = spi0_xfer_outline [OF assms(1)]
  show "outline (trace s1) = outline (trace s) @ [Udelay 1, Call_spi0_xfer buf 2 1]"
    using o(1) by (simp add: udelay_def outline_Cons)
  show "mem s1 = mem s" using o(3) by (simp add: udelay_def)
  show "\<exists>used. input s = used @ input s1" using o(5) by (simp add: udelay_def)
  have l1: "length rx = 1" using o(2) by simp
  show "length (store_at 2 rx buf) = 4" by (simp add: store_at_one [OF l1] assms(2))
  show "take 2 (store_at 2 rx buf) = [0x0f, 0xc0]"
    by (simp add: store_at_one [OF l1] assms(3))
qed


lemma nand_wait_ready:
  assumes "nand_status_polls cfg (Suc k) buf s = Some (busy @ [ready], s')"
    and "length busy = k" "\<forall>st \<in> set busy. st AND 1 \<noteq> 0" "ready AND 1 = 0" "count + k < 100"
  shows "spi0_nand_wait_loop cfg count buf s = Some (0, s')"
  using assms
proof (induction k arbitrary: count buf s busy)
  case 0
  then have b: "busy = []" by simp
  from "0.prems"(1) obtain rx where
    x: "spi0_xfer cfg buf 2 1 (udelay 1 s) = Some (rx, s')" and st: "store_at 2 rx buf ! 2 = ready"
    by (auto simp: b split: option.splits)
  show ?case
    using x st "0.prems"(4,5)
    by (simp add: spi0_nand_wait_loop.simps [of cfg count buf s] Let_def)
next
  case (Suc k)
  from Suc.prems(2) obtain b busy' where busy: "busy = b # busy'" and l: "length busy' = k"
    by (cases busy) auto
  from Suc.prems(1) obtain rx s1 where
    x: "spi0_xfer cfg buf 2 1 (udelay 1 s) = Some (rx, s1)" and
    p: "nand_status_polls cfg (Suc k) (store_at 2 rx buf) s1 = Some (busy' @ [ready], s')" and
    st: "store_at 2 rx buf ! 2 = b"
    by (auto simp: busy split: option.splits)
  have bb: "b AND 1 \<noteq> 0" and rest: "\<forall>st \<in> set busy'. st AND 1 \<noteq> 0"
    using Suc.prems(3) by (simp_all add: busy)
  have c: "Suc count + k < 100" using Suc.prems(5) by simp
  from Suc.IH [OF p l rest Suc.prems(4) c]
  have "spi0_nand_wait_loop cfg (Suc count) (store_at 2 rx buf) s1 = Some (0, s')" .
  then show ?case
    using x st bb Suc.prems(5)
    by (simp add: spi0_nand_wait_loop.simps [of cfg count buf s] Let_def)
qed

lemma nand_wait_timeout:
  assumes "nand_status_polls cfg n buf s = Some (sts, s')"
    and "\<forall>st \<in> set sts. st AND 1 \<noteq> 0" "count + n = 100"
  shows "spi0_nand_wait_loop cfg count buf s = Some (- ETIMEDOUT, s')"
  using assms
proof (induction n arbitrary: count buf s sts)
  case 0
  then have "count = 100" "s' = s" by simp_all
  then show ?case
    by (simp add: spi0_nand_wait_loop.simps [of cfg 100 buf s])
next
  case (Suc n)
  from Suc.prems(1) obtain rx s1 sts1 where
    x: "spi0_xfer cfg buf 2 1 (udelay 1 s) = Some (rx, s1)" and
    p: "nand_status_polls cfg n (store_at 2 rx buf) s1 = Some (sts1, s')" and
    sts: "sts = (store_at 2 rx buf ! 2) # sts1"
    by (auto split: option.splits)
  have bb: "(store_at 2 rx buf ! 2) AND 1 \<noteq> 0" and rest: "\<forall>st \<in> set sts1. st AND 1 \<noteq> 0"
    using Suc.prems(2) by (simp_all add: sts)
  have c: "Suc count + n = 100" using Suc.prems(3) by simp
  from Suc.IH [OF p rest c]
  have "spi0_nand_wait_loop cfg (Suc count) (store_at 2 rx buf) s1 = Some (- ETIMEDOUT, s')" .
  then show ?case
    using x bb Suc.prems(3)
    by (simp add: spi0_nand_wait_loop.simps [of cfg count buf s] Let_def)
qed

lemma nand_status_polls_prompt:
  assumes "input s = concat (map (\<lambda>st. prompt_xfer 2 [st]) sts) @ rest" "length buf = 4"
  shows "\<exists>s'. nand_status_polls cfg (length sts) buf s = Some (sts, s')
           \<and> input s' = rest \<and> mem s' = mem s"
  using assms
proof (induction sts arbitrary: buf s)
  case Nil
  then show ?case by simp
next
  case (Cons st sts)
  have i: "input (udelay 1 s) = prompt_xfer (unat (2 :: u32)) [st]
             @ (concat (map (\<lambda>st. prompt_xfer 2 [st]) sts) @ rest)"
    using Cons.prems(1) by (simp add: udelay_def)
  have "\<exists>s1. spi0_xfer cfg buf 2 1 (udelay 1 s) = Some ([st], s1)
           \<and> input s1 = concat (map (\<lambda>st. prompt_xfer 2 [st]) sts) @ rest
           \<and> mem s1 = mem (udelay 1 s)"
    by (rule spi0_xfer_prompt [OF i]) (simp_all add: Cons.prems(2))
  then obtain s1 where
    x: "spi0_xfer cfg buf 2 1 (udelay 1 s) = Some ([st], s1)" and
    i1: "input s1 = concat (map (\<lambda>st. prompt_xfer 2 [st]) sts) @ rest" and
    m1: "mem s1 = mem s"
    by (auto simp: udelay_def)
  have l: "length (store_at 2 [st] buf) = 4" by (simp add: Cons.prems(2))
  from Cons.IH [OF i1 l] obtain s' where
    p: "nand_status_polls cfg (length sts) (store_at 2 [st] buf) s1 = Some (sts, s')"
      "input s' = rest" "mem s' = mem s1"
    by blast
  have "store_at 2 [st] buf ! 2 = st" by (simp add: Cons.prems(2))
  then show ?case
    using x p m1 by simp
qed

lemma page_switch_statuses_prompt:
  assumes "input s = prompt_switch sts @ rest"
  shows "\<exists>s'. page_switch_statuses cfg page (length sts) s = Some (sts, s')
           \<and> input s' = rest \<and> mem s' = mem s"
proof -
  let ?cmd = "[0x13, ucast (drop_bit 16 page), ucast (drop_bit 8 page), ucast page] :: u8 list"
  have i: "input (emit (Call_spi0_nand_switch_page page) s) = prompt_xfer (unat (4 :: u32)) []
             @ (concat (map (\<lambda>st. prompt_xfer 2 [st]) sts) @ rest)"
    using assms by (simp add: prompt_switch_def)
  have "\<exists>s1. spi0_xfer cfg ?cmd 4 0 (emit (Call_spi0_nand_switch_page page) s) = Some ([], s1)
           \<and> input s1 = concat (map (\<lambda>st. prompt_xfer 2 [st]) sts) @ rest
           \<and> mem s1 = mem (emit (Call_spi0_nand_switch_page page) s)"
    by (rule spi0_xfer_prompt [OF i]) simp_all
  then obtain s1 where
    x: "spi0_xfer cfg ?cmd 4 0 (emit (Call_spi0_nand_switch_page page) s) = Some ([], s1)" and
    i1: "input s1 = concat (map (\<lambda>st. prompt_xfer 2 [st]) sts) @ rest" and
    m1: "mem s1 = mem s"
    by auto
  from nand_status_polls_prompt [OF i1, of "[0x0f, 0xc0, ucast (drop_bit 8 page), ucast page]" cfg]
  obtain s' where
    "nand_status_polls cfg (length sts) [0x0f, 0xc0, ucast (drop_bit 8 page), ucast page] s1
       = Some (sts, s')" "input s' = rest" "mem s' = mem s1"
    by auto
  then show ?thesis
    using x m1 by (simp add: page_switch_statuses_def)
qed

lemma spi0_nand_wait_loop_Some:
  assumes "spi0_nand_wait_loop cfg count buf s = Some (r, s')"
    and "length buf = 4" "take 2 buf = [0x0f, 0xc0]"
  shows "(r = 0 \<or> r = - ETIMEDOUT) \<and> mem s' = mem s \<and> (\<exists>used. input s = used @ input s') \<and>
     (\<exists>bufs. length bufs \<le> 100 - count \<and> (r \<noteq> 0 \<longrightarrow> length bufs = 100 - count) \<and>
        (\<forall>b \<in> set bufs. take 2 b = [0x0f, 0xc0]) \<and>
        outline (trace s') = outline (trace s) @ poll_outline bufs)"
  using assms
proof (induction cfg count buf s rule: spi0_nand_wait_loop.induct)
  case (1 cfg count buf s)
  show ?case
  proof (cases "count < 100")
    case False
    with "1.prems"(1) have "r = - ETIMEDOUT" "s' = s"
      by (simp_all add: spi0_nand_wait_loop.simps [of cfg count buf s])
    then show ?thesis
      using False by (auto intro: exI [of _ "[]"])
  next
    case True
    from "1.prems"(1) True obtain rx s1 where
      x: "spi0_xfer cfg buf 2 1 (udelay 1 s) = Some (rx, s1)"
      by (auto simp: spi0_nand_wait_loop.simps [of cfg count buf s] split: option.splits)
    note sx = status_xfer [OF x "1.prems"(2,3)]
    from sx(3) obtain used1 where u1: "input s = used1 @ input s1" by blast
    show ?thesis
    proof (cases "(store_at 2 rx buf ! 2) AND 1 = 0")
      case ready: True
      with "1.prems"(1) True x have "r = 0" "s' = s1"
        by (simp_all add: spi0_nand_wait_loop.simps [of cfg count buf s] Let_def)
      then show ?thesis
        using sx(1,2) u1 True "1.prems"(3)
        by (auto intro!: exI [of _ "[buf]"] exI [of _ used1])
    next
      case busy: False
      with "1.prems"(1) True x have
        rest: "spi0_nand_wait_loop cfg (Suc count) (store_at 2 rx buf) s1 = Some (r, s')"
        by (simp add: spi0_nand_wait_loop.simps [of cfg count buf s] Let_def)
      from "1.IH" [OF True x refl refl busy rest sx(4,5)] obtain used bufs where
        ih: "r = 0 \<or> r = - ETIMEDOUT" "mem s' = mem s1" "input s1 = used @ input s'"
          "length bufs \<le> 100 - Suc count" "r \<noteq> 0 \<longrightarrow> length bufs = 100 - Suc count"
          "\<forall>b \<in> set bufs. take 2 b = [0x0f, 0xc0]"
          "outline (trace s') = outline (trace s1) @ poll_outline bufs"
        by blast
      have "length (buf # bufs) \<le> 100 - count \<and> (r \<noteq> 0 \<longrightarrow> length (buf # bufs) = 100 - count) \<and>
        (\<forall>b \<in> set (buf # bufs). take 2 b = [0x0f, 0xc0]) \<and>
        outline (trace s') = outline (trace s) @ poll_outline (buf # bufs)"
        using ih sx(1) True "1.prems"(3) by auto
      moreover have "input s = (used1 @ used) @ input s'"
        using u1 ih(3) by simp
      ultimately show ?thesis
        using ih(1,2) sx(2) by metis
    qed
  qed
qed

lemma page_cmd_eq:
  "[0x13, ucast (drop_bit 16 page), ucast (drop_bit 8 page), ucast page] = 0x13 # be_bytes 3 (unat (page :: u32))"
proof -
  have a: "(ucast (drop_bit 16 page) :: u8) = of_nat (unat page div 65536)"
    using ucast_drop_bit_u8 [of 16 page] by simp
  have b: "(ucast (drop_bit 8 page) :: u8) = of_nat (unat page div 256)"
    using ucast_drop_bit_u8 [of 8 page] by simp
  show ?thesis
    by (simp add: be_bytes_3 a b)
qed

lemma spi0_nand_switch_page_Some:
  assumes "spi0_nand_switch_page cfg page s = Some (r, s')"
  shows "(r = 0 \<or> r = - ETIMEDOUT) \<and> mem s' = mem s \<and> (\<exists>used. input s = used @ input s') \<and>
     (\<exists>bufs. length bufs \<le> 100 \<and> (r \<noteq> 0 \<longrightarrow> length bufs = 100) \<and>
        (\<forall>b \<in> set bufs. take 2 b = [0x0f, 0xc0]) \<and>
        outline (trace s') = outline (trace s) @ Call_spi0_nand_switch_page page #
          Call_spi0_xfer (0x13 # be_bytes 3 (unat page)) 4 0 # poll_outline bufs)"
proof -
  let ?cmd = "[0x13, ucast (drop_bit 16 page), ucast (drop_bit 8 page), ucast page] :: u8 list"
  let ?buf = "[0x0f, 0xc0, ucast (drop_bit 8 page), ucast page] :: u8 list"
  from assms obtain rx s1 where
    x: "spi0_xfer cfg ?cmd 4 0 (emit (Call_spi0_nand_switch_page page) s) = Some (rx, s1)" and
    w: "spi0_nand_wait_loop cfg 0 ?buf s1 = Some (r, s')"
    by (auto simp: spi0_nand_switch_page_def Let_def split: option.splits)
  note o = spi0_xfer_outline [OF x]
  from o(5) obtain used1 where u1: "input s = used1 @ input s1" by auto
  from spi0_nand_wait_loop_Some [OF w] obtain used bufs where
    ih: "r = 0 \<or> r = - ETIMEDOUT" "mem s' = mem s1" "input s1 = used @ input s'"
      "length bufs \<le> 100 - 0" "r \<noteq> 0 \<longrightarrow> length bufs = 100 - 0"
      "\<forall>b \<in> set bufs. take 2 b = [0x0f, 0xc0]"
      "outline (trace s') = outline (trace s1) @ poll_outline bufs"
    by auto
  have "outline (trace s') = outline (trace s) @ Call_spi0_nand_switch_page page #
          Call_spi0_xfer (0x13 # be_bytes 3 (unat page)) 4 0 # poll_outline bufs"
    using ih(7) o(1) by (simp add: outline_Cons flip: page_cmd_eq)
  moreover have "input s = (used1 @ used) @ input s'"
    using u1 ih(3) by simp
  ultimately show ?thesis
    using ih o(3) by (metis diff_zero mem_emit)
qed

lemma bytes_read_simps [simp]:
  "bytes_read [] = 0" "bytes_read (e # es) = read_len e + bytes_read es"
  "bytes_read (xs @ ys) = bytes_read xs + bytes_read ys"
  by (simp_all add: bytes_read_def)

lemma page_ops_simps [simp]:
  "page_ops [] = []" "page_ops (xs @ ys) = page_ops xs @ page_ops ys"
  "page_ops (e # es) = (if is_page_op e then e # page_ops es else page_ops es)"
  by (simp_all add: page_ops_def)

lemma page_ops_outline [simp]: "page_ops (outline tr) = page_ops tr"
  by (induction tr) (simp_all add: outline_Cons, (case_tac a; simp)+)

lemma poll_outline_props [simp]:
  "bytes_read (poll_outline bufs) = 0" "page_ops (poll_outline bufs) = []"
  by (induction bufs) auto

lemma poll_outline_within:
  "\<forall>b \<in> set bufs. take 2 b = [0x0f, 0xc0] \<Longrightarrow> e \<in> set (poll_outline bufs) \<Longrightarrow> within_page ps e"
proof (induction bufs)
  case Nil
  then show ?case by simp
next
  case (Cons b bufs)
  from Cons.prems(1) have "take 2 b = [0x0f, 0xc0]" by simp
  then have "b ! 0 = 0x0f"
    by (metis nth_Cons_0 nth_take zero_less_numeral)
  then show ?case using Cons by auto
qed

lemma read_outline_props [simp]:
  "bytes_read (read_outline al a l) = 0" "page_ops (read_outline al a l) = []"
proof -
  have "\<And>ks. bytes_read (concat (map (\<lambda>k. [Call_spi0_xfer (data_read_cmd al (a + of_nat (60 * k))) 4
                          (chunk_len l k), Udelay 1]) ks)) = 0"
    by (induct_tac ks) auto
  then show "bytes_read (read_outline al a l) = 0"
    by (simp add: read_outline_def)
  have "\<And>ks. page_ops (concat (map (\<lambda>k. [Call_spi0_xfer (data_read_cmd al (a + of_nat (60 * k))) 4
                          (chunk_len l k), Udelay 1]) ks)) = []"
    by (induct_tac ks) auto
  then show "page_ops (read_outline al a l) = []"
    by (simp add: read_outline_def)
qed

lemma column_bytes:
  "256 * unat (of_nat (A div 256) :: u8) + unat (of_nat A :: u8) \<le> A"
proof -
  have a: "A div 256 mod 256 \<le> A div 256" by simp
  have b: "256 * (A div 256) + A mod 256 = A" by simp
  have c: "256 * (A div 256 mod 256) + A mod 256 \<le> A" using a b by linarith
  have "unat (of_nat (A div 256) :: u8) = (A div 256) mod 2 ^ LENGTH(8)"
    by (rule unat_of_nat)
  moreover have "unat (of_nat A :: u8) = A mod 2 ^ LENGTH(8)"
    by (rule unat_of_nat)
  ultimately show ?thesis using c by simp
qed

lemma read_outline_within:
  fixes a l ps :: u32
  assumes "unat a + unat l \<le> unat ps" "e \<in> set (read_outline 2 a l)"
  shows "within_page ps e"
proof -
  from assms(2) obtain k where k: "k < chunk_count l"
    and e: "e = Call_spi0_xfer (data_read_cmd 2 (a + of_nat (60 * k))) 4 (chunk_len l k) \<or> e = Udelay 1"
    by (auto simp: read_outline_def)
  define A where "A = unat (a + of_nat (60 * k))"
  have lt: "60 * k < unat l" using k by (simp add: chunk_count_bound)
  have "A \<le> unat a + unat (of_nat (60 * k) :: u32)"
    unfolding A_def by (simp add: unat_word_ariths)
  also have "\<dots> \<le> unat a + 60 * k"
  proof -
    have "unat (of_nat (60 * k) :: u32) = (60 * k) mod 2 ^ LENGTH(32)"
      by (rule unat_of_nat)
    also have "\<dots> \<le> 60 * k" by (rule mod_less_eq_dividend)
    finally show ?thesis by simp
  qed
  finally have A: "A \<le> unat a + 60 * k" .
  have c: "unat (chunk_len l k) \<le> unat l - 60 * k"
    by (simp add: unat_chunk_len)
  have "256 * unat (of_nat (A div 256) :: u8) + unat (of_nat A :: u8) + unat (chunk_len l k) \<le> unat ps"
    using column_bytes [of A] A c lt assms(1) by linarith
  then show ?thesis
    using e by (auto simp: data_read_cmd_def be_bytes_2 A_def)
qed

lemma count_in_page_bounds:
  fixes sector remain :: nat and ps :: u32
  assumes "remain \<noteq> 0" "ps \<noteq> 0"
  defines "cip \<equiv> min remain (unat ps - sector mod unat ps)"
  shows "0 < cip" "cip \<le> remain" "sector mod unat ps + cip \<le> unat ps"
    "cip + (remain - cip) = remain"
    "unat (of_nat cip :: u32) = cip" "unat (of_nat (sector mod unat ps) :: u32) = sector mod unat ps"
    "0 < (of_nat cip :: u32)"
    "unat (of_nat (sector mod unat ps) :: u32) + unat (of_nat cip :: u32) \<le> unat ps"
proof -
  have p: "0 < unat ps" using assms(2) by (simp add: unat_gt_0)
  then have lt: "sector mod unat ps < unat ps" by simp
  show c: "0 < cip" using assms(1) lt by (simp add: cip_def)
  show "cip \<le> remain" by (simp add: cip_def)
  show b: "sector mod unat ps + cip \<le> unat ps" using lt by (simp add: cip_def)
  show "cip + (remain - cip) = remain" by (simp add: cip_def)
  have "unat ps < 2 ^ 32" using unsigned_less [of ps, where 'a = nat] by simp
  then have "cip < 2 ^ 32" "sector mod unat ps < 2 ^ 32" using b lt by simp_all
  then show u: "unat (of_nat cip :: u32) = cip"
    "unat (of_nat (sector mod unat ps) :: u32) = sector mod unat ps"
    by (simp_all add: unat_of_nat)
  show "0 < (of_nat cip :: u32)" using c u(1) by (simp add: word_less_nat_alt)
  show "unat (of_nat (sector mod unat ps) :: u32) + unat (of_nat cip :: u32) \<le> unat ps"
    using b by (simp only: u)
qed

lemma spi_load_read_nand_loop_Some:
  assumes "spi_load_read_nand_loop cfg count sector remain buf s = Some (r, s')"
    and "remain \<le> count"
  shows "(r = 0 \<or> r = count) \<and>
     (\<exists>evs data. outline (trace s') = outline (trace s) @ evs
        \<and> (\<forall>e \<in> set evs. within_page (SPL_SPINAND_PAGE_SIZE cfg) e)
        \<and> mem s' = store_bytes buf data (mem s)
        \<and> length data = bytes_read evs \<and> length data \<le> remain
        \<and> (r = count \<longrightarrow> length data = remain))
     \<and> (\<exists>used. input s = used @ input s')"
  using assms
proof (induction cfg count sector remain buf s rule: spi_load_read_nand_loop.induct)
  case (1 cfg count sector remain buf s)
  let ?ps = "SPL_SPINAND_PAGE_SIZE cfg"
  let ?page = "of_nat (sector div unat ?ps) :: u32"
  let ?col = "of_nat (sector mod unat ?ps) :: u32"
  show ?case
  proof (cases "remain = 0")
    case True
    with "1.prems"(1) have "r = count" "s' = s"
      by (simp_all add: spi_load_read_nand_loop.simps [of cfg count sector 0 buf s])
    then show ?thesis
      using True by (auto intro!: exI [of _ "[]"])
  next
    case False
    note unf = spi_load_read_nand_loop.simps [of cfg count sector remain buf s]
    from "1.prems"(1) False have ps: "?ps \<noteq> 0"
      by (auto simp: unf split: if_splits)
    define cip where "cip = min remain (unat ?ps - sector mod unat ?ps)"
    note b = count_in_page_bounds [OF False ps, of sector, folded cip_def]
    from "1.prems"(1) False ps obtain r1 s1 where
      sw: "spi0_nand_switch_page cfg ?page s = Some (r1, s1)"
      by (auto simp: unf Let_def split: option.splits)
    from spi0_nand_switch_page_Some [OF sw] obtain used1 bufs where
      pb: "\<forall>b \<in> set bufs. take 2 b = [0x0f, 0xc0]" and
      so: "mem s1 = mem s" "input s = used1 @ input s1"
        "outline (trace s1) = outline (trace s) @ Call_spi0_nand_switch_page ?page #
          Call_spi0_xfer (0x13 # be_bytes 3 (unat ?page)) 4 0 # poll_outline bufs"
      by blast
    have cnz: "count \<noteq> 0" using False "1.prems"(2) by auto
    show ?thesis
    proof (cases "r1 = 0")
      case timeout: False
      with "1.prems"(1) False ps sw have res: "r = 0" "s' = s1"
        by (simp_all add: unf Let_def)
      have "outline (trace s') = outline (trace s) @ (Call_spi0_nand_switch_page ?page #
          Call_spi0_xfer (0x13 # be_bytes 3 (unat ?page)) 4 0 # poll_outline bufs)
        \<and> (\<forall>e \<in> set (Call_spi0_nand_switch_page ?page #
          Call_spi0_xfer (0x13 # be_bytes 3 (unat ?page)) 4 0 # poll_outline bufs).
             within_page ?ps e)
        \<and> mem s' = store_bytes buf [] (mem s)
        \<and> length ([] :: u8 list) = bytes_read (Call_spi0_nand_switch_page ?page #
          Call_spi0_xfer (0x13 # be_bytes 3 (unat ?page)) 4 0 # poll_outline bufs)
        \<and> length ([] :: u8 list) \<le> remain \<and> (r = count \<longrightarrow> length ([] :: u8 list) = remain)"
        using so res cnz poll_outline_within [OF pb] by auto
      then show ?thesis
        using res so(2) by blast
    next
      case ok: True
      from "1.prems"(1) False ps sw ok obtain s2 where
        rd: "spi0_read_data cfg buf ?col (of_nat cip) 2 s1 = Some s2" and
        rest: "spi_load_read_nand_loop cfg count (ulong cfg (sector + cip)) (remain - cip)
                 (buf + of_nat cip) s2 = Some (r, s')"
        by (auto simp: unf Let_def cip_def split: option.splits)
      from spi0_read_data_Some [OF rd] obtain d1 used2 where
        ro: "outline (trace s2) = outline (trace s1) @
               Call_spi0_read_data buf ?col (of_nat cip) 2 # read_outline 2 ?col (of_nat cip)"
          "length d1 = cip" "mem s2 = store_bytes buf d1 (mem s1)" "input s1 = used2 @ input s2"
        by (auto simp: b(5))
      have nn: "\<not> r1 \<noteq> 0" using ok by simp
      have le': "remain - cip \<le> count"
        using "1.prems"(2) by simp
      from "1.IH" [OF False ps refl refl refl sw refl nn rd [unfolded cip_def] rest [unfolded cip_def] le' [unfolded cip_def]]
      obtain evs data used3 where
        ih: "r = 0 \<or> r = count"
          "outline (trace s') = outline (trace s2) @ evs"
          "\<forall>e \<in> set evs. within_page ?ps e"
          "mem s' = store_bytes (buf + of_nat cip) data (mem s2)"
          "length data = bytes_read evs" "length data \<le> remain - cip"
          "r = count \<longrightarrow> length data = remain - cip"
          "input s2 = used3 @ input s'"
        unfolding cip_def by blast
      let ?evs = "(Call_spi0_nand_switch_page ?page #
          Call_spi0_xfer (0x13 # be_bytes 3 (unat ?page)) 4 0 # poll_outline bufs)
          @ (Call_spi0_read_data buf ?col (of_nat cip) 2 # read_outline 2 ?col (of_nat cip))
          @ evs"
      have m: "mem s' = store_bytes buf (d1 @ data) (mem s)"
        by (simp only: store_bytes_append ih(4) ro(3) so(1) ro(2))
      have "outline (trace s') = outline (trace s) @ ?evs"
        by (simp add: ih(2) ro(1) so(3))
      moreover have "\<forall>e \<in> set ?evs. within_page ?ps e"
        using ih(3) b(7,8) poll_outline_within [OF pb] read_outline_within [OF b(8)] by auto
      moreover have "length (d1 @ data) = bytes_read ?evs"
        by (simp add: ih(5) ro(2) b(5))
      moreover have "length (d1 @ data) \<le> remain"
        using ih(6) b(2) by (simp add: ro(2))
      moreover have "r = count \<longrightarrow> length (d1 @ data) = remain"
        using ih(7) b(2) by (simp add: ro(2))
      moreover have "input s = (used1 @ used2 @ used3) @ input s'"
        by (simp add: so(2) ro(4) ih(8))
      ultimately show ?thesis
        using ih(1) m by blast
    qed
  qed
qed

lemma spi_load_read_nand_Some:
  assumes "spi_load_read_nand cfg sector count buf s = Some (r, s')"
  shows "(r = 0 \<or> r = count) \<and>
     (\<exists>evs data. outline (trace s') = outline (trace s) @ evs
        \<and> (\<forall>e \<in> set evs. within_page (SPL_SPINAND_PAGE_SIZE cfg) e)
        \<and> mem s' = store_bytes buf data (mem s)
        \<and> length data = bytes_read evs \<and> length data \<le> unat count
        \<and> (r = count \<longrightarrow> length data = unat count))
     \<and> (\<exists>used. input s = used @ input s')"
proof -
  from assms obtain n where
    l: "spi_load_read_nand_loop cfg (unat count) (unat sector) (unat count) buf s = Some (n, s')"
    and r: "r = of_nat n"
    by (auto simp: spi_load_read_nand_def split: option.splits)
  note t = spi_load_read_nand_loop_Some [OF l order_refl]
  from t have n: "n = 0 \<or> n = unat count" by blast
  then have r1: "r = 0 \<or> r = count" using r by auto
  have r2: "r = count \<longrightarrow> n = unat count"
    using n r by (auto simp: unat_eq_zero)
  from t obtain evs data where
    e: "outline (trace s') = outline (trace s) @ evs"
      "\<forall>e \<in> set evs. within_page (SPL_SPINAND_PAGE_SIZE cfg) e"
      "mem s' = store_bytes buf data (mem s)"
      "length data = bytes_read evs" "length data \<le> unat count"
      "n = unat count \<longrightarrow> length data = unat count"
    by blast
  have "\<exists>evs data. outline (trace s') = outline (trace s) @ evs
        \<and> (\<forall>e \<in> set evs. within_page (SPL_SPINAND_PAGE_SIZE cfg) e)
        \<and> mem s' = store_bytes buf data (mem s)
        \<and> length data = bytes_read evs \<and> length data \<le> unat count
        \<and> (r = count \<longrightarrow> length data = unat count)"
    using e r2 by blast
  then show ?thesis using r1 t by blast
qed

lemma switch_page_ready:
  assumes "page_switch_statuses cfg page (Suc (length busy)) s = Some (busy @ [ready], s')"
    and "length busy < 100" "\<forall>st \<in> set busy. st AND 1 \<noteq> 0" "ready AND 1 = 0"
  shows "spi0_nand_switch_page cfg page s = Some (0, s')"
proof -
  from assms(1) obtain rx s1 where
    x: "spi0_xfer cfg [0x13, ucast (drop_bit 16 page), ucast (drop_bit 8 page), ucast page] 4 0
          (emit (Call_spi0_nand_switch_page page) s) = Some (rx, s1)" and
    p: "nand_status_polls cfg (Suc (length busy)) [0x0f, 0xc0, ucast (drop_bit 8 page), ucast page] s1
          = Some (busy @ [ready], s')"
    by (auto simp: page_switch_statuses_def split: option.splits)
  have "spi0_nand_wait_loop cfg 0 [0x0f, 0xc0, ucast (drop_bit 8 page), ucast page] s1 = Some (0, s')"
    by (rule nand_wait_ready [OF p refl assms(3,4)]) (use assms(2) in simp)
  then show ?thesis
    using x by (simp add: spi0_nand_switch_page_def Let_def)
qed

lemma switch_page_timeout:
  assumes "page_switch_statuses cfg page 100 s = Some (sts, s')"
    and "\<forall>st \<in> set sts. st AND 1 \<noteq> 0"
  shows "spi0_nand_switch_page cfg page s = Some (- ETIMEDOUT, s')"
proof -
  from assms(1) obtain rx s1 where
    x: "spi0_xfer cfg [0x13, ucast (drop_bit 16 page), ucast (drop_bit 8 page), ucast page] 4 0
          (emit (Call_spi0_nand_switch_page page) s) = Some (rx, s1)" and
    p: "nand_status_polls cfg 100 [0x0f, 0xc0, ucast (drop_bit 8 page), ucast page] s1
          = Some (sts, s')"
    by (auto simp: page_switch_statuses_def split: option.splits)
  have "spi0_nand_wait_loop cfg 0 [0x0f, 0xc0, ucast (drop_bit 8 page), ucast page] s1
          = Some (- ETIMEDOUT, s')"
    by (rule nand_wait_timeout [OF p assms(2)]) simp
  then show ?thesis
    using x by (simp add: spi0_nand_switch_page_def Let_def)
qed


lemma switch_page_ready_prompt:
  assumes "input s = prompt_switch (busy @ [ready]) @ rest"
    and "length busy < 100" "\<forall>st \<in> set busy. st AND 1 \<noteq> 0" "ready AND 1 = 0"
  shows "\<exists>s'. spi0_nand_switch_page cfg page s = Some (0, s') \<and> input s' = rest \<and> mem s' = mem s"
proof -
  from page_switch_statuses_prompt [OF assms(1), of cfg page] obtain s' where
    p: "page_switch_statuses cfg page (Suc (length busy)) s = Some (busy @ [ready], s')"
      "input s' = rest" "mem s' = mem s"
    by auto
  from switch_page_ready [OF p(1) assms(2,3,4)] p(2,3) show ?thesis by blast
qed

lemma switch_page_timeout_prompt:
  assumes "input s = prompt_switch sts @ rest"
    and "length sts = 100" "\<forall>st \<in> set sts. st AND 1 \<noteq> 0"
  shows "\<exists>s'. spi0_nand_switch_page cfg page s = Some (- ETIMEDOUT, s') \<and> input s' = rest
           \<and> mem s' = mem s"
proof -
  from page_switch_statuses_prompt [OF assms(1), of cfg page] assms(2) obtain s' where
    p: "page_switch_statuses cfg page 100 s = Some (sts, s')" "input s' = rest" "mem s' = mem s"
    by auto
  from switch_page_timeout [OF p(1) assms(3)] p(2,3) show ?thesis by blast
qed

lemma nand_loop_continue:
  assumes "remain \<noteq> 0" "SPL_SPINAND_PAGE_SIZE cfg \<noteq> 0"
    and "spi0_nand_switch_page cfg (of_nat (sector div unat (SPL_SPINAND_PAGE_SIZE cfg))) s
           = Some (0, s1)"
  shows "spi_load_read_nand_loop cfg count sector remain buf s =
     (case spi0_read_data cfg buf (of_nat (sector mod unat (SPL_SPINAND_PAGE_SIZE cfg)))
             (of_nat (min remain (unat (SPL_SPINAND_PAGE_SIZE cfg)
                                    - sector mod unat (SPL_SPINAND_PAGE_SIZE cfg)))) 2 s1 of
        None \<Rightarrow> None
      | Some s2 \<Rightarrow>
          spi_load_read_nand_loop cfg count
            (ulong cfg (sector + min remain (unat (SPL_SPINAND_PAGE_SIZE cfg)
                                              - sector mod unat (SPL_SPINAND_PAGE_SIZE cfg))))
            (remain - min remain (unat (SPL_SPINAND_PAGE_SIZE cfg)
                                    - sector mod unat (SPL_SPINAND_PAGE_SIZE cfg)))
            (buf + of_nat (min remain (unat (SPL_SPINAND_PAGE_SIZE cfg)
                                         - sector mod unat (SPL_SPINAND_PAGE_SIZE cfg)))) s2)"
  using assms by (simp add: spi_load_read_nand_loop.simps [of cfg count sector remain buf s] Let_def)

lemma nand_loop_abort:
  assumes "remain \<noteq> 0" "SPL_SPINAND_PAGE_SIZE cfg \<noteq> 0"
    and "spi0_nand_switch_page cfg (of_nat (sector div unat (SPL_SPINAND_PAGE_SIZE cfg))) s
           = Some (r, s1)" "r \<noteq> 0"
  shows "spi_load_read_nand_loop cfg count sector remain buf s = Some (0, s1)"
  using assms by (simp add: spi_load_read_nand_loop.simps [of cfg count sector remain buf s] Let_def)

lemma nand_loop_done: "spi_load_read_nand_loop cfg count sector 0 buf s = Some (count, s)"
  by (simp add: spi_load_read_nand_loop.simps [of cfg count sector 0 buf s])

lemma nand_read_abort:
  fixes sector count :: u32
  assumes "count \<noteq> 0" "SPL_SPINAND_PAGE_SIZE cfg \<noteq> 0"
    and "spi0_nand_switch_page cfg (sector div SPL_SPINAND_PAGE_SIZE cfg) s = Some (r, s1)" "r \<noteq> 0"
  shows "spi_load_read_nand cfg sector count buf s = Some (0, s1)"
proof -
  have c: "unat count \<noteq> 0" using assms(1) by (simp add: unat_eq_zero)
  have p: "(of_nat (unat sector div unat (SPL_SPINAND_PAGE_SIZE cfg)) :: u32)
             = sector div SPL_SPINAND_PAGE_SIZE cfg"
    by (simp add: unat_div [symmetric])
  show ?thesis
    by (simp add: spi_load_read_nand_def nand_loop_abort [OF c assms(2) assms(3) [folded p] assms(4)])
qed

declare prompt_nand.simps [simp del]

lemma spi_load_read_nand_loop_prompt:
  assumes "input s = prompt_nand cfg sector data @ rest"
    and "length data = remain" "SPL_SPINAND_PAGE_SIZE cfg \<noteq> 0"
  shows "\<exists>s'. spi_load_read_nand_loop cfg count sector remain buf s = Some (count, s')
           \<and> input s' = rest \<and> mem s' = store_bytes buf data (mem s)"
  using assms
proof (induction cfg count sector remain buf s arbitrary: data
        rule: spi_load_read_nand_loop.induct)
  case (1 cfg count sector remain buf s)
  let ?ps = "SPL_SPINAND_PAGE_SIZE cfg"
  let ?page = "of_nat (sector div unat ?ps) :: u32"
  let ?col = "of_nat (sector mod unat ?ps) :: u32"
  show ?case
  proof (cases "remain = 0")
    case True
    then have "data = []" using "1.prems"(2) by simp
    then show ?thesis
      using True "1.prems"(1) by (simp add: nand_loop_done prompt_nand.simps [of cfg sector "[]"])
  next
    case False
    define cip where "cip = min remain (unat ?ps - sector mod unat ?ps)"
    note b = count_in_page_bounds [OF False "1.prems"(3), of sector, folded cip_def]
    have ne: "data \<noteq> []" using False "1.prems"(2) by auto
    have n_cip: "min (length data) (unat ?ps - sector mod unat ?ps) = cip"
      by (simp add: cip_def "1.prems"(2))
    have inp: "input s = prompt_switch ([] @ [0]) @ (prompt_read (take cip data)
        @ (prompt_nand cfg (ulong cfg (sector + cip)) (drop cip data) @ rest))"
      using "1.prems"(1,3) ne
      by (simp add: prompt_nand.simps [of cfg sector data] Let_def n_cip)
    from switch_page_ready_prompt [OF inp, of cfg ?page] obtain s1 where
      sw: "spi0_nand_switch_page cfg ?page s = Some (0, s1)"
        "input s1 = prompt_read (take cip data)
           @ (prompt_nand cfg (ulong cfg (sector + cip)) (drop cip data) @ rest)"
        "mem s1 = mem s"
      by auto
    have lt: "length (take cip data) = unat (of_nat cip :: u32)"
      using b(2) "1.prems"(2) by (simp add: b(5))
    from spi0_read_data_prompt [OF sw(2) lt, of cfg buf ?col 2] obtain s2 where
      rd: "spi0_read_data cfg buf ?col (of_nat cip) 2 s1 = Some s2"
        "input s2 = prompt_nand cfg (ulong cfg (sector + cip)) (drop cip data) @ rest"
        "mem s2 = store_bytes buf (take cip data) (mem s1)"
      by auto
    have ld: "length (drop cip data) = remain - cip"
      using "1.prems"(2) by simp
    have nn: "\<not> (0 :: int) \<noteq> 0" by simp
    from "1.IH" [OF False "1.prems"(3) refl refl refl sw(1) refl nn rd(1) [unfolded cip_def]
        rd(2) [unfolded cip_def] ld [unfolded cip_def] "1.prems"(3)]
    obtain s' where
      r: "spi_load_read_nand_loop cfg count (ulong cfg (sector + cip)) (remain - cip)
            (buf + of_nat cip) s2 = Some (count, s')"
        "input s' = rest" "mem s' = store_bytes (buf + of_nat cip) (drop cip data) (mem s2)"
      unfolding cip_def by blast
    have lt': "length (take cip data) = cip"
      using b(2) "1.prems"(2) by simp
    have "store_bytes buf (take cip data @ drop cip data) (mem s)
        = store_bytes (buf + of_nat cip) (drop cip data) (store_bytes buf (take cip data) (mem s))"
      by (simp only: store_bytes_append lt')
    then have m: "mem s' = store_bytes buf data (mem s)"
      by (simp add: r(3) rd(3) sw(3))
    have "spi_load_read_nand_loop cfg count sector remain buf s = Some (count, s')"
      using rd(1) r(1)
      by (simp add: nand_loop_continue [OF False "1.prems"(3) sw(1)] flip: cip_def)
    then show ?thesis using r(2) m by blast
  qed
qed

lemma spi_load_read_nand_prompt:
  assumes "input s = prompt_nand cfg (unat sector) data @ rest"
    and "length data = unat count" "SPL_SPINAND_PAGE_SIZE cfg \<noteq> 0"
  shows "\<exists>s'. spi_load_read_nand cfg sector count buf s = Some (count, s')
           \<and> input s' = rest \<and> mem s' = store_bytes buf data (mem s)"
  using spi_load_read_nand_loop_prompt [OF assms, of "unat count" buf]
  by (auto simp: spi_load_read_nand_def)

lemma be_bytes_decode_acc:
  "foldl (\<lambda>acc b. 256 * acc + unat b) acc (be_bytes n x) = acc * 256 ^ n + x mod 256 ^ n"
proof (induction n arbitrary: acc)
  case 0
  then show ?case by simp
next
  case (Suc n)
  have u: "unat (of_nat (x div 256 ^ n) :: u8) = (x div 256 ^ n) mod 256"
    by (simp add: unat_of_nat)
  have m: "x mod (256 ^ n * 256) = x mod 256 ^ n + 256 ^ n * ((x div 256 ^ n) mod 256)"
    by (simp add: mod_mult2_eq)
  have "foldl (\<lambda>acc b. 256 * acc + unat b) acc (be_bytes (Suc n) x)
      = foldl (\<lambda>acc b. 256 * acc + unat b) (256 * acc + (x div 256 ^ n) mod 256) (be_bytes n x)"
    by (simp add: u)
  also have "\<dots> = (256 * acc + (x div 256 ^ n) mod 256) * 256 ^ n + x mod 256 ^ n"
    by (rule Suc.IH)
  also have "\<dots> = acc * 256 ^ Suc n + x mod 256 ^ Suc n"
    using m by (simp add: algebra_simps)
  finally show ?case .
qed

lemma be_bytes_decode: "foldl (\<lambda>acc b. 256 * acc + unat b) 0 (be_bytes n x) = x mod 256 ^ n"
  using be_bytes_decode_acc [of 0 n x] by simp

lemma mod_div_shift: "0 < a \<Longrightarrow> (x :: nat) mod (a * b) div a = x div a mod b"
  by (simp add: mod_mult2_eq)

lemma be_bytes_3_of_nat: "be_bytes 3 (unat (of_nat x :: u32)) = be_bytes 3 x"
proof -
  have u: "unat (of_nat x :: u32) = x mod 2 ^ 32" by (simp add: unat_of_nat)
  have a1: "x mod 2 ^ 32 div 65536 mod 256 = x div 65536 mod 256"
    using mod_div_shift [of 65536 x 65536] by (simp add: mod_mod_cancel)
  have a2: "x mod 2 ^ 32 div 256 mod 256 = x div 256 mod 256"
    using mod_div_shift [of 256 x 16777216] by (simp add: mod_mod_cancel)
  have a3: "x mod 2 ^ 32 mod 256 = x mod 256"
    by (simp add: mod_mod_cancel)
  have a: "(of_nat (x mod 2 ^ 32 div 65536) :: u8) = of_nat (x div 65536)"
    "(of_nat (x mod 2 ^ 32 div 256) :: u8) = of_nat (x div 256)"
    "(of_nat (x mod 2 ^ 32) :: u8) = of_nat x"
    using a1 a2 a3 by (simp_all add: word_unat_eq_iff unat_of_nat)
  show ?thesis
    by (simp only: u be_bytes_3 a)
qed

lemma nand_loop_first_cycle:
  assumes "spi_load_read_nand_loop cfg count sector remain buf s = Some (r, s')"
    and "remain \<noteq> 0" "remain \<le> count"
  shows "\<exists>bufs rest. outline (trace s') = outline (trace s) @
       Call_spi0_nand_switch_page (of_nat (sector div unat (SPL_SPINAND_PAGE_SIZE cfg))) #
       Call_spi0_xfer (0x13 # be_bytes 3 (sector div unat (SPL_SPINAND_PAGE_SIZE cfg))) 4 0 #
       poll_outline bufs @ rest
     \<and> (\<forall>b \<in> set bufs. take 2 b = [0x0f, 0xc0])
     \<and> (rest = [] \<or> (\<exists>tail. rest =
           Call_spi0_read_data buf (of_nat (sector mod unat (SPL_SPINAND_PAGE_SIZE cfg)))
             (of_nat (min remain (unat (SPL_SPINAND_PAGE_SIZE cfg)
                                    - sector mod unat (SPL_SPINAND_PAGE_SIZE cfg)))) 2 #
           read_outline 2 (of_nat (sector mod unat (SPL_SPINAND_PAGE_SIZE cfg)))
             (of_nat (min remain (unat (SPL_SPINAND_PAGE_SIZE cfg)
                                    - sector mod unat (SPL_SPINAND_PAGE_SIZE cfg)))) @ tail))"
proof -
  let ?ps = "SPL_SPINAND_PAGE_SIZE cfg"
  let ?cip = "min remain (unat ?ps - sector mod unat ?ps)"
  let ?page = "of_nat (sector div unat ?ps) :: u32"
  let ?col = "of_nat (sector mod unat ?ps) :: u32"
  note unf = spi_load_read_nand_loop.simps [of cfg count sector remain buf s]
  from assms(1,2) have ps: "?ps \<noteq> 0"
    by (auto simp: unf split: if_splits)
  from assms(1,2) ps obtain r1 s1 where
    sw: "spi0_nand_switch_page cfg ?page s = Some (r1, s1)"
    by (auto simp: unf Let_def split: option.splits)
  have pg: "be_bytes 3 (unat ?page) = be_bytes 3 (sector div unat ?ps)"
    by (rule be_bytes_3_of_nat)
  from spi0_nand_switch_page_Some [OF sw] obtain bufs where
    pb: "\<forall>b \<in> set bufs. take 2 b = [0x0f, 0xc0]" and
    so: "outline (trace s1) = outline (trace s) @ Call_spi0_nand_switch_page ?page #
          Call_spi0_xfer (0x13 # be_bytes 3 (sector div unat ?ps)) 4 0 # poll_outline bufs"
    unfolding pg by blast
  show ?thesis
  proof (cases "r1 = 0")
    case False
    then have "s' = s1" using nand_loop_abort [OF assms(2) ps sw False, of count buf] assms(1)
      by simp
    then show ?thesis using so pb by (intro exI [of _ bufs] exI [of _ "[]"]) simp
  next
    case True
    note c = nand_loop_continue [OF assms(2) ps sw [unfolded True], of count buf]
    from assms(1) c obtain s2 where
      rd: "spi0_read_data cfg buf ?col (of_nat ?cip) 2 s1 = Some s2" and
      rest: "spi_load_read_nand_loop cfg count (ulong cfg (sector + ?cip)) (remain - ?cip)
               (buf + of_nat ?cip) s2 = Some (r, s')"
      by (auto split: option.splits)
    have le: "remain - ?cip \<le> count"
      using assms(3) by simp
    from spi_load_read_nand_loop_Some [OF rest le] obtain evs where
      e: "outline (trace s') = outline (trace s2) @ evs" by blast
    have ro: "outline (trace s2) = outline (trace s1) @
               Call_spi0_read_data buf ?col (of_nat ?cip) 2 # read_outline 2 ?col (of_nat ?cip)"
      by (rule spi0_read_data_Some(1) [OF rd]) simp
    show ?thesis
      using so pb e ro
      by (intro exI [of _ bufs] exI [of _ "Call_spi0_read_data buf ?col (of_nat ?cip) 2 #
             read_outline 2 ?col (of_nat ?cip) @ evs"]) simp
  qed
qed

declare nand_cycles.simps [simp del]

lemma page_ops_switch:
  assumes "spi0_nand_switch_page cfg page s = Some (r, s')"
  shows "page_ops (trace s') = page_ops (trace s) @ [Call_spi0_nand_switch_page page]"
proof -
  from spi0_nand_switch_page_Some [OF assms] obtain bufs where
    "outline (trace s') = outline (trace s) @ Call_spi0_nand_switch_page page #
          Call_spi0_xfer (0x13 # be_bytes 3 (unat page)) 4 0 # poll_outline bufs"
    by blast
  then have "page_ops (outline (trace s')) = page_ops (outline (trace s) @ Call_spi0_nand_switch_page page #
          Call_spi0_xfer (0x13 # be_bytes 3 (unat page)) 4 0 # poll_outline bufs)"
    by simp
  then show ?thesis by simp
qed

lemma page_ops_read:
  assumes "spi0_read_data cfg buf addr len addr_len s = Some s'" "addr_len = 3 \<or> addr_len = 2"
  shows "page_ops (trace s') = page_ops (trace s) @ [Call_spi0_read_data buf addr len addr_len]"
proof -
  from spi0_read_data_Some(1) [OF assms]
  have "page_ops (outline (trace s')) = page_ops (outline (trace s) @
      Call_spi0_read_data buf addr len addr_len # read_outline addr_len addr len)"
    by simp
  then show ?thesis by simp
qed

lemma ulong_small: "n < 2 ^ 32 \<Longrightarrow> ulong cfg n = n"
proof -
  assume a: "n < 2 ^ 32"
  have "(2 :: nat) ^ 32 \<le> 2 ^ 64" by simp
  with a have "n < 2 ^ 64" by linarith
  with a show ?thesis by (simp add: ulong_def ulong_bits_def)
qed

lemma nand_loop_page_ops:
  "spi_load_read_nand_loop cfg count sector remain buf s = Some (r, s') \<Longrightarrow> r \<noteq> 0 \<Longrightarrow>
     page_ops (trace s') = page_ops (trace s) @ nand_cycles cfg sector remain buf"
proof (induction cfg count sector remain buf s rule: spi_load_read_nand_loop.induct)
  case (1 cfg count sector remain buf s)
  let ?ps = "SPL_SPINAND_PAGE_SIZE cfg"
  let ?page = "of_nat (sector div unat ?ps) :: u32"
  let ?col = "of_nat (sector mod unat ?ps) :: u32"
  note unf = spi_load_read_nand_loop.simps [of cfg count sector remain buf s]
  show ?case
  proof (cases "remain = 0")
    case True
    with "1.prems"(1) show ?thesis
      by (simp add: nand_loop_done nand_cycles.simps [of cfg sector 0 buf])
  next
    case False
    from "1.prems"(1) False have ps: "?ps \<noteq> 0" by (auto simp: unf split: if_splits)
    define cip where "cip = min remain (unat ?ps - sector mod unat ?ps)"
    from "1.prems"(1) False ps obtain r1 s1 where
      sw: "spi0_nand_switch_page cfg ?page s = Some (r1, s1)"
      by (auto simp: unf Let_def split: option.splits)
    have r1: "r1 = 0"
    proof (rule ccontr)
      assume "r1 \<noteq> 0"
      from nand_loop_abort [OF False ps sw this, of count buf] "1.prems" show False by simp
    qed
    from "1.prems"(1) False ps sw r1 obtain s2 where
      rd: "spi0_read_data cfg buf ?col (of_nat cip) 2 s1 = Some s2" and
      rest: "spi_load_read_nand_loop cfg count (ulong cfg (sector + cip)) (remain - cip)
               (buf + of_nat cip) s2 = Some (r, s')"
      by (auto simp: unf Let_def cip_def split: option.splits)
    have nn: "\<not> r1 \<noteq> 0" using r1 by simp
    note ih = "1.IH" [OF False ps refl refl refl sw refl nn rd [unfolded cip_def]
        rest [unfolded cip_def] "1.prems"(2), folded cip_def]
    have "nand_cycles cfg sector remain buf =
        Call_spi0_nand_switch_page ?page # Call_spi0_read_data buf ?col (of_nat cip) 2 #
        nand_cycles cfg (ulong cfg (sector + cip)) (remain - cip) (buf + of_nat cip)"
      using False ps by (simp add: nand_cycles.simps [of cfg sector remain buf] Let_def cip_def)
    then show ?thesis
      using ih page_ops_switch [OF sw] page_ops_read [OF rd] by simp
  qed
qed

lemma nand_read_page_ops:
  assumes "spi_load_read_nand cfg sector count buf s = Some (r, s')" "r \<noteq> 0"
  shows "page_ops (trace s') = page_ops (trace s) @ nand_cycles cfg (unat sector) (unat count) buf"
proof -
  from assms obtain n where
    l: "spi_load_read_nand_loop cfg (unat count) (unat sector) (unat count) buf s = Some (n, s')"
    and r: "r = of_nat n"
    by (auto simp: spi_load_read_nand_def split: option.splits)
  have "n \<noteq> 0" using r assms(2) by (cases "n = 0") auto
  from nand_loop_page_ops [OF l this] show ?thesis .
qed

lemma nand_cycles_0 [simp]: "nand_cycles cfg sector 0 buf = []"
  by (simp add: nand_cycles.simps [of cfg sector 0 buf])

lemma nand_cycles_2000_200:
  assumes "SPL_SPINAND_PAGE_SIZE cfg = 2048"
  shows "nand_cycles cfg 2000 200 buf =
     [Call_spi0_nand_switch_page 0, Call_spi0_read_data buf 2000 48 2,
      Call_spi0_nand_switch_page 1, Call_spi0_read_data (buf + 48) 0 152 2]"
proof -
  have u: "ulong cfg 2048 = 2048" by (rule ulong_small) simp
  have u2: "ulong cfg 2200 = 2200" by (rule ulong_small) simp
  have 2: "nand_cycles cfg 2048 152 b =
      [Call_spi0_nand_switch_page 1, Call_spi0_read_data b 0 152 2]" for b
    by (simp add: nand_cycles.simps [of cfg 2048 152 b] assms Let_def u2)
  show ?thesis
    by (simp add: nand_cycles.simps [of cfg 2000 200 buf] assms Let_def u 2)
qed

lemma nand_cycles_wrap64:
  "nand_cycles wit_cfg64 0xFFFFFFFF 2 buf =
     [Call_spi0_nand_switch_page 0x1FFFFF, Call_spi0_read_data buf 2047 1 2,
      Call_spi0_nand_switch_page 0x200000, Call_spi0_read_data (buf + 1) 0 1 2]"
proof -
  have ps: "SPL_SPINAND_PAGE_SIZE wit_cfg64 = 2048" by (simp add: wit_cfg64_def)
  have u: "ulong wit_cfg64 4294967296 = 4294967296" "ulong wit_cfg64 4294967297 = 4294967297"
    by (simp_all add: ulong_def ulong_bits_def wit_cfg64_def)
  have 2: "nand_cycles wit_cfg64 4294967296 (Suc 0) b =
      [Call_spi0_nand_switch_page 0x200000, Call_spi0_read_data b 0 1 2]" for b
    by (simp add: nand_cycles.simps [of wit_cfg64 4294967296 "Suc 0" b] ps Let_def u)
  show ?thesis
    by (simp add: nand_cycles.simps [of wit_cfg64 4294967295 2 buf] ps Let_def u 2)
qed

lemma nand_cycles_wrap32:
  "nand_cycles wit_cfg 0xFFFFFFFF 2 buf =
     [Call_spi0_nand_switch_page 0x1FFFFF, Call_spi0_read_data buf 2047 1 2,
      Call_spi0_nand_switch_page 0, Call_spi0_read_data (buf + 1) 0 1 2]"
proof -
  have ps: "SPL_SPINAND_PAGE_SIZE wit_cfg = 2048" by (simp add: wit_cfg_def)
  have u: "ulong wit_cfg 4294967296 = 0" "ulong wit_cfg 1 = 1"
    by (simp_all add: ulong_def ulong_bits_def wit_cfg_def)
  have 2: "nand_cycles wit_cfg 0 (Suc 0) b =
      [Call_spi0_nand_switch_page 0, Call_spi0_read_data b 0 1 2]" for b
    by (simp add: nand_cycles.simps [of wit_cfg 0 "Suc 0" b] ps Let_def u)
  show ?thesis
    by (simp add: nand_cycles.simps [of wit_cfg 4294967295 2 buf] ps Let_def u 2)
qed

lemma nand_partway_timeout:
  fixes sector count remain c :: nat and buf :: u32
  assumes c_def: "c = min remain (unat (SPL_SPINAND_PAGE_SIZE cfg)
                                    - sector mod unat (SPL_SPINAND_PAGE_SIZE cfg))"
    and ps: "SPL_SPINAND_PAGE_SIZE cfg \<noteq> 0" and rnz: "remain \<noteq> 0" and more: "remain - c \<noteq> 0"
    and sw1: "spi0_nand_switch_page cfg (of_nat (sector div unat (SPL_SPINAND_PAGE_SIZE cfg))) s
                = Some (0, s1)"
    and rd: "spi0_read_data cfg buf (of_nat (sector mod unat (SPL_SPINAND_PAGE_SIZE cfg)))
                (of_nat c) 2 s1 = Some s2"
    and sw2: "spi0_nand_switch_page cfg
                (of_nat (ulong cfg (sector + c) div unat (SPL_SPINAND_PAGE_SIZE cfg))) s2
                = Some (r3, s3)"
    and r3: "r3 \<noteq> 0"
  shows "spi_load_read_nand_loop cfg count sector remain buf s = Some (0, s3) \<and> mem s3 = mem s2
     \<and> 0 < c \<and> (\<exists>data. length data = c \<and> mem s3 = store_bytes buf data (mem s))"
proof -
  note b = count_in_page_bounds [OF rnz ps, of sector, folded c_def]
  have "spi_load_read_nand_loop cfg count sector remain buf s =
      spi_load_read_nand_loop cfg count (ulong cfg (sector + c)) (remain - c) (buf + of_nat c) s2"
    by (simp add: nand_loop_continue [OF rnz ps sw1] rd [unfolded c_def] c_def)
  also have "\<dots> = Some (0, s3)"
    by (rule nand_loop_abort [OF more ps sw2 r3])
  finally have a: "spi_load_read_nand_loop cfg count sector remain buf s = Some (0, s3)" .
  have m3: "mem s3 = mem s2" using spi0_nand_switch_page_Some [OF sw2] by blast
  have m1: "mem s1 = mem s" using spi0_nand_switch_page_Some [OF sw1] by blast
  from spi0_read_data_Some(2) [OF rd] obtain data where
    "length data = c" "mem s2 = store_bytes buf data (mem s1)" by (auto simp: b(5))
  then have "\<exists>data. length data = c \<and> mem s3 = store_bytes buf data (mem s)"
    using m1 m3 by auto
  then show ?thesis using a m3 b(1) by blast
qed

lemma EINVAL_nonzero: "- EINVAL \<noteq> 0"
  by (simp add: EINVAL_def)

lemma try_load_header_zero:
  assumes "load_read offset 0x40 (TEXT_BASE cfg) s = Some (0, s1)"
  shows "spl_spi_try_load cfg ext spl_image bootdev load_read offset allow_raw s
           = Some (- EINVAL, spl_image, s1)"
  using assms by (simp add: spl_spi_try_load_def)

lemma nand_read_of_loop:
  assumes "spi_load_read_nand_loop cfg (unat count) (unat sector) (unat count) buf s = Some (n, s')"
  shows "spi_load_read_nand cfg sector count buf s = Some (of_nat n, s')"
  using assms by (simp add: spi_load_read_nand_def)

lemma length_be_bytes [simp]: "length (be_bytes n x) = n"
  by (induction n) simp_all

lemma chunk_count_small: "0 < l \<Longrightarrow> l \<le> 60 \<Longrightarrow> chunk_count l = 1"
  by (simp add: chunk_count_def word_less_nat_alt word_le_nat_alt)

lemma pinmux_input_mem [simp]:
  "input (spi0_pinmux_setup cfg pf s) = input s" "mem (spi0_pinmux_setup cfg pf s) = mem s"
  by (simp_all add: spi0_pinmux_setup_def Let_def sunxi_gpio_set_cfgpin_def)

lemma wait_srst_ready:
  "input s = 0 # rest \<Longrightarrow> wait_srst reg s = Some (emit (Readl reg 0) (s\<lparr>input := rest\<rparr>))"
  by (simp add: wait_srst.simps [of reg s] readl_def)

lemma spi0_enable_clock_prompt:
  assumes "input s = prompt_init cfg @ rest"
  shows "\<exists>s1. spi0_enable_clock cfg s = Some s1 \<and> input s1 = rest \<and> mem s1 = mem s"
proof (cases "is_sun6i_gen_spi cfg")
  case True
  then have "input s = 0 # rest" using assms by (simp add: prompt_init_def)
  then show ?thesis
    using True
    by (cases "MACH_SUNIV cfg"; cases "SUN50I_GEN_H6 cfg"; cases "SUNXI_GEN_NCAT2 cfg")
       (simp_all add: spi0_enable_clock_def Let_def setbits_le32_def writel_def
          wait_srst_ready [where rest = rest])
next
  case False
  then show ?thesis
    using assms
    by (simp add: spi0_enable_clock_def Let_def prompt_init_def setbits_le32_def writel_def)
qed

lemma spi0_init_prompt:
  assumes "input s = prompt_init cfg @ rest"
  shows "\<exists>s1. spi0_init cfg s = Some s1 \<and> input s1 = rest \<and> mem s1 = mem s"
proof -
  have "\<exists>s1. spi0_enable_clock cfg (spi0_pinmux_setup cfg pf s) = Some s1 \<and> input s1 = rest
           \<and> mem s1 = mem (spi0_pinmux_setup cfg pf s)" for pf
    by (rule spi0_enable_clock_prompt) (simp add: assms)
  then show ?thesis
    by (simp add: spi0_init_def Let_def)
qed

lemma spi0_nand_reset_prompt:
  assumes "input s = prompt_xfer 1 [] @ rest"
  shows "\<exists>s1. spi0_nand_reset cfg s = Some s1 \<and> input s1 = rest \<and> mem s1 = mem s"
proof -
  have "\<exists>s'. spi0_xfer cfg [0xff] 1 0 s = Some ([], s') \<and> input s' = rest \<and> mem s' = mem s"
    by (rule spi0_xfer_prompt) (simp_all add: assms)
  then show ?thesis
    by (auto simp: spi0_nand_reset_def udelay_def)
qed

lemma load_image_nand:
  assumes "spi0_init cfg s = Some s1" "spi0_nand_reset cfg s1 = Some s2"
    and "spl_spi_try_load cfg ext spl_image BOOT_DEVICE_SPINAND (spi_load_read_nand cfg)
           (load_offset cfg ext) False s2 = Some (ret, spl_image', s3)"
  shows "spl_spi_load_image cfg ext spl_image BOOT_DEVICE_SPINAND s
           = Some (ret, spl_image', spi0_deinit cfg s3)"
  using assms by (simp add: spl_spi_load_image_def load_offset_def Let_def)

lemma load_image_nor:
  assumes "spi0_init cfg s = Some s1"
    and "spl_spi_try_load cfg ext spl_image BOOT_DEVICE_SPI (spi_load_read_nor cfg)
           (load_offset cfg ext) True s1 = Some (ret, spl_image', s3)"
  shows "spl_spi_load_image cfg ext spl_image BOOT_DEVICE_SPI s
           = Some (ret, spl_image', spi0_deinit cfg s3)"
  using assms by (simp add: spl_spi_load_image_def load_offset_def Let_def)

lemma load_image_Some:
  assumes "spl_spi_load_image cfg ext spl_image bootdev s = Some (ret, spl_image', s')"
  shows "\<exists>s1 s2 s3. spi0_init cfg s = Some s1
     \<and> (case bootdev of
          BOOT_DEVICE_SPINAND \<Rightarrow> spi0_nand_reset cfg s1 = Some s2
            \<and> spl_spi_try_load cfg ext spl_image bootdev (spi_load_read_nand cfg)
                 (load_offset cfg ext) False s2 = Some (ret, spl_image', s3)
        | BOOT_DEVICE_SPI \<Rightarrow> s2 = s1
            \<and> spl_spi_try_load cfg ext spl_image bootdev (spi_load_read_nor cfg)
                 (load_offset cfg ext) True s2 = Some (ret, spl_image', s3))
     \<and> s' = spi0_deinit cfg s3"
  using assms
  by (cases bootdev)
     (auto simp: spl_spi_load_image_def load_offset_def Let_def split: option.splits)

lemma wait_fifo_no_input: "input s = [] \<Longrightarrow> wait_fifo reg want s = None"
  by (simp add: wait_fifo.simps [of reg want s] readl_def)

lemma spi0_xfer_no_input:
  assumes "input s = []"
  shows "spi0_xfer cfg txbuf txlen rxlen s = None"
  using assms
  by (simp add: spi0_xfer_def sunxi_spi0_xfer_def Let_def wait_fifo_no_input fold_writeb
      writel_def setbits_le32_def)

lemma nand_read_no_input:
  assumes "input s = []" "count \<noteq> 0" "SPL_SPINAND_PAGE_SIZE cfg \<noteq> 0"
  shows "spi_load_read_nand cfg sector count buf s = None"
proof -
  have c: "unat count \<noteq> 0" using assms(2) by (simp add: unat_eq_zero)
  show ?thesis
    using assms c
    by (simp add: spi_load_read_nand_def
        spi_load_read_nand_loop.simps [of cfg "unat count" "unat sector" "unat count" buf s]
        Let_def spi0_nand_switch_page_def spi0_xfer_no_input)
qed

lemma try_load_Some_header:
  assumes "spl_spi_try_load cfg ext spl_image bootdev load_read offset allow_raw s
             = Some (ret, spl_image', s')"
  shows "\<exists>n s1. load_read offset 0x40 (TEXT_BASE cfg) s = Some (n, s1)"
  using assms by (auto simp: spl_spi_try_load_def Let_def split: option.splits)

lemma nand_read_nonzero:
  assumes "spi_load_read_nand cfg sector count buf s = Some (n, s')" "n \<noteq> 0"
  shows "n = count \<and> (\<exists>data. length data = unat count \<and> mem s' = store_bytes buf data (mem s))"
  using spi_load_read_nand_Some [OF assms(1)] assms(2) by auto

lemma nor_read_Some:
  assumes "spi_load_read_nor cfg sector count buf s = Some (n, s')"
  shows "n = count \<and> (\<exists>data. length data = unat count \<and> mem s' = store_bytes buf data (mem s))"
proof -
  from assms have n: "n = count" and r: "spi0_read_data cfg buf sector count 3 s = Some s'"
    by (auto simp: spi_load_read_nor_def split: option.splits)
  from spi0_read_data_Some(2) [OF r] n show ?thesis by simp
qed

lemma image_get_magic_mem:
  "mem s = m \<Longrightarrow> image_get_magic h s = image_get_magic h \<lparr>trace = [], input = [], mem = m\<rparr>"
  by (simp add: image_get_magic_def)

lemma magic_legacy_header:
  "image_get_magic 0x4A000000
     \<lparr>trace = [], input = [], mem = store_bytes 0x4A000000 legacy_header (\<lambda>a. 0)\<rparr> = 0x27051956"
  by code_simp

lemma magic_fit_header:
  "image_get_magic 0x4A000000
     \<lparr>trace = [], input = [], mem = store_bytes 0x4A000000 fit_header (\<lambda>a. 0)\<rparr> = 0xD00DFEED"
  by code_simp

lemma magic_raw_header:
  "image_get_magic 0x4A000000
     \<lparr>trace = [], input = [], mem = store_bytes 0x4A000000 raw_header (\<lambda>a. 0)\<rparr> = 0xABABABAB"
  by code_simp

lemma header_lengths [simp]:
  "length legacy_header = 64" "length fit_header = 64" "length raw_header = 64"
  by (simp_all add: legacy_header_def fit_header_def raw_header_def)

lemma try_load_fit:
  assumes "load_read offset 0x40 (TEXT_BASE cfg) s = Some (n, s1)" "n \<noteq> 0"
    and "SPL_LOAD_FIT cfg" "image_get_magic (TEXT_BASE cfg) s1 = FDT_MAGIC ext"
  shows "spl_spi_try_load cfg ext spl_image bootdev load_read offset allow_raw s
           = spl_load_simple_fit ext spl_image load_read offset (TEXT_BASE cfg) s1"
  using assms by (auto simp: spl_spi_try_load_def Let_def)

lemma try_load_reject:
  assumes "load_read offset 0x40 (TEXT_BASE cfg) s = Some (n, s1)" "n \<noteq> 0"
    and "\<not> (SPL_LOAD_FIT cfg \<and> image_get_magic (TEXT_BASE cfg) s1 = FDT_MAGIC ext)"
    and "\<not> allow_raw" "image_get_magic (TEXT_BASE cfg) s1 \<noteq> IH_MAGIC ext"
  shows "spl_spi_try_load cfg ext spl_image bootdev load_read offset allow_raw s
           = Some (- EINVAL, spl_image, s1)"
  using assms by (auto simp: spl_spi_try_load_def Let_def)

lemma try_load_legacy:
  assumes "load_read offset 0x40 (TEXT_BASE cfg) s = Some (n, s1)" "n \<noteq> 0"
    and "\<not> (SPL_LOAD_FIT cfg \<and> image_get_magic (TEXT_BASE cfg) s1 = FDT_MAGIC ext)"
    and "allow_raw \<or> image_get_magic (TEXT_BASE cfg) s1 = IH_MAGIC ext"
    and "spl_parse_image_header ext spl_image bootdev (TEXT_BASE cfg) s1 = (ret, spl_image', s2)"
  shows "spl_spi_try_load cfg ext spl_image bootdev load_read offset allow_raw s =
     (if ret \<noteq> 0 then Some (ret, spl_image', s2)
      else case load_read offset (size' spl_image') (load_addr spl_image') s2 of
             None \<Rightarrow> None
           | Some (n', s3) \<Rightarrow> Some (if n' = 0 then - EINVAL else 0, spl_image', s3))"
  using assms by (auto simp: spl_spi_try_load_def Let_def split: option.splits)

text \<open>A NOR boot of a legacy image with a four-byte payload, on a device that answers at once.\<close>

lemma nor_legacy_boot:
  fixes s :: hw
  assumes "input s = prompt_init wit_cfg @ prompt_read legacy_header @ prompt_read [1, 2, 3, 4]"
    and "mem s = (\<lambda>a. 0)"
  shows "\<exists>s1 s2 s3. spi0_init wit_cfg s = Some s1
      \<and> spi_load_read_nor wit_cfg 0x8000 0x40 0x4A000000 s1 = Some (0x40, s2)
      \<and> image_get_magic 0x4A000000 s2 = 0x27051956
      \<and> spi_load_read_nor wit_cfg 0x8000 4 0x42000000 s2 = Some (4, s3)
      \<and> input s3 = []
      \<and> spl_spi_try_load wit_cfg wit_ext wit_img BOOT_DEVICE_SPI (spi_load_read_nor wit_cfg)
           0x8000 True s1 = Some (0, \<lparr>size' = 4, load_addr = 0x42000000\<rparr>, s3)
      \<and> spl_spi_load_image wit_cfg wit_ext wit_img BOOT_DEVICE_SPI s
           = Some (0, \<lparr>size' = 4, load_addr = 0x42000000\<rparr>, spi0_deinit wit_cfg s3)"
proof -
  have tb: "TEXT_BASE wit_cfg = 0x4A000000" by (simp add: wit_cfg_def)
  have off: "load_offset wit_cfg wit_ext = 0x8000"
    by (simp add: load_offset_def wit_ext_def wit_cfg_def)
  from spi0_init_prompt [OF assms(1)] obtain s1 where
    s1: "spi0_init wit_cfg s = Some s1"
      "input s1 = prompt_read legacy_header @ prompt_read [1, 2, 3, 4]" "mem s1 = mem s"
    by blast
  have l: "length legacy_header = unat (0x40 :: u32)" by simp
  from spi0_read_data_prompt [OF s1(2) l, of wit_cfg "0x4A000000" "0x8000" 3] obtain s2 where
    s2: "spi0_read_data wit_cfg 0x4A000000 0x8000 0x40 3 s1 = Some s2"
      "input s2 = prompt_read [1, 2, 3, 4]"
      "mem s2 = store_bytes 0x4A000000 legacy_header (mem s1)"
    by blast
  have r2: "spi_load_read_nor wit_cfg 0x8000 0x40 0x4A000000 s1 = Some (0x40, s2)"
    by (simp add: spi_load_read_nor_def s2(1))
  have m2: "mem s2 = store_bytes 0x4A000000 legacy_header (\<lambda>a. 0)"
    by (simp only: s2(3) s1(3) assms(2))
  have mg: "image_get_magic 0x4A000000 s2 = 0x27051956"
    by (simp only: image_get_magic_mem [OF m2] magic_legacy_header)
  have i2: "input s2 = prompt_read [1, 2, 3, 4] @ []" by (simp add: s2(2))
  have l4: "length [1, 2, 3, 4 :: u8] = unat (4 :: u32)" by simp
  from spi0_read_data_prompt [OF i2 l4, of wit_cfg "0x42000000" "0x8000" 3] obtain s3 where
    s3: "spi0_read_data wit_cfg 0x42000000 0x8000 4 3 s2 = Some s3" "input s3 = []"
    by blast
  have r3: "spi_load_read_nor wit_cfg 0x8000 4 0x42000000 s2 = Some (4, s3)"
    by (simp add: spi_load_read_nor_def s3(1))
  have p: "spl_parse_image_header wit_ext wit_img BOOT_DEVICE_SPI (TEXT_BASE wit_cfg) s2
             = (0, \<lparr>size' = 4, load_addr = 0x42000000\<rparr>, s2)"
    by (simp add: wit_ext_def wit_img_def)
  have t: "spl_spi_try_load wit_cfg wit_ext wit_img BOOT_DEVICE_SPI (spi_load_read_nor wit_cfg)
           0x8000 True s1 = Some (0, \<lparr>size' = 4, load_addr = 0x42000000\<rparr>, s3)"
    using try_load_legacy [where cfg = wit_cfg and ext = wit_ext and load_read = "spi_load_read_nor wit_cfg"
        and offset = "0x8000" and s = s1 and n = "0x40" and ?s1.0 = s2 and allow_raw = True,
        OF _ _ _ _ p]
    by (simp add: tb r2 mg r3 wit_ext_def)
  have "spl_spi_load_image wit_cfg wit_ext wit_img BOOT_DEVICE_SPI s
           = Some (0, \<lparr>size' = 4, load_addr = 0x42000000\<rparr>, spi0_deinit wit_cfg s3)"
    by (rule load_image_nor [OF s1(1)]) (simp add: off t)
  then show ?thesis
    using s1(1) r2 mg r3 s3(2) t by blast
qed

lemma nor_read_prompt:
  assumes "input s = prompt_read data @ rest" "length data = unat count"
  shows "\<exists>s1. spi_load_read_nor cfg sector count buf s = Some (count, s1) \<and> input s1 = rest
           \<and> mem s1 = store_bytes buf data (mem s)"
  using spi0_read_data_prompt [OF assms, of cfg buf sector 3]
  by (auto simp: spi_load_read_nor_def)

lemma wit_ext_simps:
  "FDT_MAGIC wit_ext = 0xD00DFEED" "IH_MAGIC wit_ext = 0x27051956"
  "sunxi_get_spl_size wit_ext = 0x6000"
  "spl_load_simple_fit wit_ext img load_read offset header s
     = Some (0, img\<lparr>size' := 0x100, load_addr := 0x40000000\<rparr>, s)"
  "spl_parse_image_header wit_ext img bootdev header s
     = (0, img\<lparr>size' := 4, load_addr := 0x42000000\<rparr>, s)"
  by (simp_all add: wit_ext_def)

lemma wit_cfg_simps:
  "TEXT_BASE wit_cfg = 0x4A000000" "SPL_SPINAND_PAGE_SIZE wit_cfg = 2048" "SPL_LOAD_FIT wit_cfg"
  "SYS_SPI_U_BOOT_OFFS wit_cfg = 0x8000"
  "TEXT_BASE wit_cfg_nofit = 0x4A000000" "SPL_SPINAND_PAGE_SIZE wit_cfg_nofit = 2048"
  "\<not> SPL_LOAD_FIT wit_cfg_nofit"
  by (simp_all add: wit_cfg_def wit_cfg_nofit_def)

text \<open>
  Four loads on a device that answers at once: a legacy image from NAND, an image without
  a known magic from NOR, a structured image from NOR in a build without structured-image
  support, and an image without a known magic from NAND.
\<close>

lemma nand_legacy_load:
  fixes s :: hw
  assumes "input s = prompt_nand wit_cfg 0x8000 legacy_header @ prompt_nand wit_cfg 0x8000 [1, 2, 3, 4]"
    and "mem s = (\<lambda>a. 0)"
  shows "\<exists>s1 s3. spi_load_read_nand wit_cfg 0x8000 0x40 0x4A000000 s = Some (0x40, s1)
      \<and> image_get_magic 0x4A000000 s1 = 0x27051956
      \<and> spi_load_read_nand wit_cfg 0x8000 4 0x42000000 s1 = Some (4, s3)
      \<and> spl_spi_try_load wit_cfg wit_ext wit_img BOOT_DEVICE_SPINAND (spi_load_read_nand wit_cfg)
           0x8000 False s = Some (0, \<lparr>size' = 4, load_addr = 0x42000000\<rparr>, s3)"
proof -
  note [simp] = wit_cfg_simps wit_ext_simps
  have ps: "SPL_SPINAND_PAGE_SIZE wit_cfg \<noteq> 0" by simp
  have i: "input s = prompt_nand wit_cfg (unat (0x8000 :: u32)) legacy_header
             @ prompt_nand wit_cfg 0x8000 [1, 2, 3, 4]"
    by (simp add: assms(1))
  have l: "length legacy_header = unat (0x40 :: u32)" by simp
  from spi_load_read_nand_prompt [OF i l ps, where buf = "0x4A000000"] obtain s1 where
    s1: "spi_load_read_nand wit_cfg 0x8000 0x40 0x4A000000 s = Some (0x40, s1)"
      "input s1 = prompt_nand wit_cfg 0x8000 [1, 2, 3, 4]"
      "mem s1 = store_bytes 0x4A000000 legacy_header (mem s)"
    by blast
  have m1: "mem s1 = store_bytes 0x4A000000 legacy_header (\<lambda>a. 0)"
    by (simp only: s1(3) assms(2))
  have mg: "image_get_magic 0x4A000000 s1 = 0x27051956"
    by (simp only: image_get_magic_mem [OF m1] magic_legacy_header)
  have i1: "input s1 = prompt_nand wit_cfg (unat (0x8000 :: u32)) [1, 2, 3, 4] @ []"
    by (simp add: s1(2))
  have l4: "length [1, 2, 3, 4 :: u8] = unat (4 :: u32)" by simp
  from spi_load_read_nand_prompt [OF i1 l4 ps, where buf = "0x42000000"] obtain s3 where
    s3: "spi_load_read_nand wit_cfg 0x8000 4 0x42000000 s1 = Some (4, s3)"
    by blast
  have "spl_spi_try_load wit_cfg wit_ext wit_img BOOT_DEVICE_SPINAND (spi_load_read_nand wit_cfg)
           0x8000 False s = Some (0, \<lparr>size' = 4, load_addr = 0x42000000\<rparr>, s3)"
    using try_load_legacy [where cfg = wit_cfg and ext = wit_ext
        and load_read = "spi_load_read_nand wit_cfg" and offset = "0x8000" and s = s
        and n = "0x40" and ?s1.0 = s1 and allow_raw = False and spl_image = wit_img
        and bootdev = BOOT_DEVICE_SPINAND and ret = 0
        and spl_image' = "\<lparr>size' = 4, load_addr = 0x42000000\<rparr>" and ?s2.0 = s1]
    by (simp add: s1(1) mg s3 wit_img_def)
  then show ?thesis using s1(1) mg s3 by blast
qed

lemma nor_raw_load:
  fixes s :: hw
  assumes "input s = prompt_read raw_header @ prompt_read [1, 2, 3, 4]"
    and "mem s = (\<lambda>a. 0)"
  shows "\<exists>s1 s3. spi_load_read_nor wit_cfg 0x8000 0x40 0x4A000000 s = Some (0x40, s1)
      \<and> image_get_magic 0x4A000000 s1 = 0xABABABAB
      \<and> spi_load_read_nor wit_cfg 0x8000 4 0x42000000 s1 = Some (4, s3)
      \<and> spl_spi_try_load wit_cfg wit_ext wit_img BOOT_DEVICE_SPI (spi_load_read_nor wit_cfg)
           0x8000 True s = Some (0, \<lparr>size' = 4, load_addr = 0x42000000\<rparr>, s3)"
proof -
  note [simp] = wit_cfg_simps wit_ext_simps
  have l: "length raw_header = unat (0x40 :: u32)" by simp
  from nor_read_prompt [OF assms(1) l, of wit_cfg "0x8000" "0x4A000000"] obtain s1 where
    s1: "spi_load_read_nor wit_cfg 0x8000 0x40 0x4A000000 s = Some (0x40, s1)"
      "input s1 = prompt_read [1, 2, 3, 4]"
      "mem s1 = store_bytes 0x4A000000 raw_header (mem s)"
    by blast
  have m1: "mem s1 = store_bytes 0x4A000000 raw_header (\<lambda>a. 0)"
    by (simp only: s1(3) assms(2))
  have mg: "image_get_magic 0x4A000000 s1 = 0xABABABAB"
    by (simp only: image_get_magic_mem [OF m1] magic_raw_header)
  have i1: "input s1 = prompt_read [1, 2, 3, 4] @ []" by (simp add: s1(2))
  have l4: "length [1, 2, 3, 4 :: u8] = unat (4 :: u32)" by simp
  from nor_read_prompt [OF i1 l4, of wit_cfg "0x8000" "0x42000000"] obtain s3 where
    s3: "spi_load_read_nor wit_cfg 0x8000 4 0x42000000 s1 = Some (4, s3)"
    by blast
  have "spl_spi_try_load wit_cfg wit_ext wit_img BOOT_DEVICE_SPI (spi_load_read_nor wit_cfg)
           0x8000 True s = Some (0, \<lparr>size' = 4, load_addr = 0x42000000\<rparr>, s3)"
    using try_load_legacy [where cfg = wit_cfg and ext = wit_ext
        and load_read = "spi_load_read_nor wit_cfg" and offset = "0x8000" and s = s
        and n = "0x40" and ?s1.0 = s1 and allow_raw = True and spl_image = wit_img
        and bootdev = BOOT_DEVICE_SPI and ret = 0
        and spl_image' = "\<lparr>size' = 4, load_addr = 0x42000000\<rparr>" and ?s2.0 = s1]
    by (simp add: s1(1) mg s3 wit_img_def)
  then show ?thesis using s1(1) mg s3 by blast
qed

lemma nor_fit_load:
  fixes s :: hw
  assumes "input s = prompt_read fit_header @ rest" and "mem s = (\<lambda>a. 0)"
  shows "\<exists>s1. spi_load_read_nor wit_cfg 0x8000 0x40 0x4A000000 s = Some (0x40, s1)
      \<and> image_get_magic 0x4A000000 s1 = 0xD00DFEED
      \<and> spl_spi_try_load wit_cfg wit_ext wit_img BOOT_DEVICE_SPI (spi_load_read_nor wit_cfg)
           0x8000 True s = Some (0, \<lparr>size' = 0x100, load_addr = 0x40000000\<rparr>, s1)"
proof -
  note [simp] = wit_cfg_simps wit_ext_simps
  have l: "length fit_header = unat (0x40 :: u32)" by simp
  from nor_read_prompt [OF assms(1) l, of wit_cfg "0x8000" "0x4A000000"] obtain s1 where
    s1: "spi_load_read_nor wit_cfg 0x8000 0x40 0x4A000000 s = Some (0x40, s1)"
      "mem s1 = store_bytes 0x4A000000 fit_header (mem s)"
    by blast
  have m1: "mem s1 = store_bytes 0x4A000000 fit_header (\<lambda>a. 0)"
    by (simp only: s1(2) assms(2))
  have mg: "image_get_magic 0x4A000000 s1 = 0xD00DFEED"
    by (simp only: image_get_magic_mem [OF m1] magic_fit_header)
  have "spl_spi_try_load wit_cfg wit_ext wit_img BOOT_DEVICE_SPI (spi_load_read_nor wit_cfg)
           0x8000 True s = Some (0, \<lparr>size' = 0x100, load_addr = 0x40000000\<rparr>, s1)"
    using try_load_fit [where cfg = wit_cfg and ext = wit_ext
        and load_read = "spi_load_read_nor wit_cfg" and offset = "0x8000" and s = s
        and n = "0x40" and ?s1.0 = s1 and allow_raw = True and spl_image = wit_img
        and bootdev = BOOT_DEVICE_SPI]
    by (simp add: s1(1) mg wit_img_def)
  then show ?thesis using s1(1) mg by blast
qed

lemma nor_fit_load_nofit:
  fixes s :: hw
  assumes "input s = prompt_read fit_header @ prompt_read [1, 2, 3, 4]"
    and "mem s = (\<lambda>a. 0)"
  shows "\<exists>s1 s3. spi_load_read_nor wit_cfg_nofit 0x8000 0x40 0x4A000000 s = Some (0x40, s1)
      \<and> image_get_magic 0x4A000000 s1 = 0xD00DFEED
      \<and> spi_load_read_nor wit_cfg_nofit 0x8000 4 0x42000000 s1 = Some (4, s3)
      \<and> spl_spi_try_load wit_cfg_nofit wit_ext wit_img BOOT_DEVICE_SPI
           (spi_load_read_nor wit_cfg_nofit) 0x8000 True s
           = Some (0, \<lparr>size' = 4, load_addr = 0x42000000\<rparr>, s3)"
proof -
  note [simp] = wit_cfg_simps wit_ext_simps
  have l: "length fit_header = unat (0x40 :: u32)" by simp
  from nor_read_prompt [OF assms(1) l, of wit_cfg_nofit "0x8000" "0x4A000000"] obtain s1 where
    s1: "spi_load_read_nor wit_cfg_nofit 0x8000 0x40 0x4A000000 s = Some (0x40, s1)"
      "input s1 = prompt_read [1, 2, 3, 4]"
      "mem s1 = store_bytes 0x4A000000 fit_header (mem s)"
    by blast
  have m1: "mem s1 = store_bytes 0x4A000000 fit_header (\<lambda>a. 0)"
    by (simp only: s1(3) assms(2))
  have mg: "image_get_magic 0x4A000000 s1 = 0xD00DFEED"
    by (simp only: image_get_magic_mem [OF m1] magic_fit_header)
  have i1: "input s1 = prompt_read [1, 2, 3, 4] @ []" by (simp add: s1(2))
  have l4: "length [1, 2, 3, 4 :: u8] = unat (4 :: u32)" by simp
  from nor_read_prompt [OF i1 l4, of wit_cfg_nofit "0x8000" "0x42000000"] obtain s3 where
    s3: "spi_load_read_nor wit_cfg_nofit 0x8000 4 0x42000000 s1 = Some (4, s3)"
    by blast
  have "spl_spi_try_load wit_cfg_nofit wit_ext wit_img BOOT_DEVICE_SPI
           (spi_load_read_nor wit_cfg_nofit) 0x8000 True s
           = Some (0, \<lparr>size' = 4, load_addr = 0x42000000\<rparr>, s3)"
    using try_load_legacy [where cfg = wit_cfg_nofit and ext = wit_ext
        and load_read = "spi_load_read_nor wit_cfg_nofit" and offset = "0x8000" and s = s
        and n = "0x40" and ?s1.0 = s1 and allow_raw = True and spl_image = wit_img
        and bootdev = BOOT_DEVICE_SPI and ret = 0
        and spl_image' = "\<lparr>size' = 4, load_addr = 0x42000000\<rparr>" and ?s2.0 = s1]
    by (simp add: s1(1) mg s3 wit_img_def)
  then show ?thesis using s1(1) mg s3 by blast
qed

lemma nand_raw_load:
  fixes s :: hw
  assumes "input s = prompt_nand wit_cfg 0x8000 raw_header @ rest" and "mem s = (\<lambda>a. 0)"
  shows "\<exists>s1. spi_load_read_nand wit_cfg 0x8000 0x40 0x4A000000 s = Some (0x40, s1)
      \<and> image_get_magic 0x4A000000 s1 = 0xABABABAB
      \<and> spl_spi_try_load wit_cfg wit_ext wit_img BOOT_DEVICE_SPINAND (spi_load_read_nand wit_cfg)
           0x8000 False s = Some (- EINVAL, wit_img, s1)"
proof -
  note [simp] = wit_cfg_simps wit_ext_simps
  have ps: "SPL_SPINAND_PAGE_SIZE wit_cfg \<noteq> 0" by simp
  have i: "input s = prompt_nand wit_cfg (unat (0x8000 :: u32)) raw_header @ rest"
    by (simp add: assms(1))
  have l: "length raw_header = unat (0x40 :: u32)" by simp
  from spi_load_read_nand_prompt [OF i l ps, where buf = "0x4A000000"] obtain s1 where
    s1: "spi_load_read_nand wit_cfg 0x8000 0x40 0x4A000000 s = Some (0x40, s1)"
      "mem s1 = store_bytes 0x4A000000 raw_header (mem s)"
    by blast
  have m1: "mem s1 = store_bytes 0x4A000000 raw_header (\<lambda>a. 0)"
    by (simp only: s1(2) assms(2))
  have mg: "image_get_magic 0x4A000000 s1 = 0xABABABAB"
    by (simp only: image_get_magic_mem [OF m1] magic_raw_header)
  have "spl_spi_try_load wit_cfg wit_ext wit_img BOOT_DEVICE_SPINAND (spi_load_read_nand wit_cfg)
           0x8000 False s = Some (- EINVAL, wit_img, s1)"
    using try_load_reject [where cfg = wit_cfg and ext = wit_ext
        and load_read = "spi_load_read_nand wit_cfg" and offset = "0x8000" and s = s
        and n = "0x40" and ?s1.0 = s1 and allow_raw = False and spl_image = wit_img
        and bootdev = BOOT_DEVICE_SPINAND]
    by (simp add: s1(1) mg)
  then show ?thesis using s1(1) mg by blast
qed

lemma clrbits_of_simps [simp]:
  "clrbits_of [] = []" "clrbits_of (xs @ ys) = clrbits_of xs @ clrbits_of ys"
  "clrbits_of (e # es) = (if is_clrbits e then e # clrbits_of es else clrbits_of es)"
  by (simp_all add: clrbits_of_def)

lemma clrbits_of_map [simp]:
  "clrbits_of (map (Readl a) vs) = []" "clrbits_of (map (Readb a) bs) = []"
  "clrbits_of (map (\<lambda>b. Writeb b a) bs) = []"
  "clrbits_of (map (\<lambda>v. Readb a (ucast v)) vs) = []"
  by (simp_all add: clrbits_of_def filter_map o_def)

lemma clrbits_of_transfer_steps [simp]:
  "clrbits_of (transfer_steps bc tc bcc tx ctl xch fifo rx txb txlen rxlen polls echo data) = []"
  by (simp add: transfer_steps_def split: option.splits)

lemma spi0_xfer_quiet:
  assumes "spi0_xfer cfg txbuf txlen rxlen s = Some (rx, s')"
  shows "clrbits_of (trace s') = clrbits_of (trace s)"
  using spi0_xfer_trace [OF assms] by (auto simp: Let_def split: if_splits)

lemma wait_srst_quiet:
  "wait_srst reg s = Some s' \<Longrightarrow> clrbits_of (trace s') = clrbits_of (trace s)"
proof (induction reg s rule: wait_srst.induct)
  case (1 reg s)
  from "1.prems" obtain v s1 where rd: "readl reg s = Some (v, s1)"
    by (auto simp: wait_srst.simps [of reg s] split: option.splits)
  then have t: "clrbits_of (trace s1) = clrbits_of (trace s)"
    by (auto simp: readl_Some)
  show ?case
  proof (cases "v AND SUN6I_CTL_SRST \<noteq> 0")
    case True
    with "1.prems" rd have "wait_srst reg s1 = Some s'"
      by (simp add: wait_srst.simps [of reg s])
    from "1.IH" [OF rd refl True this] t show ?thesis by simp
  next
    case False
    with "1.prems" rd have "s' = s1" by (simp add: wait_srst.simps [of reg s])
    then show ?thesis using t by simp
  qed
qed

lemma spi0_nand_wait_loop_quiet:
  "spi0_nand_wait_loop cfg count buf s = Some (r, s') \<Longrightarrow>
     clrbits_of (trace s') = clrbits_of (trace s)"
proof (induction cfg count buf s rule: spi0_nand_wait_loop.induct)
  case (1 cfg count buf s)
  note unf = spi0_nand_wait_loop.simps [of cfg count buf s]
  show ?case
  proof (cases "count < 100")
    case False
    with "1.prems" show ?thesis by (simp add: unf)
  next
    case True
    from "1.prems" True obtain rx s1 where x: "spi0_xfer cfg buf 2 1 (udelay 1 s) = Some (rx, s1)"
      by (auto simp: unf split: option.splits)
    from spi0_xfer_quiet [OF x] have t: "clrbits_of (trace s1) = clrbits_of (trace s)"
      by (simp add: udelay_def)
    show ?thesis
    proof (cases "(store_at 2 rx buf ! 2) AND 0x1 = 0")
      case ready: True
      with "1.prems" True x have "s' = s1" by (simp add: unf Let_def)
      then show ?thesis using t by simp
    next
      case busy: False
      with "1.prems" True x have
        "spi0_nand_wait_loop cfg (Suc count) (store_at 2 rx buf) s1 = Some (r, s')"
        by (simp add: unf Let_def)
      from "1.IH" [OF True x refl refl busy this] t show ?thesis by simp
    qed
  qed
qed

lemma spi0_nand_switch_page_quiet:
  assumes "spi0_nand_switch_page cfg page s = Some (r, s')"
  shows "clrbits_of (trace s') = clrbits_of (trace s)"
proof -
  from assms obtain rx s1 where
    x: "spi0_xfer cfg [0x13, ucast (drop_bit 16 page), ucast (drop_bit 8 page), ucast page] 4 0
          (emit (Call_spi0_nand_switch_page page) s) = Some (rx, s1)"
    and w: "spi0_nand_wait_loop cfg 0
          ([0x13, ucast (drop_bit 16 page), ucast (drop_bit 8 page), ucast page][0 := 0x0f, 1 := 0xc0])
          s1 = Some (r, s')"
    by (auto simp: spi0_nand_switch_page_def Let_def split: option.splits)
  from spi0_xfer_quiet [OF x] spi0_nand_wait_loop_quiet [OF w] show ?thesis by simp
qed

lemma spi0_nand_reset_quiet:
  assumes "spi0_nand_reset cfg s = Some s'"
  shows "clrbits_of (trace s') = clrbits_of (trace s)"
proof -
  from assms obtain rx s1 where x: "spi0_xfer cfg [0xff] 1 0 s = Some (rx, s1)"
    and s': "s' = udelay 10 s1"
    by (auto simp: spi0_nand_reset_def split: option.splits)
  from spi0_xfer_quiet [OF x] s' show ?thesis by (simp add: udelay_def)
qed

lemma spi0_read_data_loop_quiet:
  "spi0_read_data_loop cfg txbuf buf8 addr len addr_len s = Some s' \<Longrightarrow>
     clrbits_of (trace s') = clrbits_of (trace s)"
proof (induction cfg txbuf buf8 addr len addr_len s rule: spi0_read_data_loop.induct)
  case (1 cfg txbuf buf8 addr len addr_len s)
  note unf = spi0_read_data_loop.simps [of cfg txbuf buf8 addr len addr_len s]
  show ?case
  proof (cases "0 < len")
    case False
    with "1.prems" show ?thesis by (simp add: unf)
  next
    case True
    define c where "c = (if SPI_READ_MAX_SIZE < len then SPI_READ_MAX_SIZE else len)"
    from "1.prems" True obtain rx s1 where
      x: "spi0_xfer cfg (read_cmd txbuf addr addr_len) 4 c s = Some (rx, s1)"
      and rest: "spi0_read_data_loop cfg (read_cmd txbuf addr addr_len) (buf8 + c) (addr + c)
                  (len - c) addr_len (udelay 1 (s1\<lparr>mem := store_bytes buf8 rx (mem s1)\<rparr>)) = Some s'"
      by (auto simp: unf Let_def c_def split: option.splits)
    from "1.IH" [OF True c_def refl x refl rest] spi0_xfer_quiet [OF x]
    show ?thesis by (simp add: udelay_def)
  qed
qed

lemma spi0_read_data_quiet:
  assumes "spi0_read_data cfg buf addr len addr_len s = Some s'"
  shows "clrbits_of (trace s') = clrbits_of (trace s)"
  using spi0_read_data_loop_quiet [OF assms [unfolded spi0_read_data_def]] by simp

lemma spi_load_read_nor_quiet:
  assumes "spi_load_read_nor cfg sector count buf s = Some (n, s')"
  shows "clrbits_of (trace s') = clrbits_of (trace s)"
  using assms by (auto simp: spi_load_read_nor_def spi0_read_data_quiet split: option.splits)

lemma spi_load_read_nand_loop_quiet:
  "spi_load_read_nand_loop cfg count sector remain buf s = Some (n, s') \<Longrightarrow>
     clrbits_of (trace s') = clrbits_of (trace s)"
proof (induction cfg count sector remain buf s rule: spi_load_read_nand_loop.induct)
  case (1 cfg count sector remain buf s)
  let ?ps = "SPL_SPINAND_PAGE_SIZE cfg"
  let ?page = "of_nat (sector div unat ?ps) :: u32"
  let ?col = "of_nat (sector mod unat ?ps) :: u32"
  note unf = spi_load_read_nand_loop.simps [of cfg count sector remain buf s]
  show ?case
  proof (cases "remain = 0")
    case True
    with "1.prems" show ?thesis by (simp add: nand_loop_done)
  next
    case False
    from "1.prems" False have ps: "?ps \<noteq> 0" by (auto simp: unf split: if_splits)
    from "1.prems" False ps obtain r1 s1 where
      sw: "spi0_nand_switch_page cfg ?page s = Some (r1, s1)"
      by (auto simp: unf Let_def split: option.splits)
    note q1 = spi0_nand_switch_page_quiet [OF sw]
    show ?thesis
    proof (cases "r1 = 0")
      case timeout: False
      from nand_loop_abort [OF False ps sw timeout, of count buf] "1.prems" have "s' = s1" by simp
      then show ?thesis using q1 by simp
    next
      case True
      define cip where "cip = min remain (unat ?ps - sector mod unat ?ps)"
      from "1.prems" False ps sw True obtain s2 where
        rd: "spi0_read_data cfg buf ?col (of_nat cip) 2 s1 = Some s2" and
        rest: "spi_load_read_nand_loop cfg count (ulong cfg (sector + cip)) (remain - cip)
                 (buf + of_nat cip) s2 = Some (n, s')"
        by (auto simp: unf Let_def cip_def split: option.splits)
      have nn: "\<not> r1 \<noteq> 0" using True by simp
      from "1.IH" [OF False ps refl refl refl sw refl nn rd [unfolded cip_def] rest [unfolded cip_def]]
        spi0_read_data_quiet [OF rd] q1
      show ?thesis by simp
    qed
  qed
qed

lemma spi_load_read_nand_quiet:
  assumes "spi_load_read_nand cfg sector count buf s = Some (n, s')"
  shows "clrbits_of (trace s') = clrbits_of (trace s)"
proof -
  from assms obtain m where
    "spi_load_read_nand_loop cfg (unat count) (unat sector) (unat count) buf s = Some (m, s')"
    by (auto simp: spi_load_read_nand_def split: option.splits)
  then show ?thesis by (rule spi_load_read_nand_loop_quiet)
qed

lemma emit_trace_append:
  "trace (emit e s) = trace s @ [e]"
  by (simp add: emit_def)

lemma pinmux_quiet [simp]:
  "clrbits_of (trace (spi0_pinmux_setup cfg pf s)) = clrbits_of (trace s)"
  by (simp add: spi0_pinmux_setup_def Let_def sunxi_gpio_set_cfgpin_def)

lemma pinmux_trace:
  "trace (spi0_pinmux_setup cfg pf s)
     = trace s @ trace (spi0_pinmux_setup cfg pf \<lparr>trace = [], input = i, mem = m\<rparr>)"
  by (simp add: spi0_pinmux_setup_def Let_def sunxi_gpio_set_cfgpin_def)

lemma disable_clock_trace:
  "trace (spi0_disable_clock cfg s)
     = trace s @ trace (spi0_disable_clock cfg \<lparr>trace = [], input = i, mem = m\<rparr>)"
  by (simp add: spi0_disable_clock_def Let_def clrbits_le32_def writel_def)

lemma disable_clock_input_mem [simp]:
  "input (spi0_disable_clock cfg s) = input s" "mem (spi0_disable_clock cfg s) = mem s"
  by (simp_all add: spi0_disable_clock_def Let_def clrbits_le32_def writel_def)

lemma spi0_deinit_trace:
  "trace (spi0_deinit cfg s) = trace s @ teardown_events cfg"
proof -
  let ?e = "\<lparr>trace = [], input = [], mem = (\<lambda>a. 0)\<rparr> :: hw"
  have "trace (spi0_pinmux_setup cfg pf (spi0_disable_clock cfg s))
      = trace s @ trace (spi0_pinmux_setup cfg pf (spi0_disable_clock cfg ?e))" for pf
    by (simp add: pinmux_trace [of cfg pf "spi0_disable_clock cfg s" "[]" "\<lambda>a. 0"]
        pinmux_trace [of cfg pf "spi0_disable_clock cfg ?e" "[]" "\<lambda>a. 0"]
        disable_clock_trace [of cfg s "[]" "\<lambda>a. 0"])
  then show ?thesis
    by (simp add: spi0_deinit_def teardown_events_def Let_def)
qed

lemma spi0_deinit_input_mem [simp]:
  "input (spi0_deinit cfg s) = input s" "mem (spi0_deinit cfg s) = mem s"
  by (simp_all add: spi0_deinit_def Let_def)

lemma is_clrbits_controller_disable [simp]: "is_clrbits (controller_disable cfg)"
  by (simp add: controller_disable_def)

lemma not_clrbits_neq: "\<not> is_clrbits e \<Longrightarrow> e \<noteq> controller_disable cfg"
  by auto

lemma count_pinmux:
  "count_list (trace (spi0_pinmux_setup cfg pf s)) (controller_disable c)
     = count_list (trace s) (controller_disable c)"
  by (simp add: spi0_pinmux_setup_def Let_def sunxi_gpio_set_cfgpin_def not_clrbits_neq)

lemma teardown_events_disable:
  "count_list (teardown_events cfg) (controller_disable cfg) = 1"
  "teardown_events cfg \<noteq> []" "hd (teardown_events cfg) = controller_disable cfg"
proof -
  let ?e = "\<lparr>trace = [], input = [], mem = (\<lambda>a. 0)\<rparr> :: hw"
  have t: "trace (spi0_pinmux_setup cfg pf (spi0_disable_clock cfg ?e))
      = trace (spi0_disable_clock cfg ?e) @ trace (spi0_pinmux_setup cfg pf ?e)" for pf
    by (rule pinmux_trace)
  have d: "\<exists>tl. trace (spi0_disable_clock cfg ?e) = controller_disable cfg # tl
             \<and> count_list tl (controller_disable cfg) = 0"
    by (simp add: spi0_disable_clock_def Let_def clrbits_le32_def writel_def
        controller_disable_def reg_defs AHB_GATE_OFFSET_SPI0_def AHB_RESET_SPI0_SHIFT_def)
  have p: "count_list (trace (spi0_pinmux_setup cfg pf ?e)) (controller_disable cfg) = 0" for pf
    by (simp add: count_pinmux)
  from d obtain tl where tl: "trace (spi0_disable_clock cfg ?e) = controller_disable cfg # tl"
    "count_list tl (controller_disable cfg) = 0" by blast
  show "count_list (teardown_events cfg) (controller_disable cfg) = 1"
    by (simp add: teardown_events_def spi0_deinit_def Let_def t tl p)
  show "teardown_events cfg \<noteq> []"
    by (simp add: teardown_events_def spi0_deinit_def Let_def t tl)
  show "hd (teardown_events cfg) = controller_disable cfg"
    by (simp add: teardown_events_def spi0_deinit_def Let_def t tl)
qed

lemma count_clrbits_of:
  "is_clrbits x \<Longrightarrow> count_list (clrbits_of tr) x = count_list tr x"
  by (induction tr) auto

lemma spi0_enable_clock_quiet:
  assumes "spi0_enable_clock cfg s = Some s1"
  shows "clrbits_of (trace s1) = clrbits_of (trace s)"
proof (cases "is_sun6i_gen_spi cfg")
  case True
  show ?thesis
    using assms True
    by (cases "MACH_SUNIV cfg"; cases "SUN50I_GEN_H6 cfg"; cases "SUNXI_GEN_NCAT2 cfg")
       (auto simp: spi0_enable_clock_def Let_def setbits_le32_def writel_def
          split: option.splits dest!: wait_srst_quiet)
next
  case False
  then show ?thesis
    using assms
    by (auto simp: spi0_enable_clock_def Let_def setbits_le32_def writel_def)
qed

lemma spi0_init_quiet:
  assumes "spi0_init cfg s = Some s1"
  shows "clrbits_of (trace s1) = clrbits_of (trace s)"
  using spi0_enable_clock_quiet [OF assms [unfolded spi0_init_def Let_def]] by simp

lemma try_load_quiet:
  fixes load_read :: load_read
  assumes lr: "\<And>a b c u n u'. load_read a b c u = Some (n, u') \<Longrightarrow>
                 clrbits_of (trace u') = clrbits_of (trace u)"
    and parse: "\<And>img bd hdr t.
        clrbits_of (trace (snd (snd (spl_parse_image_header ext img bd hdr t)))) = clrbits_of (trace t)"
    and fit: "\<And>img off hdr t r img' t'.
        spl_load_simple_fit ext img load_read off hdr t = Some (r, img', t') \<Longrightarrow>
        clrbits_of (trace t') = clrbits_of (trace t)"
    and run: "spl_spi_try_load cfg ext spl_image bootdev load_read offset allow_raw s
                = Some (ret, spl_image', s')"
  shows "clrbits_of (trace s') = clrbits_of (trace s)"
proof -
  from try_load_Some_header [OF run] obtain n s1 where
    h: "load_read offset 0x40 (TEXT_BASE cfg) s = Some (n, s1)" by blast
  note q1 = lr [OF h]
  show ?thesis
  proof (cases "n = 0")
    case True
    with run h have "s' = s1" by (simp add: spl_spi_try_load_def)
    then show ?thesis using q1 by simp
  next
    case nz: False
    show ?thesis
    proof (cases "SPL_LOAD_FIT cfg \<and> image_get_magic (TEXT_BASE cfg) s1 = FDT_MAGIC ext")
      case True
      then have a: "SPL_LOAD_FIT cfg" and b: "image_get_magic (TEXT_BASE cfg) s1 = FDT_MAGIC ext"
        by simp_all
      have "spl_spi_try_load cfg ext spl_image bootdev load_read offset allow_raw s
              = spl_load_simple_fit ext spl_image load_read offset (TEXT_BASE cfg) s1"
        by (rule try_load_fit [where load_read = load_read and offset = offset and cfg = cfg
            and s = s, OF h nz a b])
      with run have "spl_load_simple_fit ext spl_image load_read offset (TEXT_BASE cfg) s1
                   = Some (ret, spl_image', s')"
        by simp
      from fit [OF this] q1 show ?thesis by simp
    next
      case nofit: False
      show ?thesis
      proof (cases "\<not> allow_raw \<and> image_get_magic (TEXT_BASE cfg) s1 \<noteq> IH_MAGIC ext")
        case True
        then have a: "\<not> allow_raw" and b: "image_get_magic (TEXT_BASE cfg) s1 \<noteq> IH_MAGIC ext"
          by simp_all
        have "spl_spi_try_load cfg ext spl_image bootdev load_read offset allow_raw s
                = Some (- EINVAL, spl_image, s1)"
          by (rule try_load_reject [where load_read = load_read and offset = offset and cfg = cfg
              and s = s, OF h nz nofit a b])
        with run have "s' = s1" by simp
        then show ?thesis using q1 by simp
      next
        case False
        then have ok: "allow_raw \<or> image_get_magic (TEXT_BASE cfg) s1 = IH_MAGIC ext" by blast
        obtain r img2 s2 where
          p: "spl_parse_image_header ext spl_image bootdev (TEXT_BASE cfg) s1 = (r, img2, s2)"
          by (cases "spl_parse_image_header ext spl_image bootdev (TEXT_BASE cfg) s1") auto
        have q2: "clrbits_of (trace s2) = clrbits_of (trace s1)"
          using parse [of spl_image bootdev "TEXT_BASE cfg" s1] by (simp add: p)
        note e = try_load_legacy [where load_read = load_read and offset = offset and cfg = cfg
            and s = s, OF h nz nofit ok p]
        show ?thesis
        proof (cases "r = 0")
          case False
          with e run have "s' = s2" by simp
          then show ?thesis using q1 q2 by simp
        next
          case True
          with e run obtain n' s3 where
            pl: "load_read offset (size' img2) (load_addr img2) s2 = Some (n', s3)" and "s' = s3"
            by (auto split: option.splits)
          with lr [OF pl] q1 q2 show ?thesis by simp
        qed
      qed
    qed
  qed
qed

lemma load_image_teardown:
  assumes "spl_spi_load_image cfg ext spl_image bootdev s = Some (ret, spl_image', s')"
  shows "\<exists>s1 s2 s3. spi0_init cfg s = Some s1
     \<and> (case bootdev of BOOT_DEVICE_SPI \<Rightarrow> s2 = s1
          | BOOT_DEVICE_SPINAND \<Rightarrow> spi0_nand_reset cfg s1 = Some s2)
     \<and> spl_spi_try_load cfg ext spl_image bootdev
          (case bootdev of BOOT_DEVICE_SPI \<Rightarrow> spi_load_read_nor cfg
           | BOOT_DEVICE_SPINAND \<Rightarrow> spi_load_read_nand cfg)
          (max (sunxi_get_spl_size ext) (SYS_SPI_U_BOOT_OFFS cfg))
          (bootdev = BOOT_DEVICE_SPI) s2 = Some (ret, spl_image', s3)
     \<and> s' = spi0_deinit cfg s3"
  using load_image_Some [OF assms]
  by (cases bootdev) (auto simp: load_offset_def)

lemma device_read_quiet:
  assumes "(case bootdev of BOOT_DEVICE_SPI \<Rightarrow> spi_load_read_nor cfg
           | BOOT_DEVICE_SPINAND \<Rightarrow> spi_load_read_nand cfg) a b c u = Some (n, u')"
  shows "clrbits_of (trace u') = clrbits_of (trace u)"
  using assms
  by (cases bootdev) (auto simp: spi_load_read_nor_quiet spi_load_read_nand_quiet)

lemma wit_ext_fail_simps:
  "FDT_MAGIC wit_ext_fail = 0xD00DFEED" "IH_MAGIC wit_ext_fail = 0x27051956"
  "sunxi_get_spl_size wit_ext_fail = 0x6000"
  "spl_load_simple_fit wit_ext_fail img load_read offset header s = Some (- 5, img, s)"
  "spl_parse_image_header wit_ext_fail img bootdev header s = (- 5, img, s)"
  by (simp_all add: wit_ext_fail_def wit_ext_def)

text \<open>
  Three boots that fail, on a device that answers at once: the NAND chip stays busy at the
  header read; the header read from NAND has no known magic; the header parser fails on a
  header read from NOR.
\<close>

lemma nand_boot_prefix:
  fixes s :: hw
  assumes "input s = prompt_init wit_cfg @ prompt_xfer 1 [] @ rest" and "mem s = (\<lambda>a. 0)"
  shows "\<exists>s1 s2. spi0_init wit_cfg s = Some s1 \<and> spi0_nand_reset wit_cfg s1 = Some s2
           \<and> input s2 = rest \<and> mem s2 = (\<lambda>a. 0)"
proof -
  from spi0_init_prompt [OF assms(1)] obtain s1 where
    s1: "spi0_init wit_cfg s = Some s1" "input s1 = prompt_xfer 1 [] @ rest" "mem s1 = mem s"
    by blast
  from spi0_nand_reset_prompt [OF s1(2), of wit_cfg] obtain s2 where
    s2: "spi0_nand_reset wit_cfg s1 = Some s2" "input s2 = rest" "mem s2 = mem s1"
    by blast
  have "mem s2 = (\<lambda>a. 0)" by (simp only: s2(3) s1(3) assms(2))
  then show ?thesis using s1(1) s2(1,2) by blast
qed

lemma nand_timeout_boot:
  fixes s :: hw
  assumes "input s = prompt_init wit_cfg @ prompt_xfer 1 [] @ prompt_switch (replicate 100 1)"
    and "mem s = (\<lambda>a. 0)"
  shows "\<exists>s3. spl_spi_load_image wit_cfg wit_ext wit_img BOOT_DEVICE_SPINAND s
           = Some (- EINVAL, wit_img, spi0_deinit wit_cfg s3)"
proof -
  note [simp] = wit_cfg_simps wit_ext_simps
  from nand_boot_prefix [OF assms] obtain s1 s2 where
    p: "spi0_init wit_cfg s = Some s1" "spi0_nand_reset wit_cfg s1 = Some s2"
      "input s2 = prompt_switch (replicate 100 1)"
    by blast
  have i2: "input s2 = prompt_switch (replicate 100 1) @ []" by (simp add: p(3))
  from switch_page_timeout_prompt [OF i2, of wit_cfg "0x8000 div SPL_SPINAND_PAGE_SIZE wit_cfg"]
  obtain s3 where
    s3: "spi0_nand_switch_page wit_cfg (0x8000 div SPL_SPINAND_PAGE_SIZE wit_cfg) s2
           = Some (- ETIMEDOUT, s3)"
    by auto
  have tnz: "- ETIMEDOUT \<noteq> 0" by (simp add: ETIMEDOUT_def)
  have c: "(0x40 :: u32) \<noteq> 0" by simp
  have psnz: "SPL_SPINAND_PAGE_SIZE wit_cfg \<noteq> 0" by simp
  have rd: "spi_load_read_nand wit_cfg 0x8000 0x40 (TEXT_BASE wit_cfg) s2 = Some (0, s3)"
    by (rule nand_read_abort [OF c psnz s3 tnz])
  have off: "load_offset wit_cfg wit_ext = 0x8000" by (simp add: load_offset_def)
  have "spl_spi_try_load wit_cfg wit_ext wit_img BOOT_DEVICE_SPINAND (spi_load_read_nand wit_cfg)
           (load_offset wit_cfg wit_ext) False s2 = Some (- EINVAL, wit_img, s3)"
    unfolding off
    by (rule try_load_header_zero [where load_read = "spi_load_read_nand wit_cfg"
          and offset = "0x8000" and cfg = wit_cfg and s = s2, OF rd])
  from load_image_nand [OF p(1,2) this] show ?thesis by blast
qed

lemma nand_reject_boot:
  fixes s :: hw
  assumes "input s = prompt_init wit_cfg @ prompt_xfer 1 [] @ prompt_nand wit_cfg 0x8000 raw_header @ []"
    and "mem s = (\<lambda>a. 0)"
  shows "\<exists>s3. spl_spi_load_image wit_cfg wit_ext wit_img BOOT_DEVICE_SPINAND s
           = Some (- EINVAL, wit_img, spi0_deinit wit_cfg s3)"
proof -
  note [simp] = wit_cfg_simps wit_ext_simps
  from nand_boot_prefix [OF assms] obtain s1 s2 where
    p: "spi0_init wit_cfg s = Some s1" "spi0_nand_reset wit_cfg s1 = Some s2"
      "input s2 = prompt_nand wit_cfg 0x8000 raw_header @ []" "mem s2 = (\<lambda>a. 0)"
    by blast
  from nand_raw_load [OF p(3,4)] obtain s3 where
    "spl_spi_try_load wit_cfg wit_ext wit_img BOOT_DEVICE_SPINAND (spi_load_read_nand wit_cfg)
           0x8000 False s2 = Some (- EINVAL, wit_img, s3)"
    by blast
  then have "spl_spi_try_load wit_cfg wit_ext wit_img BOOT_DEVICE_SPINAND (spi_load_read_nand wit_cfg)
           (load_offset wit_cfg wit_ext) False s2 = Some (- EINVAL, wit_img, s3)"
    by (simp add: load_offset_def)
  from load_image_nand [OF p(1,2) this] show ?thesis by blast
qed

lemma nor_parse_fail_boot:
  fixes s :: hw
  assumes "input s = prompt_init wit_cfg @ prompt_read legacy_header @ []"
    and "mem s = (\<lambda>a. 0)"
  shows "\<exists>s3. spl_spi_load_image wit_cfg wit_ext_fail wit_img BOOT_DEVICE_SPI s
           = Some (- 5, wit_img, spi0_deinit wit_cfg s3)"
proof -
  note [simp] = wit_cfg_simps wit_ext_fail_simps
  from spi0_init_prompt [OF assms(1)] obtain s1 where
    s1: "spi0_init wit_cfg s = Some s1" "input s1 = prompt_read legacy_header @ []" "mem s1 = mem s"
    by blast
  have l: "length legacy_header = unat (0x40 :: u32)" by simp
  from nor_read_prompt [OF s1(2) l, of wit_cfg "0x8000" "0x4A000000"] obtain s2 where
    s2: "spi_load_read_nor wit_cfg 0x8000 0x40 0x4A000000 s1 = Some (0x40, s2)"
      "mem s2 = store_bytes 0x4A000000 legacy_header (mem s1)"
    by blast
  have m2: "mem s2 = store_bytes 0x4A000000 legacy_header (\<lambda>a. 0)"
    by (simp only: s2(2) s1(3) assms(2))
  have mg: "image_get_magic 0x4A000000 s2 = 0x27051956"
    by (simp only: image_get_magic_mem [OF m2] magic_legacy_header)
  have "spl_spi_try_load wit_cfg wit_ext_fail wit_img BOOT_DEVICE_SPI (spi_load_read_nor wit_cfg)
           0x8000 True s1 = Some (- 5, wit_img, s2)"
    using try_load_legacy [where cfg = wit_cfg and ext = wit_ext_fail
        and load_read = "spi_load_read_nor wit_cfg" and offset = "0x8000" and s = s1
        and n = "0x40" and ?s1.0 = s2 and allow_raw = True and spl_image = wit_img
        and bootdev = BOOT_DEVICE_SPI and ret = "- 5" and spl_image' = wit_img and ?s2.0 = s2]
    by (simp add: s2(1) mg)
  then have "spl_spi_try_load wit_cfg wit_ext_fail wit_img BOOT_DEVICE_SPI (spi_load_read_nor wit_cfg)
           (load_offset wit_cfg wit_ext_fail) True s1 = Some (- 5, wit_img, s2)"
    by (simp add: load_offset_def)
  from load_image_nor [OF s1(1) this] show ?thesis by blast
qed

lemma nand_read_first_switch:
  fixes sector count :: u32
  assumes "spi_load_read_nand cfg sector count buf s = Some (r, s')" "count \<noteq> 0"
  shows "\<exists>evs. outline (trace s') = outline (trace s) @
           Call_spi0_nand_switch_page (sector div SPL_SPINAND_PAGE_SIZE cfg) # evs"
proof -
  from assms(1) obtain n where
    l: "spi_load_read_nand_loop cfg (unat count) (unat sector) (unat count) buf s = Some (n, s')"
    by (auto simp: spi_load_read_nand_def split: option.splits)
  have c: "unat count \<noteq> 0" using assms(2) by (simp add: unat_eq_zero)
  have p: "(of_nat (unat sector div unat (SPL_SPINAND_PAGE_SIZE cfg)) :: u32)
             = sector div SPL_SPINAND_PAGE_SIZE cfg"
    by (simp add: unat_div [symmetric])
  from nand_loop_first_cycle [OF l c order_refl] obtain evs where
    "outline (trace s') = outline (trace s) @
       Call_spi0_nand_switch_page (of_nat (unat sector div unat (SPL_SPINAND_PAGE_SIZE cfg))) # evs"
    by blast
  then show ?thesis unfolding p by blast
qed

lemma device_read_outline:
  assumes "(case bootdev of BOOT_DEVICE_SPI \<Rightarrow> spi_load_read_nor cfg
           | BOOT_DEVICE_SPINAND \<Rightarrow> spi_load_read_nand cfg) a b c u = Some (n, u')"
  shows "\<exists>evs. outline (trace u') = outline (trace u) @ evs"
proof (cases bootdev)
  case BOOT_DEVICE_SPI
  with assms have "spi0_read_data cfg c a b 3 u = Some u'"
    by (auto simp: spi_load_read_nor_def split: option.splits)
  from spi0_read_data_Some(1) [OF this] show ?thesis by blast
next
  case BOOT_DEVICE_SPINAND
  with assms have "spi_load_read_nand cfg a b c u = Some (n, u')" by simp
  from spi_load_read_nand_Some [OF this] show ?thesis by blast
qed

lemma device_read_first:
  assumes "(case bootdev of BOOT_DEVICE_SPI \<Rightarrow> spi_load_read_nor cfg
           | BOOT_DEVICE_SPINAND \<Rightarrow> spi_load_read_nand cfg) offset 0x40 buf u = Some (n, u')"
  shows "\<exists>evs. outline (trace u') = outline (trace u) @
           (case bootdev of
              BOOT_DEVICE_SPI \<Rightarrow> Call_spi0_read_data buf offset 0x40 3
            | BOOT_DEVICE_SPINAND \<Rightarrow>
                Call_spi0_nand_switch_page (offset div SPL_SPINAND_PAGE_SIZE cfg)) # evs"
proof (cases bootdev)
  case BOOT_DEVICE_SPI
  with assms have "spi0_read_data cfg buf offset 0x40 3 u = Some u'"
    by (auto simp: spi_load_read_nor_def split: option.splits)
  from spi0_read_data_Some(1) [OF this] BOOT_DEVICE_SPI show ?thesis by simp
next
  case BOOT_DEVICE_SPINAND
  with assms have r: "spi_load_read_nand cfg offset 0x40 buf u = Some (n, u')" by simp
  have c: "(0x40 :: u32) \<noteq> 0" by simp
  from nand_read_first_switch [OF r c] BOOT_DEVICE_SPINAND show ?thesis by simp
qed

lemma try_load_outline:
  fixes load_read :: load_read
  assumes lr: "\<And>a b c u n u'. load_read a b c u = Some (n, u') \<Longrightarrow>
                 \<exists>evs. outline (trace u') = outline (trace u) @ evs"
    and parse: "\<And>img bd hdr t. \<exists>evs.
        outline (trace (snd (snd (spl_parse_image_header ext img bd hdr t))))
          = outline (trace t) @ evs"
    and fit: "\<And>img off hdr t r img' t'.
        spl_load_simple_fit ext img load_read off hdr t = Some (r, img', t') \<Longrightarrow>
        \<exists>evs. outline (trace t') = outline (trace t) @ evs"
    and run: "spl_spi_try_load cfg ext spl_image bootdev load_read offset allow_raw s
                = Some (ret, spl_image', s')"
    and h: "load_read offset 0x40 (TEXT_BASE cfg) s = Some (n, s1)"
  shows "\<exists>evs. outline (trace s') = outline (trace s1) @ evs"
proof (cases "n = 0")
  case True
  with run h have "s' = s1" by (simp add: spl_spi_try_load_def)
  then show ?thesis by simp
next
  case nz: False
  show ?thesis
  proof (cases "SPL_LOAD_FIT cfg \<and> image_get_magic (TEXT_BASE cfg) s1 = FDT_MAGIC ext")
    case True
    then have a: "SPL_LOAD_FIT cfg" and b: "image_get_magic (TEXT_BASE cfg) s1 = FDT_MAGIC ext"
      by simp_all
    have "spl_spi_try_load cfg ext spl_image bootdev load_read offset allow_raw s
            = spl_load_simple_fit ext spl_image load_read offset (TEXT_BASE cfg) s1"
      by (rule try_load_fit [where load_read = load_read and offset = offset and cfg = cfg
          and s = s, OF h nz a b])
    with run have "spl_load_simple_fit ext spl_image load_read offset (TEXT_BASE cfg) s1
                 = Some (ret, spl_image', s')"
      by simp
    from fit [OF this] show ?thesis .
  next
    case nofit: False
    show ?thesis
    proof (cases "\<not> allow_raw \<and> image_get_magic (TEXT_BASE cfg) s1 \<noteq> IH_MAGIC ext")
      case True
      then have a: "\<not> allow_raw" and b: "image_get_magic (TEXT_BASE cfg) s1 \<noteq> IH_MAGIC ext"
        by simp_all
      have "spl_spi_try_load cfg ext spl_image bootdev load_read offset allow_raw s
              = Some (- EINVAL, spl_image, s1)"
        by (rule try_load_reject [where load_read = load_read and offset = offset and cfg = cfg
            and s = s, OF h nz nofit a b])
      with run have "s' = s1" by simp
      then show ?thesis by simp
    next
      case False
      then have ok: "allow_raw \<or> image_get_magic (TEXT_BASE cfg) s1 = IH_MAGIC ext" by blast
      obtain r img2 s2 where
        p: "spl_parse_image_header ext spl_image bootdev (TEXT_BASE cfg) s1 = (r, img2, s2)"
        by (cases "spl_parse_image_header ext spl_image bootdev (TEXT_BASE cfg) s1") auto
      from parse [of spl_image bootdev "TEXT_BASE cfg" s1] obtain e2 where
        q2: "outline (trace s2) = outline (trace s1) @ e2"
        by (auto simp: p)
      note e = try_load_legacy [where load_read = load_read and offset = offset and cfg = cfg
          and s = s, OF h nz nofit ok p]
      show ?thesis
      proof (cases "r = 0")
        case False
        with e run have "s' = s2" by simp
        then show ?thesis using q2 by simp
      next
        case True
        with e run obtain n' s3 where
          pl: "load_read offset (size' img2) (load_addr img2) s2 = Some (n', s3)" and "s' = s3"
          by (auto split: option.splits)
        with lr [OF pl] q2 show ?thesis by auto
      qed
    qed
  qed
qed

lemma spi0_deinit_outline:
  "outline (trace (spi0_deinit cfg s)) = outline (trace s) @ outline (teardown_events cfg)"
  by (simp add: spi0_deinit_trace)

lemma nand_timeout_boot_big:
  fixes s :: hw
  assumes "input s = prompt_init wit_cfg @ prompt_xfer 1 [] @ prompt_switch (replicate 100 1)"
    and "mem s = (\<lambda>a. 0)"
  shows "\<exists>s1 s2 s3. spi0_init wit_cfg s = Some s1 \<and> spi0_nand_reset wit_cfg s1 = Some s2
      \<and> spl_spi_load_image wit_cfg wit_ext_big wit_img BOOT_DEVICE_SPINAND s
           = Some (- EINVAL, wit_img, spi0_deinit wit_cfg s3)"
proof -
  note [simp] = wit_cfg_simps
  from nand_boot_prefix [OF assms] obtain s1 s2 where
    p: "spi0_init wit_cfg s = Some s1" "spi0_nand_reset wit_cfg s1 = Some s2"
      "input s2 = prompt_switch (replicate 100 1)"
    by blast
  have i2: "input s2 = prompt_switch (replicate 100 1) @ []" by (simp add: p(3))
  from switch_page_timeout_prompt [OF i2, of wit_cfg "0xA000 div SPL_SPINAND_PAGE_SIZE wit_cfg"]
  obtain s3 where
    s3: "spi0_nand_switch_page wit_cfg (0xA000 div SPL_SPINAND_PAGE_SIZE wit_cfg) s2
           = Some (- ETIMEDOUT, s3)"
    by auto
  have tnz: "- ETIMEDOUT \<noteq> 0" by (simp add: ETIMEDOUT_def)
  have c: "(0x40 :: u32) \<noteq> 0" by simp
  have psnz: "SPL_SPINAND_PAGE_SIZE wit_cfg \<noteq> 0" by simp
  have rd: "spi_load_read_nand wit_cfg 0xA000 0x40 (TEXT_BASE wit_cfg) s2 = Some (0, s3)"
    by (rule nand_read_abort [OF c psnz s3 tnz])
  have off: "load_offset wit_cfg wit_ext_big = 0xA000"
    by (simp add: load_offset_def wit_ext_big_def)
  have "spl_spi_try_load wit_cfg wit_ext_big wit_img BOOT_DEVICE_SPINAND (spi_load_read_nand wit_cfg)
           (load_offset wit_cfg wit_ext_big) False s2 = Some (- EINVAL, wit_img, s3)"
    unfolding off
    by (rule try_load_header_zero [where load_read = "spi_load_read_nand wit_cfg"
          and offset = "0xA000" and cfg = wit_cfg and s = s2, OF rd])
  from load_image_nand [OF p(1,2) this] p(1,2) show ?thesis by blast
qed

section \<open>Image classification\<close>

text \<open>
  Claim C1, as the code has it. After a header read that returned a nonzero count:
  if structured-image support is configured (\<open>CONFIG_SPL_LOAD_FIT\<close>) and the magic of
  the header is \<open>FDT_MAGIC\<close>, the result is that of \<open>spl_load_simple_fit\<close>; otherwise,
  if raw loading is not allowed and the magic is not \<open>IH_MAGIC\<close>, the result is
  \<open>-EINVAL\<close> and nothing else is done; otherwise, that is when raw loading is allowed or
  the magic is \<open>IH_MAGIC\<close>, the header goes to \<open>spl_parse_image_header\<close>, whose nonzero
  status is returned, and after whose success the payload is read at the same offset, a
  read of zero bytes giving \<open>-EINVAL\<close> and any other giving 0.
\<close>

theorem C1_image_classification:
  "(\<forall>n s1. load_read offset 0x40 (TEXT_BASE cfg) s = Some (n, s1) \<and> n \<noteq> 0 \<longrightarrow>
      (SPL_LOAD_FIT cfg \<and> image_get_magic (TEXT_BASE cfg) s1 = FDT_MAGIC ext \<longrightarrow>
         spl_spi_try_load cfg ext spl_image bootdev load_read offset allow_raw s
           = spl_load_simple_fit ext spl_image load_read offset (TEXT_BASE cfg) s1)
      \<and> (\<not> (SPL_LOAD_FIT cfg \<and> image_get_magic (TEXT_BASE cfg) s1 = FDT_MAGIC ext)
           \<and> \<not> allow_raw \<and> image_get_magic (TEXT_BASE cfg) s1 \<noteq> IH_MAGIC ext \<longrightarrow>
         spl_spi_try_load cfg ext spl_image bootdev load_read offset allow_raw s
           = Some (- EINVAL, spl_image, s1))
      \<and> (\<not> (SPL_LOAD_FIT cfg \<and> image_get_magic (TEXT_BASE cfg) s1 = FDT_MAGIC ext)
           \<and> (allow_raw \<or> image_get_magic (TEXT_BASE cfg) s1 = IH_MAGIC ext) \<longrightarrow>
         (\<forall>ret spl_image' s2.
            spl_parse_image_header ext spl_image bootdev (TEXT_BASE cfg) s1
              = (ret, spl_image', s2) \<longrightarrow>
            spl_spi_try_load cfg ext spl_image bootdev load_read offset allow_raw s =
              (if ret \<noteq> 0 then Some (ret, spl_image', s2)
               else case load_read offset (size' spl_image') (load_addr spl_image') s2 of
                      None \<Rightarrow> None
                    | Some (n', s3) \<Rightarrow>
                        Some (if n' = 0 then - EINVAL else 0, spl_image', s3)))))
   \<and> - EINVAL \<noteq> 0"
proof (intro conjI allI impI)
  fix n s1
  assume h: "load_read offset 0x40 (TEXT_BASE cfg) s = Some (n, s1) \<and> n \<noteq> 0"
  then have h1: "load_read offset 0x40 (TEXT_BASE cfg) s = Some (n, s1)" and h2: "n \<noteq> 0"
    by simp_all
  {
    assume "SPL_LOAD_FIT cfg \<and> image_get_magic (TEXT_BASE cfg) s1 = FDT_MAGIC ext"
    then show "spl_spi_try_load cfg ext spl_image bootdev load_read offset allow_raw s
           = spl_load_simple_fit ext spl_image load_read offset (TEXT_BASE cfg) s1"
      using try_load_fit [where load_read = load_read and offset = offset and cfg = cfg and s = s, OF h1 h2] by simp
  }
  {
    assume "\<not> (SPL_LOAD_FIT cfg \<and> image_get_magic (TEXT_BASE cfg) s1 = FDT_MAGIC ext)
           \<and> \<not> allow_raw \<and> image_get_magic (TEXT_BASE cfg) s1 \<noteq> IH_MAGIC ext"
    then show "spl_spi_try_load cfg ext spl_image bootdev load_read offset allow_raw s
           = Some (- EINVAL, spl_image, s1)"
      using try_load_reject [where load_read = load_read and offset = offset and cfg = cfg and s = s, OF h1 h2] by blast
  }
  {
    fix ret spl_image' s2
    assume a: "\<not> (SPL_LOAD_FIT cfg \<and> image_get_magic (TEXT_BASE cfg) s1 = FDT_MAGIC ext)
           \<and> (allow_raw \<or> image_get_magic (TEXT_BASE cfg) s1 = IH_MAGIC ext)"
      and p: "spl_parse_image_header ext spl_image bootdev (TEXT_BASE cfg) s1
              = (ret, spl_image', s2)"
    from a have a1: "\<not> (SPL_LOAD_FIT cfg \<and> image_get_magic (TEXT_BASE cfg) s1 = FDT_MAGIC ext)"
      and a2: "allow_raw \<or> image_get_magic (TEXT_BASE cfg) s1 = IH_MAGIC ext"
      by blast+
    show "spl_spi_try_load cfg ext spl_image bootdev load_read offset allow_raw s =
              (if ret \<noteq> 0 then Some (ret, spl_image', s2)
               else case load_read offset (size' spl_image') (load_addr spl_image') s2 of
                      None \<Rightarrow> None
                    | Some (n', s3) \<Rightarrow>
                        Some (if n' = 0 then - EINVAL else 0, spl_image', s3))"
      by (rule try_load_legacy [where load_read = load_read and offset = offset and cfg = cfg and s = s, OF h1 h2 a1 a2 p])
  }
next
  show "- EINVAL \<noteq> 0" by (rule EINVAL_nonzero)
qed

theorem C1_image_classification_witness:
  "(\<exists>s1. spl_spi_try_load wit_cfg wit_ext wit_img BOOT_DEVICE_SPI (spi_load_read_nor wit_cfg)
           0x8000 True (wit_hw (prompt_read fit_header))
         = Some (0, \<lparr>size' = 0x100, load_addr = 0x40000000\<rparr>, s1))
   \<and> (\<exists>s1. spl_spi_try_load wit_cfg wit_ext wit_img BOOT_DEVICE_SPINAND
           (spi_load_read_nand wit_cfg) 0x8000 False (wit_hw (prompt_nand wit_cfg 0x8000 raw_header))
         = Some (- EINVAL, wit_img, s1))
   \<and> (\<exists>s3. spl_spi_try_load wit_cfg wit_ext wit_img BOOT_DEVICE_SPINAND
           (spi_load_read_nand wit_cfg) 0x8000 False
           (wit_hw (prompt_nand wit_cfg 0x8000 legacy_header @ prompt_nand wit_cfg 0x8000 [1, 2, 3, 4]))
         = Some (0, \<lparr>size' = 4, load_addr = 0x42000000\<rparr>, s3))"
proof -
  note [simp] = wit_cfg_simps wit_ext_simps
  have e: "input (wit_hw xs) = xs @ []" "input (wit_hw xs) = xs" "mem (wit_hw xs) = (\<lambda>a. 0)" for xs
    by (simp_all add: wit_hw_def)
  \<comment> \<open>a structured image\<close>
  from nor_fit_load [OF e(1) e(3)] obtain a1 where
    a: "spi_load_read_nor wit_cfg 0x8000 0x40 0x4A000000 (wit_hw (prompt_read fit_header))
          = Some (0x40, a1)"
      "image_get_magic 0x4A000000 a1 = 0xD00DFEED"
    by blast
  note ta = C1_image_classification [where cfg = wit_cfg and ext = wit_ext
      and load_read = "spi_load_read_nor wit_cfg" and offset = "0x8000"
      and s = "wit_hw (prompt_read fit_header)" and spl_image = wit_img
      and bootdev = BOOT_DEVICE_SPI and allow_raw = True,
      THEN conjunct1, rule_format, where n = "0x40" and ?s1.0 = a1, THEN conjunct1, rule_format]
  have ra: "spl_spi_try_load wit_cfg wit_ext wit_img BOOT_DEVICE_SPI (spi_load_read_nor wit_cfg)
           0x8000 True (wit_hw (prompt_read fit_header))
         = Some (0, \<lparr>size' = 0x100, load_addr = 0x40000000\<rparr>, a1)"
    using ta by (simp add: a wit_img_def)
  \<comment> \<open>neither magic, raw loading not allowed\<close>
  from nand_raw_load [OF e(1) e(3)] obtain b1 where
    b: "spi_load_read_nand wit_cfg 0x8000 0x40 0x4A000000 (wit_hw (prompt_nand wit_cfg 0x8000 raw_header))
          = Some (0x40, b1)"
      "image_get_magic 0x4A000000 b1 = 0xABABABAB"
    by blast
  note tb = C1_image_classification [where cfg = wit_cfg and ext = wit_ext
      and load_read = "spi_load_read_nand wit_cfg" and offset = "0x8000"
      and s = "wit_hw (prompt_nand wit_cfg 0x8000 raw_header)" and spl_image = wit_img
      and bootdev = BOOT_DEVICE_SPINAND and allow_raw = False,
      THEN conjunct1, rule_format, where n = "0x40" and ?s1.0 = b1,
      THEN conjunct2, THEN conjunct1, rule_format]
  have rb: "spl_spi_try_load wit_cfg wit_ext wit_img BOOT_DEVICE_SPINAND
           (spi_load_read_nand wit_cfg) 0x8000 False (wit_hw (prompt_nand wit_cfg 0x8000 raw_header))
         = Some (- EINVAL, wit_img, b1)"
    using tb by (simp add: b)
  \<comment> \<open>a legacy image, raw loading not allowed\<close>
  from nand_legacy_load [OF e(2) e(3)] obtain c1 c3 where
    c: "spi_load_read_nand wit_cfg 0x8000 0x40 0x4A000000
          (wit_hw (prompt_nand wit_cfg 0x8000 legacy_header @ prompt_nand wit_cfg 0x8000 [1, 2, 3, 4]))
          = Some (0x40, c1)"
      "image_get_magic 0x4A000000 c1 = 0x27051956"
      "spi_load_read_nand wit_cfg 0x8000 4 0x42000000 c1 = Some (4, c3)"
    by blast
  note tc = C1_image_classification [where cfg = wit_cfg and ext = wit_ext
      and load_read = "spi_load_read_nand wit_cfg" and offset = "0x8000"
      and s = "wit_hw (prompt_nand wit_cfg 0x8000 legacy_header @ prompt_nand wit_cfg 0x8000 [1, 2, 3, 4])"
      and spl_image = wit_img and bootdev = BOOT_DEVICE_SPINAND and allow_raw = False,
      THEN conjunct1, rule_format, where n = "0x40" and ?s1.0 = c1,
      THEN conjunct2, THEN conjunct2, rule_format,
      where ret = 0 and spl_image' = "\<lparr>size' = 4, load_addr = 0x42000000\<rparr>" and ?s2.0 = c1]
  have rc: "spl_spi_try_load wit_cfg wit_ext wit_img BOOT_DEVICE_SPINAND
           (spi_load_read_nand wit_cfg) 0x8000 False
           (wit_hw (prompt_nand wit_cfg 0x8000 legacy_header @ prompt_nand wit_cfg 0x8000 [1, 2, 3, 4]))
         = Some (0, \<lparr>size' = 4, load_addr = 0x42000000\<rparr>, c3)"
    using tc by (simp add: c wit_img_def)
  show ?thesis using ra rb rc by blast
qed

text \<open>
  Where the code departs from the claim as the specification words it. A legacy header
  read from NAND, where raw loading is not allowed, is loaded (status 0), not rejected. A
  header with neither magic read from NOR, where raw loading is allowed, goes to the header
  parser, here one that takes any header as a raw image, and is loaded. In a build without
  \<open>CONFIG_SPL_LOAD_FIT\<close> a header with the structured-image magic goes to the header
  parser and not to the structured loader.
\<close>

theorem C1_image_classification_counterexample:
  "map_option fst
     (spl_spi_try_load wit_cfg wit_ext wit_img BOOT_DEVICE_SPINAND (spi_load_read_nand wit_cfg)
        0x8000 False
        (wit_hw (prompt_nand wit_cfg 0x8000 legacy_header @ prompt_nand wit_cfg 0x8000 [1, 2, 3, 4])))
     = Some 0
   \<and> map_option (image_get_magic 0x4A000000 \<circ> snd)
       (spi_load_read_nand wit_cfg 0x8000 0x40 0x4A000000
          (wit_hw (prompt_nand wit_cfg 0x8000 legacy_header @ prompt_nand wit_cfg 0x8000 [1, 2, 3, 4])))
     = Some (IH_MAGIC wit_ext)
   \<and> map_option fst
       (spl_spi_try_load wit_cfg wit_ext wit_img BOOT_DEVICE_SPI (spi_load_read_nor wit_cfg)
          0x8000 True (wit_hw (prompt_read raw_header @ prompt_read [1, 2, 3, 4])))
     = Some 0
   \<and> map_option (image_get_magic 0x4A000000 \<circ> snd)
       (spi_load_read_nor wit_cfg 0x8000 0x40 0x4A000000
          (wit_hw (prompt_read raw_header @ prompt_read [1, 2, 3, 4])))
     = Some 0xABABABAB
   \<and> IH_MAGIC wit_ext \<noteq> 0xABABABAB \<and> FDT_MAGIC wit_ext \<noteq> 0xABABABAB
   \<and> map_option (fst \<circ> snd)
       (spl_spi_try_load wit_cfg_nofit wit_ext wit_img BOOT_DEVICE_SPI
          (spi_load_read_nor wit_cfg_nofit) 0x8000 True
          (wit_hw (prompt_read fit_header @ prompt_read [1, 2, 3, 4])))
     = Some \<lparr>size' = 4, load_addr = 0x42000000\<rparr>
   \<and> map_option (image_get_magic 0x4A000000 \<circ> snd)
       (spi_load_read_nor wit_cfg_nofit 0x8000 0x40 0x4A000000
          (wit_hw (prompt_read fit_header @ prompt_read [1, 2, 3, 4])))
     = Some (FDT_MAGIC wit_ext)
   \<and> - EINVAL \<noteq> 0"
proof -
  note [simp] = wit_cfg_simps wit_ext_simps
  have e: "input (wit_hw xs) = xs" "mem (wit_hw xs) = (\<lambda>a. 0)" for xs
    by (simp_all add: wit_hw_def)
  from nand_legacy_load [OF e] have 1: "map_option fst
     (spl_spi_try_load wit_cfg wit_ext wit_img BOOT_DEVICE_SPINAND (spi_load_read_nand wit_cfg)
        0x8000 False
        (wit_hw (prompt_nand wit_cfg 0x8000 legacy_header @ prompt_nand wit_cfg 0x8000 [1, 2, 3, 4])))
     = Some 0"
    and 2: "map_option (image_get_magic 0x4A000000 \<circ> snd)
       (spi_load_read_nand wit_cfg 0x8000 0x40 0x4A000000
          (wit_hw (prompt_nand wit_cfg 0x8000 legacy_header @ prompt_nand wit_cfg 0x8000 [1, 2, 3, 4])))
     = Some (IH_MAGIC wit_ext)"
    by auto
  from nor_raw_load [OF e] have 3: "map_option fst
       (spl_spi_try_load wit_cfg wit_ext wit_img BOOT_DEVICE_SPI (spi_load_read_nor wit_cfg)
          0x8000 True (wit_hw (prompt_read raw_header @ prompt_read [1, 2, 3, 4])))
     = Some 0"
    and 4: "map_option (image_get_magic 0x4A000000 \<circ> snd)
       (spi_load_read_nor wit_cfg 0x8000 0x40 0x4A000000
          (wit_hw (prompt_read raw_header @ prompt_read [1, 2, 3, 4])))
     = Some 0xABABABAB"
    by auto
  from nor_fit_load_nofit [OF e] have 5: "map_option (fst \<circ> snd)
       (spl_spi_try_load wit_cfg_nofit wit_ext wit_img BOOT_DEVICE_SPI
          (spi_load_read_nor wit_cfg_nofit) 0x8000 True
          (wit_hw (prompt_read fit_header @ prompt_read [1, 2, 3, 4])))
     = Some \<lparr>size' = 4, load_addr = 0x42000000\<rparr>"
    and 6: "map_option (image_get_magic 0x4A000000 \<circ> snd)
       (spi_load_read_nor wit_cfg_nofit 0x8000 0x40 0x4A000000
          (wit_hw (prompt_read fit_header @ prompt_read [1, 2, 3, 4])))
     = Some (FDT_MAGIC wit_ext)"
    by auto
  have 7: "IH_MAGIC wit_ext \<noteq> 0xABABABAB" "FDT_MAGIC wit_ext \<noteq> 0xABABABAB" by simp_all
  show ?thesis
    using 1 2 3 4 5 6 7 EINVAL_nonzero by blast
qed

section \<open>NAND page-switch retry\<close>



section \<open>NAND page-boundary splitting\<close>

text \<open>
  Claim C3. Every data read that a NAND read issues stays within its page: the call of
  \<open>spi0_read_data\<close> has an intra-page offset and a positive length whose sum does not
  exceed the page size, and so has every single Read Data (03h) transfer that such a call
  is chunked into (column address from its two address bytes, plus its receive length).
  This holds from every state of the loop, for every value of its \<open>unsigned long\<close>
  variables on the 32-bit and on the 64-bit builds, and so for the read as the dispatch
  calls it. A read of 200 bytes at offset 2000 with pages of 2048 bytes that succeeds has
  made exactly two page-switch-plus-read cycles: page 0 with 48 bytes at offset 2000 and
  page 1 with 152 bytes at offset 0. On a healthy device the read does succeed.
\<close>

theorem C3_nand_page_boundary_splitting:
  "(\<forall>count sector remain r s'.
      spi_load_read_nand_loop cfg count sector remain buf s = Some (r, s') \<and> remain \<le> count \<longrightarrow>
      (\<exists>evs. outline (trace s') = outline (trace s) @ evs
         \<and> (\<forall>b a l al. Call_spi0_read_data b a l al \<in> set evs \<longrightarrow>
               al = 2 \<and> 0 < l \<and> unat a + unat l \<le> unat (SPL_SPINAND_PAGE_SIZE cfg))
         \<and> (\<forall>tx txlen rxlen. Call_spi0_xfer tx txlen rxlen \<in> set evs \<and> tx ! 0 = 0x03 \<longrightarrow>
               256 * unat (tx ! 1) + unat (tx ! 2) + unat rxlen
                 \<le> unat (SPL_SPINAND_PAGE_SIZE cfg))))
   \<and> (\<forall>sector count r s'. spi_load_read_nand cfg sector count buf s = Some (r, s') \<longrightarrow>
      (\<exists>evs. outline (trace s') = outline (trace s) @ evs
         \<and> (\<forall>b a l al. Call_spi0_read_data b a l al \<in> set evs \<longrightarrow>
               al = 2 \<and> 0 < l \<and> unat a + unat l \<le> unat (SPL_SPINAND_PAGE_SIZE cfg))
         \<and> (\<forall>tx txlen rxlen. Call_spi0_xfer tx txlen rxlen \<in> set evs \<and> tx ! 0 = 0x03 \<longrightarrow>
               256 * unat (tx ! 1) + unat (tx ! 2) + unat rxlen
                 \<le> unat (SPL_SPINAND_PAGE_SIZE cfg))))
   \<and> (\<forall>s'. SPL_SPINAND_PAGE_SIZE cfg = 2048
          \<and> spi_load_read_nand cfg 2000 200 buf s = Some (200, s') \<longrightarrow>
        page_ops (trace s') = page_ops (trace s) @
          [Call_spi0_nand_switch_page 0, Call_spi0_read_data buf 2000 48 2,
           Call_spi0_nand_switch_page 1, Call_spi0_read_data (buf + 48) 0 152 2])
   \<and> (\<forall>sector count data rest. SPL_SPINAND_PAGE_SIZE cfg \<noteq> 0
          \<and> input s = prompt_nand cfg (unat sector) data @ rest
          \<and> length data = unat count \<longrightarrow>
        (\<exists>s'. spi_load_read_nand cfg sector count buf s = Some (count, s') \<and> input s' = rest
              \<and> mem s' = store_bytes buf data (mem s)))"
proof (intro conjI allI impI)
  fix count sector remain r s'
  assume a: "spi_load_read_nand_loop cfg count sector remain buf s = Some (r, s') \<and> remain \<le> count"
  then have a1: "spi_load_read_nand_loop cfg count sector remain buf s = Some (r, s')"
    and a2: "remain \<le> count" by simp_all
  from spi_load_read_nand_loop_Some [OF a1 a2]
  obtain evs where e: "outline (trace s') = outline (trace s) @ evs"
    "\<forall>e \<in> set evs. within_page (SPL_SPINAND_PAGE_SIZE cfg) e"
    by blast
  have "\<forall>b a l al. Call_spi0_read_data b a l al \<in> set evs \<longrightarrow>
               al = 2 \<and> 0 < l \<and> unat a + unat l \<le> unat (SPL_SPINAND_PAGE_SIZE cfg)"
    using e(2) by fastforce
  moreover have "\<forall>tx txlen rxlen. Call_spi0_xfer tx txlen rxlen \<in> set evs \<and> tx ! 0 = 0x03 \<longrightarrow>
               256 * unat (tx ! 1) + unat (tx ! 2) + unat rxlen \<le> unat (SPL_SPINAND_PAGE_SIZE cfg)"
    using e(2) by fastforce
  ultimately show "\<exists>evs. outline (trace s') = outline (trace s) @ evs
         \<and> (\<forall>b a l al. Call_spi0_read_data b a l al \<in> set evs \<longrightarrow>
               al = 2 \<and> 0 < l \<and> unat a + unat l \<le> unat (SPL_SPINAND_PAGE_SIZE cfg))
         \<and> (\<forall>tx txlen rxlen. Call_spi0_xfer tx txlen rxlen \<in> set evs \<and> tx ! 0 = 0x03 \<longrightarrow>
               256 * unat (tx ! 1) + unat (tx ! 2) + unat rxlen
                 \<le> unat (SPL_SPINAND_PAGE_SIZE cfg))"
    using e(1) by blast
next
  fix sector count r s'
  assume a: "spi_load_read_nand cfg sector count buf s = Some (r, s')"
  from spi_load_read_nand_Some [OF a]
  obtain evs where e: "outline (trace s') = outline (trace s) @ evs"
    "\<forall>e \<in> set evs. within_page (SPL_SPINAND_PAGE_SIZE cfg) e"
    by blast
  have "\<forall>b a l al. Call_spi0_read_data b a l al \<in> set evs \<longrightarrow>
               al = 2 \<and> 0 < l \<and> unat a + unat l \<le> unat (SPL_SPINAND_PAGE_SIZE cfg)"
    using e(2) by fastforce
  moreover have "\<forall>tx txlen rxlen. Call_spi0_xfer tx txlen rxlen \<in> set evs \<and> tx ! 0 = 0x03 \<longrightarrow>
               256 * unat (tx ! 1) + unat (tx ! 2) + unat rxlen \<le> unat (SPL_SPINAND_PAGE_SIZE cfg)"
    using e(2) by fastforce
  ultimately show "\<exists>evs. outline (trace s') = outline (trace s) @ evs
         \<and> (\<forall>b a l al. Call_spi0_read_data b a l al \<in> set evs \<longrightarrow>
               al = 2 \<and> 0 < l \<and> unat a + unat l \<le> unat (SPL_SPINAND_PAGE_SIZE cfg))
         \<and> (\<forall>tx txlen rxlen. Call_spi0_xfer tx txlen rxlen \<in> set evs \<and> tx ! 0 = 0x03 \<longrightarrow>
               256 * unat (tx ! 1) + unat (tx ! 2) + unat rxlen
                 \<le> unat (SPL_SPINAND_PAGE_SIZE cfg))"
    using e(1) by blast
next
  fix s'
  assume a: "SPL_SPINAND_PAGE_SIZE cfg = 2048 \<and> spi_load_read_nand cfg 2000 200 buf s = Some (200, s')"
  then have r: "spi_load_read_nand cfg 2000 200 buf s = Some (200, s')"
    and ps: "SPL_SPINAND_PAGE_SIZE cfg = 2048" by simp_all
  have nz: "(200 :: u32) \<noteq> 0" by simp
  from nand_read_page_ops [OF r nz]
  show "page_ops (trace s') = page_ops (trace s) @
          [Call_spi0_nand_switch_page 0, Call_spi0_read_data buf 2000 48 2,
           Call_spi0_nand_switch_page 1, Call_spi0_read_data (buf + 48) 0 152 2]"
    by (simp add: nand_cycles_2000_200 [OF ps])
next
  fix sector count :: u32 and data rest
  assume "SPL_SPINAND_PAGE_SIZE cfg \<noteq> 0
          \<and> input s = prompt_nand cfg (unat sector) data @ rest
          \<and> length data = unat count"
  then show "\<exists>s'. spi_load_read_nand cfg sector count buf s = Some (count, s') \<and> input s' = rest
              \<and> mem s' = store_bytes buf data (mem s)"
    using spi_load_read_nand_prompt [of s cfg sector data rest count buf] by blast
qed

theorem C3_nand_page_boundary_splitting_witness:
  "(\<exists>s'. spi_load_read_nand wit_cfg 2000 200 0x4A000000
           (wit_hw (prompt_nand wit_cfg 2000 (replicate 200 0xAB))) = Some (200, s')
      \<and> page_ops (trace s') =
          [Call_spi0_nand_switch_page 0, Call_spi0_read_data 0x4A000000 2000 48 2,
           Call_spi0_nand_switch_page 1, Call_spi0_read_data 0x4A000030 0 152 2]
      \<and> (\<exists>evs. outline (trace s') = evs
           \<and> (\<forall>b a l al. Call_spi0_read_data b a l al \<in> set evs \<longrightarrow> unat a + unat l \<le> 2048)))
   \<and> (\<exists>s'. spi_load_read_nand wit_cfg64 0xFFFFFFFF 2 0x4A000000
           (wit_hw (prompt_nand wit_cfg64 0xFFFFFFFF [0xAA, 0xBB])) = Some (2, s')
      \<and> page_ops (trace s') =
          [Call_spi0_nand_switch_page 0x1FFFFF, Call_spi0_read_data 0x4A000000 2047 1 2,
           Call_spi0_nand_switch_page 0x200000, Call_spi0_read_data 0x4A000001 0 1 2]
      \<and> (\<exists>evs. outline (trace s') = evs
           \<and> (\<forall>b a l al. Call_spi0_read_data b a l al \<in> set evs \<longrightarrow> unat a + unat l \<le> 2048)))
   \<and> (\<exists>s'. spi_load_read_nand wit_cfg 0xFFFFFFFF 2 0x4A000000
           (wit_hw (prompt_nand wit_cfg 0xFFFFFFFF [0xAA, 0xBB])) = Some (2, s')
      \<and> page_ops (trace s') =
          [Call_spi0_nand_switch_page 0x1FFFFF, Call_spi0_read_data 0x4A000000 2047 1 2,
           Call_spi0_nand_switch_page 0, Call_spi0_read_data 0x4A000001 0 1 2])"
proof -
  have ps: "SPL_SPINAND_PAGE_SIZE wit_cfg = 2048" "SPL_SPINAND_PAGE_SIZE wit_cfg64 = 2048"
    by (simp_all add: wit_cfg_def wit_cfg64_def)
  have e: "trace (wit_hw xs) = []" for xs by (simp add: wit_hw_def)
  \<comment> \<open>200 bytes at offset 2000\<close>
  note t = C3_nand_page_boundary_splitting [of wit_cfg "0x4A000000"
      "wit_hw (prompt_nand wit_cfg 2000 (replicate 200 0xAB))"]
  note t2 = t [THEN conjunct2, THEN conjunct1, rule_format]
  note t3 = t [THEN conjunct2, THEN conjunct2, THEN conjunct1, rule_format]
  note t4 = t [THEN conjunct2, THEN conjunct2, THEN conjunct2, rule_format]
  have "\<exists>s'. spi_load_read_nand wit_cfg 2000 200 0x4A000000
           (wit_hw (prompt_nand wit_cfg 2000 (replicate 200 0xAB))) = Some (200, s')
        \<and> input s' = []
        \<and> mem s' = store_bytes 0x4A000000 (replicate 200 0xAB)
             (mem (wit_hw (prompt_nand wit_cfg 2000 (replicate 200 0xAB))))"
    by (rule t4) (simp add: ps wit_hw_def)
  then obtain s' where x: "spi_load_read_nand wit_cfg 2000 200 0x4A000000
           (wit_hw (prompt_nand wit_cfg 2000 (replicate 200 0xAB))) = Some (200, s')"
    by blast
  have p: "page_ops (trace s') = page_ops (trace (wit_hw (prompt_nand wit_cfg 2000 (replicate 200 0xAB)))) @
          [Call_spi0_nand_switch_page 0, Call_spi0_read_data 0x4A000000 2000 48 2,
           Call_spi0_nand_switch_page 1, Call_spi0_read_data (0x4A000000 + 48) 0 152 2]"
    by (rule t3) (simp add: ps x)
  from t2 [OF x] obtain evs where
    ev: "outline (trace s') = outline (trace (wit_hw (prompt_nand wit_cfg 2000 (replicate 200 0xAB)))) @ evs"
       "\<forall>b a l al. Call_spi0_read_data b a l al \<in> set evs \<longrightarrow>
               al = 2 \<and> 0 < l \<and> unat a + unat l \<le> unat (SPL_SPINAND_PAGE_SIZE wit_cfg)"
    by blast
  have "\<exists>evs. outline (trace s') = evs
           \<and> (\<forall>b a l al. Call_spi0_read_data b a l al \<in> set evs \<longrightarrow> unat a + unat l \<le> 2048)"
    using ev by (auto simp: e ps)
  then have A: "\<exists>s'. spi_load_read_nand wit_cfg 2000 200 0x4A000000
           (wit_hw (prompt_nand wit_cfg 2000 (replicate 200 0xAB))) = Some (200, s')
      \<and> page_ops (trace s') =
          [Call_spi0_nand_switch_page 0, Call_spi0_read_data 0x4A000000 2000 48 2,
           Call_spi0_nand_switch_page 1, Call_spi0_read_data 0x4A000030 0 152 2]
      \<and> (\<exists>evs. outline (trace s') = evs
           \<and> (\<forall>b a l al. Call_spi0_read_data b a l al \<in> set evs \<longrightarrow> unat a + unat l \<le> 2048))"
    using x p by (simp add: e)
  \<comment> \<open>two bytes across \<open>2^32\<close> on the 64-bit build\<close>
  note u = C3_nand_page_boundary_splitting [of wit_cfg64 "0x4A000000"
      "wit_hw (prompt_nand wit_cfg64 0xFFFFFFFF [0xAA, 0xBB])"]
  note u2 = u [THEN conjunct2, THEN conjunct1, rule_format]
  note u4 = u [THEN conjunct2, THEN conjunct2, THEN conjunct2, rule_format]
  have "\<exists>s'. spi_load_read_nand wit_cfg64 0xFFFFFFFF 2 0x4A000000
           (wit_hw (prompt_nand wit_cfg64 0xFFFFFFFF [0xAA, 0xBB])) = Some (2, s')
        \<and> input s' = []
        \<and> mem s' = store_bytes 0x4A000000 [0xAA, 0xBB]
             (mem (wit_hw (prompt_nand wit_cfg64 0xFFFFFFFF [0xAA, 0xBB])))"
    by (rule u4) (simp add: ps wit_hw_def)
  then obtain s64 where y: "spi_load_read_nand wit_cfg64 0xFFFFFFFF 2 0x4A000000
           (wit_hw (prompt_nand wit_cfg64 0xFFFFFFFF [0xAA, 0xBB])) = Some (2, s64)"
    by blast
  have nz: "(2 :: u32) \<noteq> 0" by simp
  have p64: "page_ops (trace s64) =
          [Call_spi0_nand_switch_page 0x1FFFFF, Call_spi0_read_data 0x4A000000 2047 1 2,
           Call_spi0_nand_switch_page 0x200000, Call_spi0_read_data 0x4A000001 0 1 2]"
    using nand_read_page_ops [OF y nz] by (simp add: e nand_cycles_wrap64)
  from u2 [OF y] obtain evs64 where
    ev64: "outline (trace s64) = outline (trace (wit_hw (prompt_nand wit_cfg64 0xFFFFFFFF [0xAA, 0xBB]))) @ evs64"
       "\<forall>b a l al. Call_spi0_read_data b a l al \<in> set evs64 \<longrightarrow>
               al = 2 \<and> 0 < l \<and> unat a + unat l \<le> unat (SPL_SPINAND_PAGE_SIZE wit_cfg64)"
    by blast
  have "\<exists>evs. outline (trace s64) = evs
           \<and> (\<forall>b a l al. Call_spi0_read_data b a l al \<in> set evs \<longrightarrow> unat a + unat l \<le> 2048)"
    using ev64 by (auto simp: e ps)
  then have B: "\<exists>s'. spi_load_read_nand wit_cfg64 0xFFFFFFFF 2 0x4A000000
           (wit_hw (prompt_nand wit_cfg64 0xFFFFFFFF [0xAA, 0xBB])) = Some (2, s')
      \<and> page_ops (trace s') =
          [Call_spi0_nand_switch_page 0x1FFFFF, Call_spi0_read_data 0x4A000000 2047 1 2,
           Call_spi0_nand_switch_page 0x200000, Call_spi0_read_data 0x4A000001 0 1 2]
      \<and> (\<exists>evs. outline (trace s') = evs
           \<and> (\<forall>b a l al. Call_spi0_read_data b a l al \<in> set evs \<longrightarrow> unat a + unat l \<le> 2048))"
    using y p64 by blast
  \<comment> \<open>the same request on the 32-bit build\<close>
  note v = C3_nand_page_boundary_splitting [of wit_cfg "0x4A000000"
      "wit_hw (prompt_nand wit_cfg 0xFFFFFFFF [0xAA, 0xBB])"]
  note v4 = v [THEN conjunct2, THEN conjunct2, THEN conjunct2, rule_format]
  have "\<exists>s'. spi_load_read_nand wit_cfg 0xFFFFFFFF 2 0x4A000000
           (wit_hw (prompt_nand wit_cfg 0xFFFFFFFF [0xAA, 0xBB])) = Some (2, s')
        \<and> input s' = []
        \<and> mem s' = store_bytes 0x4A000000 [0xAA, 0xBB]
             (mem (wit_hw (prompt_nand wit_cfg 0xFFFFFFFF [0xAA, 0xBB])))"
    by (rule v4) (simp add: ps wit_hw_def)
  then obtain s32 where z: "spi_load_read_nand wit_cfg 0xFFFFFFFF 2 0x4A000000
           (wit_hw (prompt_nand wit_cfg 0xFFFFFFFF [0xAA, 0xBB])) = Some (2, s32)"
    by blast
  have p32: "page_ops (trace s32) =
          [Call_spi0_nand_switch_page 0x1FFFFF, Call_spi0_read_data 0x4A000000 2047 1 2,
           Call_spi0_nand_switch_page 0, Call_spi0_read_data 0x4A000001 0 1 2]"
    using nand_read_page_ops [OF z nz] by (simp add: e nand_cycles_wrap32)
  show ?thesis
    using A B z p32 by blast
qed

section \<open>Byte transfer engine: step order\<close>

text \<open>
  Claim C4. Whenever \<open>spi0_xfer(tx, tx_len, rx, rx_len)\<close> returns, the register accesses
  it has made are, in this order: the burst counter written with \<open>tx_len + rx_len\<close>; the
  transfer counter written with \<open>tx_len\<close>; on the sun6i generation only, the secondary
  counter (BCC) written with \<open>tx_len\<close>; the \<open>tx_len\<close> transmit bytes written to the TX data
  register; the start bit set in the control register; one or more reads of the FIFO
  status register, each but the last with its low 7 bits below \<open>tx_len + rx_len\<close> and the
  last one not below it; exactly \<open>tx_len\<close> reads of the RX data register whose values are
  dropped; and exactly \<open>rx_len\<close> reads of the RX data register whose values are the
  received bytes.
\<close>

theorem C4_spi0_xfer_step_order:
  assumes "spi0_xfer cfg txbuf txlen rxlen s = Some (rx, s')"
  shows "\<exists>polls echo.
     trace s' = trace s @ [Call_spi0_xfer txbuf txlen rxlen] @
       (let base = spi0_base_address cfg
        in if is_sun6i_gen_spi cfg
           then transfer_steps (base + SUN6I_SPI0_MBC) (base + SUN6I_SPI0_MTC)
                  (Some (base + SUN6I_SPI0_BCC)) (base + SUN6I_SPI0_TXD)
                  (base + SUN6I_SPI0_TCR) SUN6I_TCR_XCH (base + SUN6I_SPI0_FIFO_STA)
                  (base + SUN6I_SPI0_RXD) (take (unat txlen) txbuf) txlen rxlen polls echo rx
           else transfer_steps (base + SUN4I_SPI0_BC) (base + SUN4I_SPI0_TC)
                  None (base + SUN4I_SPI0_TX)
                  (base + SUN4I_SPI0_CTL) SUN4I_CTL_XCH (base + SUN4I_SPI0_FIFO_STA)
                  (base + SUN4I_SPI0_RX) (take (unat txlen) txbuf) txlen rxlen polls echo rx)
     \<and> polls \<noteq> []
     \<and> (\<forall>v \<in> set (butlast polls). (v AND 0x7F) < txlen + rxlen)
     \<and> \<not> (last polls AND 0x7F) < txlen + rxlen
     \<and> length (take (unat txlen) txbuf) = unat txlen
     \<and> length echo = unat txlen \<and> length rx = unat rxlen"
proof (cases "is_sun6i_gen_spi cfg")
  case True
  with assms have "sunxi_spi0_xfer txbuf txlen rxlen
      (spi0_base_address cfg + SUN6I_SPI0_TCR) SUN6I_TCR_XCH (spi0_base_address cfg + SUN6I_SPI0_FIFO_STA)
      (spi0_base_address cfg + SUN6I_SPI0_TXD) (spi0_base_address cfg + SUN6I_SPI0_RXD)
      (spi0_base_address cfg + SUN6I_SPI0_MBC) (spi0_base_address cfg + SUN6I_SPI0_MTC)
      (spi0_base_address cfg + SUN6I_SPI0_BCC) (emit (Call_spi0_xfer txbuf txlen rxlen) s) = Some (rx, s')"
    by (simp add: spi0_xfer_def Let_def)
  from sunxi_spi0_xfer_Some [OF this] obtain polls and raw :: "u32 list" where
    x: "trace s' = trace (emit (Call_spi0_xfer txbuf txlen rxlen) s)
        @ transfer_steps (spi0_base_address cfg + SUN6I_SPI0_MBC) (spi0_base_address cfg + SUN6I_SPI0_MTC)
            (if spi0_base_address cfg + SUN6I_SPI0_BCC \<noteq> 0
             then Some (spi0_base_address cfg + SUN6I_SPI0_BCC) else None)
            (spi0_base_address cfg + SUN6I_SPI0_TXD) (spi0_base_address cfg + SUN6I_SPI0_TCR)
            SUN6I_TCR_XCH (spi0_base_address cfg + SUN6I_SPI0_FIFO_STA)
            (spi0_base_address cfg + SUN6I_SPI0_RXD) (take (unat txlen) txbuf) txlen rxlen polls
            (map ucast (take (unat txlen) raw)) rx"
      "polls \<noteq> []" "\<forall>v \<in> set (butlast polls). (v AND 0x7F) < txlen + rxlen"
      "\<not> (last polls AND 0x7F) < txlen + rxlen"
      "length raw = unat txlen + unat rxlen" "rx = map ucast (drop (unat txlen) raw)"
      "unat txlen \<le> length txbuf"
    by blast
  show ?thesis
    apply (rule exI [of _ polls])
    apply (rule exI [of _ "map ucast (take (unat txlen) raw)"])
    using x True spi0_bcc_nonzero [of cfg] apply (simp add: Let_def)
    done
next
  case False
  with assms have "sunxi_spi0_xfer txbuf txlen rxlen
      (spi0_base_address cfg + SUN4I_SPI0_CTL) SUN4I_CTL_XCH (spi0_base_address cfg + SUN4I_SPI0_FIFO_STA)
      (spi0_base_address cfg + SUN4I_SPI0_TX) (spi0_base_address cfg + SUN4I_SPI0_RX)
      (spi0_base_address cfg + SUN4I_SPI0_BC) (spi0_base_address cfg + SUN4I_SPI0_TC)
      0 (emit (Call_spi0_xfer txbuf txlen rxlen) s) = Some (rx, s')"
    by (simp add: spi0_xfer_def Let_def)
  from sunxi_spi0_xfer_Some [OF this] obtain polls and raw :: "u32 list" where
    x: "trace s' = trace (emit (Call_spi0_xfer txbuf txlen rxlen) s)
        @ transfer_steps (spi0_base_address cfg + SUN4I_SPI0_BC) (spi0_base_address cfg + SUN4I_SPI0_TC)
            (if (0::u32) \<noteq> 0 then Some 0 else None)
            (spi0_base_address cfg + SUN4I_SPI0_TX) (spi0_base_address cfg + SUN4I_SPI0_CTL)
            SUN4I_CTL_XCH (spi0_base_address cfg + SUN4I_SPI0_FIFO_STA)
            (spi0_base_address cfg + SUN4I_SPI0_RX) (take (unat txlen) txbuf) txlen rxlen polls
            (map ucast (take (unat txlen) raw)) rx"
      "polls \<noteq> []" "\<forall>v \<in> set (butlast polls). (v AND 0x7F) < txlen + rxlen"
      "\<not> (last polls AND 0x7F) < txlen + rxlen"
      "length raw = unat txlen + unat rxlen" "rx = map ucast (drop (unat txlen) raw)"
      "unat txlen \<le> length txbuf"
    by blast
  show ?thesis
    apply (rule exI [of _ polls])
    apply (rule exI [of _ "map ucast (take (unat txlen) raw)"])
    using x False apply (simp add: Let_def)
    done
qed

theorem C4_spi0_xfer_step_order_witness:
  "\<exists>s' polls echo.
     spi0_xfer wit_cfg [0x03, 0x00, 0x80, 0x00] 4 2
       (wit_hw [0, 3, 6, 0xFF, 0xFF, 0xFF, 0xFF, 0x27, 0x05]) = Some ([0x27, 0x05], s')
     \<and> trace s' = [Call_spi0_xfer [0x03, 0x00, 0x80, 0x00] 4 2] @
         transfer_steps 0x01C68030 0x01C68034 (Some 0x01C68038) 0x01C68200 0x01C68008 0x80000000
           0x01C6801C 0x01C68300 [0x03, 0x00, 0x80, 0x00] 4 2 polls echo [0x27, 0x05]
     \<and> polls \<noteq> [] \<and> length echo = 4"
proof -
  have "map_option fst (spi0_xfer wit_cfg [0x03, 0x00, 0x80, 0x00] 4 2
       (wit_hw [0, 3, 6, 0xFF, 0xFF, 0xFF, 0xFF, 0x27, 0x05])) = Some [0x27, 0x05]"
    by code_simp
  then obtain s' where x: "spi0_xfer wit_cfg [0x03, 0x00, 0x80, 0x00] 4 2
       (wit_hw [0, 3, 6, 0xFF, 0xFF, 0xFF, 0xFF, 0x27, 0x05]) = Some ([0x27, 0x05], s')"
    by auto
  have c: "is_sun6i_gen_spi wit_cfg" "spi0_base_address wit_cfg = 0x01C68000"
    by (simp_all add: is_sun6i_gen_spi_def spi0_base_address_def wit_cfg_def)
  from C4_spi0_xfer_step_order [OF x] show ?thesis
    using x by (simp add: c wit_hw_def reg_defs Let_def) blast
qed

section \<open>NOR read chunking\<close>



section \<open>Teardown on every exit path\<close>

text \<open>
  Claim C6. Whenever \<open>spl_spi_load_image\<close> returns, whatever the status, the status and
  the image information are those of \<open>spl_spi_try_load\<close>, and the hardware is the one
  \<open>spl_spi_try_load\<close> left with one \<open>spi0_deinit\<close> applied: the trace ends with the
  teardown events, which begin with the register clear that disables the controller and
  contain it once. If the header parser and the structured loader clear no register bits
  of their own, the register clears of the whole call are those of that one teardown, so
  the controller has been disabled exactly once more than before the call.
\<close>

theorem C6_teardown_on_every_exit:
  "(\<forall>ret spl_image' s'.
      spl_spi_load_image cfg ext spl_image bootdev s = Some (ret, spl_image', s') \<longrightarrow>
      (\<exists>s2 s3.
          spl_spi_try_load cfg ext spl_image bootdev
            (case bootdev of BOOT_DEVICE_SPI \<Rightarrow> spi_load_read_nor cfg
             | BOOT_DEVICE_SPINAND \<Rightarrow> spi_load_read_nand cfg)
            (max (sunxi_get_spl_size ext) (SYS_SPI_U_BOOT_OFFS cfg))
            (bootdev = BOOT_DEVICE_SPI) s2 = Some (ret, spl_image', s3)
          \<and> s' = spi0_deinit cfg s3
          \<and> trace s' = trace s3 @ teardown_events cfg
          \<and> input s' = input s3 \<and> mem s' = mem s3)
      \<and> ((\<forall>img bd hdr t.
             clrbits_of (trace (snd (snd (spl_parse_image_header ext img bd hdr t))))
               = clrbits_of (trace t))
          \<and> (\<forall>img off hdr t r img' t'.
               spl_load_simple_fit ext img
                 (case bootdev of BOOT_DEVICE_SPI \<Rightarrow> spi_load_read_nor cfg
                  | BOOT_DEVICE_SPINAND \<Rightarrow> spi_load_read_nand cfg) off hdr t
                 = Some (r, img', t') \<longrightarrow>
               clrbits_of (trace t') = clrbits_of (trace t)) \<longrightarrow>
          clrbits_of (trace s') = clrbits_of (trace s) @ clrbits_of (teardown_events cfg)
          \<and> count_list (trace s') (controller_disable cfg)
              = count_list (trace s) (controller_disable cfg) + 1))
   \<and> (\<forall>t. trace (spi0_deinit cfg t) = trace t @ teardown_events cfg)
   \<and> count_list (teardown_events cfg) (controller_disable cfg) = 1
   \<and> teardown_events cfg \<noteq> [] \<and> hd (teardown_events cfg) = controller_disable cfg"
proof (intro conjI allI impI)
  fix ret spl_image' s'
  assume a: "spl_spi_load_image cfg ext spl_image bootdev s = Some (ret, spl_image', s')"
  let ?read = "case bootdev of BOOT_DEVICE_SPI \<Rightarrow> spi_load_read_nor cfg
             | BOOT_DEVICE_SPINAND \<Rightarrow> spi_load_read_nand cfg"
  from load_image_teardown [OF a] obtain s1 s2 s3 where
    i: "spi0_init cfg s = Some s1"
    and r: "case bootdev of BOOT_DEVICE_SPI \<Rightarrow> s2 = s1
          | BOOT_DEVICE_SPINAND \<Rightarrow> spi0_nand_reset cfg s1 = Some s2"
    and t: "spl_spi_try_load cfg ext spl_image bootdev ?read
          (max (sunxi_get_spl_size ext) (SYS_SPI_U_BOOT_OFFS cfg))
          (bootdev = BOOT_DEVICE_SPI) s2 = Some (ret, spl_image', s3)"
    and s': "s' = spi0_deinit cfg s3"
    by blast
  have tr: "trace s' = trace s3 @ teardown_events cfg"
    by (simp add: s' spi0_deinit_trace)
  show "\<exists>s2 s3.
          spl_spi_try_load cfg ext spl_image bootdev ?read
            (max (sunxi_get_spl_size ext) (SYS_SPI_U_BOOT_OFFS cfg))
            (bootdev = BOOT_DEVICE_SPI) s2 = Some (ret, spl_image', s3)
          \<and> s' = spi0_deinit cfg s3
          \<and> trace s' = trace s3 @ teardown_events cfg
          \<and> input s' = input s3 \<and> mem s' = mem s3"
    using t s' tr by auto
  assume h: "(\<forall>img bd hdr t.
             clrbits_of (trace (snd (snd (spl_parse_image_header ext img bd hdr t))))
               = clrbits_of (trace t))
          \<and> (\<forall>img off hdr t r img' t'.
               spl_load_simple_fit ext img ?read off hdr t = Some (r, img', t') \<longrightarrow>
               clrbits_of (trace t') = clrbits_of (trace t))"
  have q1: "clrbits_of (trace s1) = clrbits_of (trace s)" by (rule spi0_init_quiet [OF i])
  have q2: "clrbits_of (trace s2) = clrbits_of (trace s1)"
    using r by (cases bootdev) (auto simp: spi0_nand_reset_quiet)
  have q3: "clrbits_of (trace s3) = clrbits_of (trace s2)"
  proof (rule try_load_quiet [where load_read = ?read, OF _ _ _ t])
    show "\<And>a b c u n u'. ?read a b c u = Some (n, u') \<Longrightarrow>
             clrbits_of (trace u') = clrbits_of (trace u)"
      by (rule device_read_quiet)
    show "\<And>img bd hdr t.
        clrbits_of (trace (snd (snd (spl_parse_image_header ext img bd hdr t)))) = clrbits_of (trace t)"
      using h by blast
    show "\<And>img off hdr t r img' t'.
        spl_load_simple_fit ext img ?read off hdr t = Some (r, img', t') \<Longrightarrow>
        clrbits_of (trace t') = clrbits_of (trace t)"
      using h by blast
  qed
  show c: "clrbits_of (trace s') = clrbits_of (trace s) @ clrbits_of (teardown_events cfg)"
    by (simp add: tr q1 q2 q3)
  have "count_list (trace s') (controller_disable cfg)
      = count_list (clrbits_of (trace s')) (controller_disable cfg)"
    by (simp add: count_clrbits_of)
  also have "\<dots> = count_list (clrbits_of (trace s)) (controller_disable cfg)
      + count_list (clrbits_of (teardown_events cfg)) (controller_disable cfg)"
    by (simp add: c)
  also have "\<dots> = count_list (trace s) (controller_disable cfg) + 1"
    by (simp add: count_clrbits_of teardown_events_disable(1))
  finally show "count_list (trace s') (controller_disable cfg)
              = count_list (trace s) (controller_disable cfg) + 1" .
next
  fix t show "trace (spi0_deinit cfg t) = trace t @ teardown_events cfg"
    by (rule spi0_deinit_trace)
next
  show "count_list (teardown_events cfg) (controller_disable cfg) = 1"
    "teardown_events cfg \<noteq> []" "hd (teardown_events cfg) = controller_disable cfg"
    by (rule teardown_events_disable)+
qed

theorem C6_teardown_on_every_exit_witness:
  "(\<exists>s'. spl_spi_load_image wit_cfg wit_ext wit_img BOOT_DEVICE_SPI
           (wit_hw (prompt_init wit_cfg @ prompt_read legacy_header @ prompt_read [1, 2, 3, 4]))
         = Some (0, \<lparr>size' = 4, load_addr = 0x42000000\<rparr>, s')
       \<and> count_list (trace s') (controller_disable wit_cfg) = 1)
   \<and> (\<exists>s'. spl_spi_load_image wit_cfg wit_ext wit_img BOOT_DEVICE_SPINAND
           (wit_hw (prompt_init wit_cfg @ prompt_xfer 1 [] @ prompt_switch (replicate 100 1)))
         = Some (- EINVAL, wit_img, s')
       \<and> count_list (trace s') (controller_disable wit_cfg) = 1)
   \<and> (\<exists>s'. spl_spi_load_image wit_cfg wit_ext wit_img BOOT_DEVICE_SPINAND
           (wit_hw (prompt_init wit_cfg @ prompt_xfer 1 [] @ prompt_nand wit_cfg 0x8000 raw_header))
         = Some (- EINVAL, wit_img, s')
       \<and> count_list (trace s') (controller_disable wit_cfg) = 1)
   \<and> (\<exists>s'. spl_spi_load_image wit_cfg wit_ext_fail wit_img BOOT_DEVICE_SPI
           (wit_hw (prompt_init wit_cfg @ prompt_read legacy_header))
         = Some (- 5, wit_img, s')
       \<and> count_list (trace s') (controller_disable wit_cfg) = 1)"
proof -
  have e: "input (wit_hw xs) = xs" "mem (wit_hw xs) = (\<lambda>a. 0)" "trace (wit_hw xs) = []" for xs
    by (simp_all add: wit_hw_def)
  have e': "input (wit_hw xs) = xs @ []" for xs
    by (simp add: wit_hw_def)
  have q: "(\<forall>img bd hdr t.
             clrbits_of (trace (snd (snd (spl_parse_image_header wit_ext img bd hdr t))))
               = clrbits_of (trace t))
          \<and> (\<forall>img off hdr t r img' t'.
               spl_load_simple_fit wit_ext img
                 (case bootdev of BOOT_DEVICE_SPI \<Rightarrow> spi_load_read_nor wit_cfg
                  | BOOT_DEVICE_SPINAND \<Rightarrow> spi_load_read_nand wit_cfg) off hdr t
                 = Some (r, img', t') \<longrightarrow>
               clrbits_of (trace t') = clrbits_of (trace t))" for bootdev
    by (auto simp: wit_ext_simps)
  have qf: "(\<forall>img bd hdr t.
             clrbits_of (trace (snd (snd (spl_parse_image_header wit_ext_fail img bd hdr t))))
               = clrbits_of (trace t))
          \<and> (\<forall>img off hdr t r img' t'.
               spl_load_simple_fit wit_ext_fail img
                 (case bootdev of BOOT_DEVICE_SPI \<Rightarrow> spi_load_read_nor wit_cfg
                  | BOOT_DEVICE_SPINAND \<Rightarrow> spi_load_read_nand wit_cfg) off hdr t
                 = Some (r, img', t') \<longrightarrow>
               clrbits_of (trace t') = clrbits_of (trace t))" for bootdev
    by (auto simp: wit_ext_fail_simps)
  \<comment> \<open>success\<close>
  from nor_legacy_boot [OF e(1,2)] obtain a3 where
    a: "spl_spi_load_image wit_cfg wit_ext wit_img BOOT_DEVICE_SPI
           (wit_hw (prompt_init wit_cfg @ prompt_read legacy_header @ prompt_read [1, 2, 3, 4]))
         = Some (0, \<lparr>size' = 4, load_addr = 0x42000000\<rparr>, spi0_deinit wit_cfg a3)"
    by blast
  note ta = C6_teardown_on_every_exit [where cfg = wit_cfg and ext = wit_ext
      and spl_image = wit_img and bootdev = BOOT_DEVICE_SPI
      and s = "wit_hw (prompt_init wit_cfg @ prompt_read legacy_header @ prompt_read [1, 2, 3, 4])",
      THEN conjunct1, rule_format, OF a, THEN conjunct2, rule_format, OF q, THEN conjunct2]
  have ca: "count_list (trace (spi0_deinit wit_cfg a3)) (controller_disable wit_cfg) = 1"
    using ta by (simp add: e(3))
  \<comment> \<open>the NAND chip stays busy\<close>
  from nand_timeout_boot [OF e(1,2)] obtain b3 where
    b: "spl_spi_load_image wit_cfg wit_ext wit_img BOOT_DEVICE_SPINAND
           (wit_hw (prompt_init wit_cfg @ prompt_xfer 1 [] @ prompt_switch (replicate 100 1)))
         = Some (- EINVAL, wit_img, spi0_deinit wit_cfg b3)"
    by blast
  note tb = C6_teardown_on_every_exit [where cfg = wit_cfg and ext = wit_ext
      and spl_image = wit_img and bootdev = BOOT_DEVICE_SPINAND
      and s = "wit_hw (prompt_init wit_cfg @ prompt_xfer 1 [] @ prompt_switch (replicate 100 1))",
      THEN conjunct1, rule_format, OF b, THEN conjunct2, rule_format, OF q, THEN conjunct2]
  have cb: "count_list (trace (spi0_deinit wit_cfg b3)) (controller_disable wit_cfg) = 1"
    using tb by (simp add: e(3))
  \<comment> \<open>no known magic, raw loading not allowed\<close>
  have ic: "input (wit_hw (prompt_init wit_cfg @ prompt_xfer 1 [] @ prompt_nand wit_cfg 0x8000 raw_header))
      = prompt_init wit_cfg @ prompt_xfer 1 [] @ prompt_nand wit_cfg 0x8000 raw_header @ []"
    by (simp add: wit_hw_def)
  from nand_reject_boot [OF ic e(2)] obtain c3 where
    c: "spl_spi_load_image wit_cfg wit_ext wit_img BOOT_DEVICE_SPINAND
           (wit_hw (prompt_init wit_cfg @ prompt_xfer 1 [] @ prompt_nand wit_cfg 0x8000 raw_header))
         = Some (- EINVAL, wit_img, spi0_deinit wit_cfg c3)"
    by blast
  note tc = C6_teardown_on_every_exit [where cfg = wit_cfg and ext = wit_ext
      and spl_image = wit_img and bootdev = BOOT_DEVICE_SPINAND
      and s = "wit_hw (prompt_init wit_cfg @ prompt_xfer 1 [] @ prompt_nand wit_cfg 0x8000 raw_header)",
      THEN conjunct1, rule_format, OF c, THEN conjunct2, rule_format, OF q, THEN conjunct2]
  have cc: "count_list (trace (spi0_deinit wit_cfg c3)) (controller_disable wit_cfg) = 1"
    using tc by (simp add: e(3))
  \<comment> \<open>the header parser fails\<close>
  have idd: "input (wit_hw (prompt_init wit_cfg @ prompt_read legacy_header))
      = prompt_init wit_cfg @ prompt_read legacy_header @ []"
    by (simp add: wit_hw_def)
  from nor_parse_fail_boot [OF idd e(2)] obtain d3 where
    d: "spl_spi_load_image wit_cfg wit_ext_fail wit_img BOOT_DEVICE_SPI
           (wit_hw (prompt_init wit_cfg @ prompt_read legacy_header))
         = Some (- 5, wit_img, spi0_deinit wit_cfg d3)"
    by blast
  note td = C6_teardown_on_every_exit [where cfg = wit_cfg and ext = wit_ext_fail
      and spl_image = wit_img and bootdev = BOOT_DEVICE_SPI
      and s = "wit_hw (prompt_init wit_cfg @ prompt_read legacy_header)",
      THEN conjunct1, rule_format, OF d, THEN conjunct2, rule_format, OF qf, THEN conjunct2]
  have cd: "count_list (trace (spi0_deinit wit_cfg d3)) (controller_disable wit_cfg) = 1"
    using td by (simp add: e(3))
  show ?thesis
    using a ca b cb c cc d cd by blast
qed

section \<open>Header read before classification\<close>

text \<open>
  Claim C7. \<open>spl_spi_try_load\<close> begins with one call of the read function for \<open>0x40\<close>
  bytes at the load offset into the header buffer at \<open>CONFIG_TEXT_BASE\<close>: if that call
  does not return, nothing else happens, and every result of \<open>spl_spi_try_load\<close> comes
  after a header read that returned. When the header read returns 0 the result is
  \<open>-EINVAL\<close> with the image information untouched and the hardware left as the header read
  left it, whatever the magic numbers, the image loaders, the later behaviour of the read
  function and \<open>allow_raw\<close> are. A header read through the NOR or the NAND read function
  that returns a nonzero count has stored exactly 64 bytes. At the top level, a NAND header
  read at \<open>max(sunxi_get_spl_size(), CONFIG_SYS_SPI_U_BOOT_OFFS)\<close> that returns 0 makes
  \<open>spl_spi_load_image\<close> return \<open>-EINVAL\<close>.
\<close>

theorem C7_header_read_precondition:
  "(load_read offset 0x40 (TEXT_BASE cfg) s = None \<longrightarrow>
      spl_spi_try_load cfg ext spl_image bootdev load_read offset allow_raw s = None)
   \<and> (\<forall>ret spl_image' s'.
        spl_spi_try_load cfg ext spl_image bootdev load_read offset allow_raw s
          = Some (ret, spl_image', s') \<longrightarrow>
        (\<exists>n s1. load_read offset 0x40 (TEXT_BASE cfg) s = Some (n, s1)))
   \<and> (\<forall>s1. load_read offset 0x40 (TEXT_BASE cfg) s = Some (0, s1) \<longrightarrow>
        spl_spi_try_load cfg ext spl_image bootdev load_read offset allow_raw s
          = Some (- EINVAL, spl_image, s1)
        \<and> (\<forall>ext' load_read' allow_raw'.
              load_read' offset 0x40 (TEXT_BASE cfg) s = Some (0, s1) \<longrightarrow>
              spl_spi_try_load cfg ext' spl_image bootdev load_read' offset allow_raw' s
                = Some (- EINVAL, spl_image, s1)))
   \<and> - EINVAL \<noteq> 0
   \<and> (\<forall>n s1. spi_load_read_nor cfg offset 0x40 (TEXT_BASE cfg) s = Some (n, s1) \<longrightarrow>
        n = 0x40 \<and> (\<exists>data. length data = 64
                        \<and> mem s1 = store_bytes (TEXT_BASE cfg) data (mem s)))
   \<and> (\<forall>n s1. spi_load_read_nand cfg offset 0x40 (TEXT_BASE cfg) s = Some (n, s1) \<and> n \<noteq> 0 \<longrightarrow>
        n = 0x40 \<and> (\<exists>data. length data = 64
                        \<and> mem s1 = store_bytes (TEXT_BASE cfg) data (mem s)))
   \<and> (\<forall>s1 s2 s3. spi0_init cfg s = Some s1 \<and> spi0_nand_reset cfg s1 = Some s2
          \<and> spi_load_read_nand cfg (max (sunxi_get_spl_size ext) (SYS_SPI_U_BOOT_OFFS cfg)) 0x40
                (TEXT_BASE cfg) s2 = Some (0, s3) \<longrightarrow>
        spl_spi_load_image cfg ext spl_image BOOT_DEVICE_SPINAND s
          = Some (- EINVAL, spl_image, spi0_deinit cfg s3))"
proof (intro conjI allI impI)
  assume "load_read offset 0x40 (TEXT_BASE cfg) s = None"
  then show "spl_spi_try_load cfg ext spl_image bootdev load_read offset allow_raw s = None"
    by (simp add: spl_spi_try_load_def)
next
  fix ret spl_image' s'
  assume "spl_spi_try_load cfg ext spl_image bootdev load_read offset allow_raw s
          = Some (ret, spl_image', s')"
  then show "\<exists>n s1. load_read offset 0x40 (TEXT_BASE cfg) s = Some (n, s1)"
    by (rule try_load_Some_header)
next
  fix s1
  assume "load_read offset 0x40 (TEXT_BASE cfg) s = Some (0, s1)"
  then show "spl_spi_try_load cfg ext spl_image bootdev load_read offset allow_raw s
          = Some (- EINVAL, spl_image, s1)"
    by (rule try_load_header_zero)
next
  fix s1 ext' allow_raw' and load_read' :: load_read
  assume "load_read' offset 0x40 (TEXT_BASE cfg) s = Some (0, s1)"
  then show "spl_spi_try_load cfg ext' spl_image bootdev load_read' offset allow_raw' s
                = Some (- EINVAL, spl_image, s1)"
    by (rule try_load_header_zero)
next
  show "- EINVAL \<noteq> 0" by (rule EINVAL_nonzero)
next
  fix n s1
  assume a: "spi_load_read_nor cfg offset 0x40 (TEXT_BASE cfg) s = Some (n, s1)"
  from nor_read_Some [OF a] show "n = 0x40"
    "\<exists>data. length data = 64 \<and> mem s1 = store_bytes (TEXT_BASE cfg) data (mem s)"
    by simp_all
next
  fix n s1
  assume a: "spi_load_read_nand cfg offset 0x40 (TEXT_BASE cfg) s = Some (n, s1) \<and> n \<noteq> 0"
  then have a1: "spi_load_read_nand cfg offset 0x40 (TEXT_BASE cfg) s = Some (n, s1)"
    and a2: "n \<noteq> 0" by simp_all
  from nand_read_nonzero [OF a1 a2] show "n = 0x40"
    "\<exists>data. length data = 64 \<and> mem s1 = store_bytes (TEXT_BASE cfg) data (mem s)"
    by simp_all
next
  fix s1 s2 s3
  assume a: "spi0_init cfg s = Some s1 \<and> spi0_nand_reset cfg s1 = Some s2
          \<and> spi_load_read_nand cfg (max (sunxi_get_spl_size ext) (SYS_SPI_U_BOOT_OFFS cfg)) 0x40
                (TEXT_BASE cfg) s2 = Some (0, s3)"
  then have "spl_spi_try_load cfg ext spl_image BOOT_DEVICE_SPINAND (spi_load_read_nand cfg)
           (load_offset cfg ext) False s2 = Some (- EINVAL, spl_image, s3)"
    by (intro try_load_header_zero) (simp add: load_offset_def)
  with a show "spl_spi_load_image cfg ext spl_image BOOT_DEVICE_SPINAND s
          = Some (- EINVAL, spl_image, spi0_deinit cfg s3)"
    by (intro load_image_nand [where ?s1.0 = s1 and ?s2.0 = s2]) simp_all
qed

theorem C7_header_read_precondition_witness:
  "\<exists>s3. spl_spi_load_image wit_cfg wit_ext wit_img BOOT_DEVICE_SPINAND
           (wit_hw (prompt_init wit_cfg @ prompt_xfer 1 [] @ prompt_switch (replicate 100 1)))
         = Some (- EINVAL, wit_img, spi0_deinit wit_cfg s3)
      \<and> spl_spi_try_load wit_cfg wit_ext wit_img BOOT_DEVICE_SPINAND (spi_load_read_nand wit_cfg)
           0x8000 False s3 = None
      \<and> mem s3 = (\<lambda>a. 0) \<and> input s3 = []"
proof -
  define s where "s = wit_hw (prompt_init wit_cfg @ prompt_xfer 1 [] @ prompt_switch (replicate 100 1))"
  have ps: "SPL_SPINAND_PAGE_SIZE wit_cfg = 2048" by (simp add: wit_cfg_def)
  have psnz: "SPL_SPINAND_PAGE_SIZE wit_cfg \<noteq> 0" by (simp add: ps)
  have off: "max (sunxi_get_spl_size wit_ext) (SYS_SPI_U_BOOT_OFFS wit_cfg) = 0x8000"
    by (simp add: wit_ext_def wit_cfg_def)
  have i: "input s = prompt_init wit_cfg @ (prompt_xfer 1 [] @ prompt_switch (replicate 100 1))"
    "mem s = (\<lambda>a. 0)"
    by (simp_all add: s_def wit_hw_def)
  from spi0_init_prompt [OF i(1)] obtain s1 where
    s1: "spi0_init wit_cfg s = Some s1"
      "input s1 = prompt_xfer 1 [] @ prompt_switch (replicate 100 1)" "mem s1 = mem s"
    by blast
  from spi0_nand_reset_prompt [OF s1(2), of wit_cfg] obtain s2 where
    s2: "spi0_nand_reset wit_cfg s1 = Some s2" "input s2 = prompt_switch (replicate 100 1)"
      "mem s2 = mem s1"
    by blast
  have i2: "input s2 = prompt_switch (replicate 100 1) @ []" by (simp add: s2(2))
  from switch_page_timeout_prompt [OF i2, of wit_cfg "0x8000 div SPL_SPINAND_PAGE_SIZE wit_cfg"]
  obtain s3 where
    s3: "spi0_nand_switch_page wit_cfg (0x8000 div SPL_SPINAND_PAGE_SIZE wit_cfg) s2
           = Some (- ETIMEDOUT, s3)" "input s3 = []" "mem s3 = mem s2"
    by auto
  have tnz: "- ETIMEDOUT \<noteq> 0" by (simp add: ETIMEDOUT_def)
  have c: "(0x40 :: u32) \<noteq> 0" by simp
  have rd: "spi_load_read_nand wit_cfg 0x8000 0x40 (TEXT_BASE wit_cfg) s2 = Some (0, s3)"
    by (rule nand_read_abort [OF c psnz s3(1) tnz])
  note t = C7_header_read_precondition [where cfg = wit_cfg and ext = wit_ext and s = s
      and spl_image = wit_img]
  note t7 = t [THEN conjunct2, THEN conjunct2, THEN conjunct2, THEN conjunct2, THEN conjunct2,
      THEN conjunct2, rule_format]
  have h: "spi0_init wit_cfg s = Some s1 \<and> spi0_nand_reset wit_cfg s1 = Some s2
          \<and> spi_load_read_nand wit_cfg (max (sunxi_get_spl_size wit_ext) (SYS_SPI_U_BOOT_OFFS wit_cfg))
                0x40 (TEXT_BASE wit_cfg) s2 = Some (0, s3)"
    by (simp add: s1(1) s2(1) off rd)
  have r: "spl_spi_load_image wit_cfg wit_ext wit_img BOOT_DEVICE_SPINAND s
          = Some (- EINVAL, wit_img, spi0_deinit wit_cfg s3)"
    by (rule t7 [OF h])
  have "spi_load_read_nand wit_cfg 0x8000 0x40 (TEXT_BASE wit_cfg) s3 = None"
    by (rule nand_read_no_input [OF s3(2) c psnz])
  then have n: "spl_spi_try_load wit_cfg wit_ext wit_img BOOT_DEVICE_SPINAND (spi_load_read_nand wit_cfg)
           0x8000 False s3 = None"
    using C7_header_read_precondition [where cfg = wit_cfg and ext = wit_ext and s = s3
      and spl_image = wit_img and load_read = "spi_load_read_nand wit_cfg" and offset = "0x8000"
      and bootdev = BOOT_DEVICE_SPINAND and allow_raw = False, THEN conjunct1]
    by simp
  have "mem s3 = (\<lambda>a. 0)" by (simp only: s3(3) s2(3) s1(3) i(2))
  then show ?thesis
    using r n s3(2) unfolding s_def by blast
qed

section \<open>Command framing\<close>

text \<open>
  Claim C8. The command bytes of the three kinds of flash command. A NOR read sends, for
  chunk \<open>k\<close>, the four bytes 03h and the low three bytes of the chunk's address, most
  significant first. A NAND data read sends 03h, the low two bytes of the column address,
  most significant first, and a zero byte. A page switch sends 13h and the low three bytes
  of the page index, most significant first, and every iteration of the NAND read switches
  to page \<open>sector / page size\<close> and reads at column \<open>sector % page size\<close>.
  \<open>be_bytes n x\<close> is the big-endian representation of \<open>x mod 256 ^ n\<close> in \<open>n\<close> bytes.
\<close>

theorem C8_command_framing:
  "(\<forall>r s'. spi_load_read_nor cfg sector count buf s = Some (r, s') \<longrightarrow>
      outline (trace s') = outline (trace s) @ Call_spi0_read_data buf sector count 3 #
        concat (map (\<lambda>k. [Call_spi0_xfer (0x03 # be_bytes 3 (unat (sector + of_nat (60 * k)))) 4
                             (chunk_len count k), Udelay 1]) [0..<chunk_count count]))
   \<and> (\<forall>s'. spi0_read_data cfg buf addr len 2 s = Some s' \<longrightarrow>
      outline (trace s') = outline (trace s) @ Call_spi0_read_data buf addr len 2 #
        concat (map (\<lambda>k. [Call_spi0_xfer (0x03 # be_bytes 2 (unat (addr + of_nat (60 * k))) @ [0]) 4
                             (chunk_len len k), Udelay 1]) [0..<chunk_count len]))
   \<and> (\<forall>r s'. spi0_nand_switch_page cfg page s = Some (r, s') \<longrightarrow>
      (\<exists>bufs. (\<forall>b \<in> set bufs. take 2 b = [0x0f, 0xc0]) \<and>
         outline (trace s') = outline (trace s) @ Call_spi0_nand_switch_page page #
           Call_spi0_xfer (0x13 # be_bytes 3 (unat page)) 4 0 # poll_outline bufs))
   \<and> (\<forall>count sector remain r s'.
         spi_load_read_nand_loop cfg count sector remain buf s = Some (r, s')
         \<and> remain \<noteq> 0 \<and> remain \<le> count \<longrightarrow>
      (\<exists>bufs rest. outline (trace s') = outline (trace s) @
           Call_spi0_nand_switch_page (of_nat (sector div unat (SPL_SPINAND_PAGE_SIZE cfg))) #
           Call_spi0_xfer (0x13 # be_bytes 3 (sector div unat (SPL_SPINAND_PAGE_SIZE cfg))) 4 0 #
           poll_outline bufs @ rest
         \<and> (rest = [] \<or> (\<exists>tail. rest =
               Call_spi0_read_data buf (of_nat (sector mod unat (SPL_SPINAND_PAGE_SIZE cfg)))
                 (of_nat (min remain (unat (SPL_SPINAND_PAGE_SIZE cfg)
                                        - sector mod unat (SPL_SPINAND_PAGE_SIZE cfg)))) 2 #
               read_outline 2 (of_nat (sector mod unat (SPL_SPINAND_PAGE_SIZE cfg)))
                 (of_nat (min remain (unat (SPL_SPINAND_PAGE_SIZE cfg)
                                        - sector mod unat (SPL_SPINAND_PAGE_SIZE cfg))))
               @ tail))))
   \<and> (\<forall>sector count r s'.
         spi_load_read_nand cfg sector count buf s = Some (r, s') \<and> count \<noteq> 0 \<longrightarrow>
      (\<exists>bufs rest. outline (trace s') = outline (trace s) @
           Call_spi0_nand_switch_page (sector div SPL_SPINAND_PAGE_SIZE cfg) #
           Call_spi0_xfer (0x13 # be_bytes 3 (unat (sector div SPL_SPINAND_PAGE_SIZE cfg))) 4 0 #
           poll_outline bufs @ rest))
   \<and> (\<forall>sector count r s'.
         spi_load_read_nand cfg sector count buf s = Some (r, s') \<and> r \<noteq> 0 \<longrightarrow>
         page_ops (trace s') = page_ops (trace s) @ nand_cycles cfg (unat sector) (unat count) buf)
   \<and> length (be_bytes n x) = n
   \<and> foldl (\<lambda>acc b. 256 * acc + unat b) 0 (be_bytes n x) = x mod 256 ^ n"
proof (intro conjI allI impI)
  fix r s'
  assume "spi_load_read_nor cfg sector count buf s = Some (r, s')"
  then have "spi0_read_data cfg buf sector count 3 s = Some s'"
    by (auto simp: spi_load_read_nor_def split: option.splits)
  from spi0_read_data_Some(1) [OF this]
  show "outline (trace s') = outline (trace s) @ Call_spi0_read_data buf sector count 3 #
        concat (map (\<lambda>k. [Call_spi0_xfer (0x03 # be_bytes 3 (unat (sector + of_nat (60 * k)))) 4
                             (chunk_len count k), Udelay 1]) [0..<chunk_count count])"
    by (simp add: read_outline_def data_read_cmd_def)
next
  fix s'
  assume "spi0_read_data cfg buf addr len 2 s = Some s'"
  from spi0_read_data_Some(1) [OF this]
  show "outline (trace s') = outline (trace s) @ Call_spi0_read_data buf addr len 2 #
        concat (map (\<lambda>k. [Call_spi0_xfer (0x03 # be_bytes 2 (unat (addr + of_nat (60 * k))) @ [0]) 4
                             (chunk_len len k), Udelay 1]) [0..<chunk_count len])"
    by (simp add: read_outline_def data_read_cmd_def)
next
  fix r s'
  assume "spi0_nand_switch_page cfg page s = Some (r, s')"
  from spi0_nand_switch_page_Some [OF this]
  show "\<exists>bufs. (\<forall>b \<in> set bufs. take 2 b = [0x0f, 0xc0]) \<and>
         outline (trace s') = outline (trace s) @ Call_spi0_nand_switch_page page #
           Call_spi0_xfer (0x13 # be_bytes 3 (unat page)) 4 0 # poll_outline bufs"
    by blast
next
  fix count sector remain r s'
  assume a: "spi_load_read_nand_loop cfg count sector remain buf s = Some (r, s')
         \<and> remain \<noteq> 0 \<and> remain \<le> count"
  then have a1: "spi_load_read_nand_loop cfg count sector remain buf s = Some (r, s')"
    and a2: "remain \<noteq> 0" and a3: "remain \<le> count"
    by blast+
  from nand_loop_first_cycle [OF a1 a2 a3]
  show "\<exists>bufs rest. outline (trace s') = outline (trace s) @
           Call_spi0_nand_switch_page (of_nat (sector div unat (SPL_SPINAND_PAGE_SIZE cfg))) #
           Call_spi0_xfer (0x13 # be_bytes 3 (sector div unat (SPL_SPINAND_PAGE_SIZE cfg))) 4 0 #
           poll_outline bufs @ rest
         \<and> (rest = [] \<or> (\<exists>tail. rest =
               Call_spi0_read_data buf (of_nat (sector mod unat (SPL_SPINAND_PAGE_SIZE cfg)))
                 (of_nat (min remain (unat (SPL_SPINAND_PAGE_SIZE cfg)
                                        - sector mod unat (SPL_SPINAND_PAGE_SIZE cfg)))) 2 #
               read_outline 2 (of_nat (sector mod unat (SPL_SPINAND_PAGE_SIZE cfg)))
                 (of_nat (min remain (unat (SPL_SPINAND_PAGE_SIZE cfg)
                                        - sector mod unat (SPL_SPINAND_PAGE_SIZE cfg))))
               @ tail))"
    by blast
next
  fix sector count r s'
  assume a: "spi_load_read_nand cfg sector count buf s = Some (r, s') \<and> count \<noteq> 0"
  then obtain n where
    l: "spi_load_read_nand_loop cfg (unat count) (unat sector) (unat count) buf s = Some (n, s')"
    by (auto simp: spi_load_read_nand_def split: option.splits)
  have c: "unat count \<noteq> 0" using a by (simp add: unat_eq_zero)
  have p: "(of_nat (unat sector div unat (SPL_SPINAND_PAGE_SIZE cfg)) :: u32)
             = sector div SPL_SPINAND_PAGE_SIZE cfg"
    by (simp add: unat_div [symmetric])
  have q: "unat sector div unat (SPL_SPINAND_PAGE_SIZE cfg)
             = unat (sector div SPL_SPINAND_PAGE_SIZE cfg)"
    by (simp add: unat_div)
  from nand_loop_first_cycle [OF l c order_refl] obtain bufs rest where
    o: "outline (trace s') = outline (trace s) @
           Call_spi0_nand_switch_page (of_nat (unat sector div unat (SPL_SPINAND_PAGE_SIZE cfg))) #
           Call_spi0_xfer (0x13 # be_bytes 3 (unat sector div unat (SPL_SPINAND_PAGE_SIZE cfg))) 4 0 #
           poll_outline bufs @ rest"
    by blast
  have "outline (trace s') = outline (trace s) @
           Call_spi0_nand_switch_page (sector div SPL_SPINAND_PAGE_SIZE cfg) #
           Call_spi0_xfer (0x13 # be_bytes 3 (unat (sector div SPL_SPINAND_PAGE_SIZE cfg))) 4 0 #
           poll_outline bufs @ rest"
    using o unfolding p by (simp only: q)
  then show "\<exists>bufs rest. outline (trace s') = outline (trace s) @
           Call_spi0_nand_switch_page (sector div SPL_SPINAND_PAGE_SIZE cfg) #
           Call_spi0_xfer (0x13 # be_bytes 3 (unat (sector div SPL_SPINAND_PAGE_SIZE cfg))) 4 0 #
           poll_outline bufs @ rest"
    by blast
next
  fix sector count r s'
  assume "spi_load_read_nand cfg sector count buf s = Some (r, s') \<and> r \<noteq> 0"
  then show "page_ops (trace s') = page_ops (trace s) @ nand_cycles cfg (unat sector) (unat count) buf"
    using nand_read_page_ops by blast
next
  show "length (be_bytes n x) = n" by simp
next
  show "foldl (\<lambda>acc b. 256 * acc + unat b) 0 (be_bytes n x) = x mod 256 ^ n"
    by (rule be_bytes_decode)
qed

theorem C8_command_framing_witness:
  "(\<exists>s'. spi_load_read_nor wit_cfg 0x012345 2 0x4A000000 (wit_hw (prompt_read [0xAA, 0xBB]))
            = Some (2, s')
       \<and> outline (trace s') =
            [Call_spi0_read_data 0x4A000000 0x012345 2 3,
             Call_spi0_xfer [0x03, 0x01, 0x23, 0x45] 4 2, Udelay 1])
   \<and> (\<exists>s'. spi0_read_data wit_cfg 0x4A000000 0x0123 2 2 (wit_hw (prompt_read [0xAA, 0xBB]))
            = Some s'
       \<and> outline (trace s') =
            [Call_spi0_read_data 0x4A000000 0x0123 2 2,
             Call_spi0_xfer [0x03, 0x01, 0x23, 0x00] 4 2, Udelay 1])
   \<and> (\<exists>s' bufs. spi0_nand_switch_page wit_cfg 0x010203 (wit_hw (prompt_switch [0])) = Some (0, s')
       \<and> outline (trace s') =
            Call_spi0_nand_switch_page 0x010203 # Call_spi0_xfer [0x13, 0x01, 0x02, 0x03] 4 0 #
            poll_outline bufs)
   \<and> (\<exists>s' bufs rest. spi_load_read_nand_loop wit_cfg 2 4101 2 0x4A000000
              (wit_hw (prompt_nand wit_cfg 4101 [0xAA, 0xBB])) = Some (2, s')
       \<and> outline (trace s') =
            Call_spi0_nand_switch_page 2 # Call_spi0_xfer [0x13, 0x00, 0x00, 0x02] 4 0 #
            poll_outline bufs @ rest
       \<and> (rest = [] \<or> (\<exists>tail. rest = Call_spi0_read_data 0x4A000000 5 2 2 #
              Call_spi0_xfer [0x03, 0x00, 0x05, 0x00] 4 2 # Udelay 1 # tail)))
   \<and> (\<exists>s' bufs rest. spi_load_read_nand_loop wit_cfg64 2 0x100000000 1 0x4A000001
              (wit_hw (prompt_nand wit_cfg64 0x100000000 [0xBB])) = Some (2, s')
       \<and> outline (trace s') =
            Call_spi0_nand_switch_page 0x200000 # Call_spi0_xfer [0x13, 0x20, 0x00, 0x00] 4 0 #
            poll_outline bufs @ rest)
   \<and> (\<exists>s'. spi_load_read_nand wit_cfg64 0xFFFFFFFF 2 0x4A000000
              (wit_hw (prompt_nand wit_cfg64 0xFFFFFFFF [0xAA, 0xBB])) = Some (2, s')
       \<and> page_ops (trace s') =
          [Call_spi0_nand_switch_page 0x1FFFFF, Call_spi0_read_data 0x4A000000 2047 1 2,
           Call_spi0_nand_switch_page 0x200000, Call_spi0_read_data 0x4A000001 0 1 2])"
proof -
  have ps: "SPL_SPINAND_PAGE_SIZE wit_cfg = 2048" by (simp add: wit_cfg_def)
  have n: "chunk_count 2 = 1" by (simp add: chunk_count_def)
  have l2: "length [0xAA, 0xBB :: u8] = unat (2 :: u32)" by simp
  have e: "trace (wit_hw xs) = []" "input (wit_hw xs) = xs @ []" for xs
    by (simp_all add: wit_hw_def)
  \<comment> \<open>NOR read\<close>
  note a = C8_command_framing [where cfg = wit_cfg and sector = "0x012345" and count = 2
      and buf = "0x4A000000" and s = "wit_hw (prompt_read [0xAA, 0xBB])" and addr = "0x0123"
      and len = 2]
  note a1 = a [THEN conjunct1, rule_format]
  from spi0_read_data_prompt [OF e(2) l2, of wit_cfg "0x4A000000" "0x012345" 3]
  obtain s1 where "spi0_read_data wit_cfg 0x4A000000 0x012345 2 3 (wit_hw (prompt_read [0xAA, 0xBB])) = Some s1"
    by blast
  then have x1: "spi_load_read_nor wit_cfg 0x012345 2 0x4A000000 (wit_hw (prompt_read [0xAA, 0xBB]))
            = Some (2, s1)"
    by (simp add: spi_load_read_nor_def)
  have o1: "outline (trace s1) =
            [Call_spi0_read_data 0x4A000000 0x012345 2 3,
             Call_spi0_xfer [0x03, 0x01, 0x23, 0x45] 4 2, Udelay 1]"
    using a1 [OF x1] by (simp add: n e(1) be_bytes_3 chunk_len_def)
  \<comment> \<open>NAND data read\<close>
  note a2 = a [THEN conjunct2, THEN conjunct1, rule_format]
  from spi0_read_data_prompt [OF e(2) l2, of wit_cfg "0x4A000000" "0x0123" 2]
  obtain s2 where x2: "spi0_read_data wit_cfg 0x4A000000 0x0123 2 2 (wit_hw (prompt_read [0xAA, 0xBB])) = Some s2"
    by blast
  have o2: "outline (trace s2) =
            [Call_spi0_read_data 0x4A000000 0x0123 2 2,
             Call_spi0_xfer [0x03, 0x01, 0x23, 0x00] 4 2, Udelay 1]"
    using a2 [OF x2] by (simp add: n e(1) be_bytes_2 chunk_len_def)
  \<comment> \<open>page switch\<close>
  note b = C8_command_framing [where cfg = wit_cfg and s = "wit_hw (prompt_switch [0])"
      and page = "0x010203"]
  note b3 = b [THEN conjunct2, THEN conjunct2, THEN conjunct1, rule_format]
  have i3: "input (wit_hw (prompt_switch [0])) = prompt_switch ([] @ [0]) @ []"
    by (simp add: wit_hw_def)
  from switch_page_ready_prompt [OF i3, of wit_cfg "0x010203"]
  obtain s3 where x3: "spi0_nand_switch_page wit_cfg 0x010203 (wit_hw (prompt_switch [0])) = Some (0, s3)"
    by auto
  from b3 [OF x3] obtain bufs3 where
    "outline (trace s3) = outline (trace (wit_hw (prompt_switch [0]))) @
        Call_spi0_nand_switch_page 0x010203 #
        Call_spi0_xfer (0x13 # be_bytes 3 (unat (0x010203 :: u32))) 4 0 # poll_outline bufs3"
    by blast
  then have o3: "outline (trace s3) =
            Call_spi0_nand_switch_page 0x010203 # Call_spi0_xfer [0x13, 0x01, 0x02, 0x03] 4 0 #
            poll_outline bufs3"
    by (simp add: e(1) be_bytes_3)
  \<comment> \<open>one iteration of the NAND read\<close>
  note c = C8_command_framing [where cfg = wit_cfg and buf = "0x4A000000"
      and s = "wit_hw (prompt_nand wit_cfg 4101 [0xAA, 0xBB])"]
  note c4 = c [THEN conjunct2, THEN conjunct2, THEN conjunct2, THEN conjunct1, rule_format]
  have psnz: "SPL_SPINAND_PAGE_SIZE wit_cfg \<noteq> 0" by (simp add: ps)
  have l2n: "length [0xAA, 0xBB :: u8] = 2" by simp
  from spi_load_read_nand_loop_prompt [OF e(2) [of "prompt_nand wit_cfg 4101 [0xAA, 0xBB]"] l2n psnz,
      where count = 2 and buf = "0x4A000000"]
  obtain s4 where x4: "spi_load_read_nand_loop wit_cfg 2 4101 2 0x4A000000
              (wit_hw (prompt_nand wit_cfg 4101 [0xAA, 0xBB])) = Some (2, s4)"
    by blast
  have h4: "spi_load_read_nand_loop wit_cfg 2 4101 2 0x4A000000
              (wit_hw (prompt_nand wit_cfg 4101 [0xAA, 0xBB])) = Some (2, s4)
         \<and> (2 :: nat) \<noteq> 0 \<and> (2 :: nat) \<le> 2"
    using x4 by simp
  from c4 [OF h4] obtain bufs4 rest4 where
    o4: "outline (trace s4) = outline (trace (wit_hw (prompt_nand wit_cfg 4101 [0xAA, 0xBB]))) @
           Call_spi0_nand_switch_page (of_nat (4101 div unat (SPL_SPINAND_PAGE_SIZE wit_cfg))) #
           Call_spi0_xfer (0x13 # be_bytes 3 (4101 div unat (SPL_SPINAND_PAGE_SIZE wit_cfg))) 4 0 #
           poll_outline bufs4 @ rest4"
      "rest4 = [] \<or> (\<exists>tail. rest4 =
               Call_spi0_read_data 0x4A000000 (of_nat (4101 mod unat (SPL_SPINAND_PAGE_SIZE wit_cfg)))
                 (of_nat (min 2 (unat (SPL_SPINAND_PAGE_SIZE wit_cfg)
                                   - 4101 mod unat (SPL_SPINAND_PAGE_SIZE wit_cfg)))) 2 #
               read_outline 2 (of_nat (4101 mod unat (SPL_SPINAND_PAGE_SIZE wit_cfg)))
                 (of_nat (min 2 (unat (SPL_SPINAND_PAGE_SIZE wit_cfg)
                                   - 4101 mod unat (SPL_SPINAND_PAGE_SIZE wit_cfg))))
               @ tail)"
    by blast
  have o4a: "outline (trace s4) =
            Call_spi0_nand_switch_page 2 # Call_spi0_xfer [0x13, 0x00, 0x00, 0x02] 4 0 #
            poll_outline bufs4 @ rest4"
    using o4(1) by (simp add: e(1) ps be_bytes_3)
  have ro: "read_outline 2 5 2 = [Call_spi0_xfer [0x03, 0x00, 0x05, 0x00] 4 2, Udelay 1]"
    by (simp add: read_outline_def n data_read_cmd_def be_bytes_2 chunk_len_def)
  have o4b: "rest4 = [] \<or> (\<exists>tail. rest4 = Call_spi0_read_data 0x4A000000 5 2 2 #
              Call_spi0_xfer [0x03, 0x00, 0x05, 0x00] 4 2 # Udelay 1 # tail)"
    using o4(2) by (simp add: ps ro)
  \<comment> \<open>the iteration past \<open>2^32\<close> on the 64-bit build\<close>
  have ps64: "SPL_SPINAND_PAGE_SIZE wit_cfg64 = 2048" by (simp add: wit_cfg64_def)
  have psnz64: "SPL_SPINAND_PAGE_SIZE wit_cfg64 \<noteq> 0" by (simp add: ps64)
  note d = C8_command_framing [where cfg = wit_cfg64 and buf = "0x4A000001"
      and s = "wit_hw (prompt_nand wit_cfg64 0x100000000 [0xBB])"]
  note d4 = d [THEN conjunct2, THEN conjunct2, THEN conjunct2, THEN conjunct1, rule_format]
  have l1n: "length [0xBB :: u8] = 1" by simp
  from spi_load_read_nand_loop_prompt [OF e(2) [of "prompt_nand wit_cfg64 0x100000000 [0xBB]"] l1n psnz64,
      where count = 2 and buf = "0x4A000001"]
  obtain s5 where x5: "spi_load_read_nand_loop wit_cfg64 2 0x100000000 1 0x4A000001
              (wit_hw (prompt_nand wit_cfg64 0x100000000 [0xBB])) = Some (2, s5)"
    by blast
  have h5: "spi_load_read_nand_loop wit_cfg64 2 0x100000000 1 0x4A000001
              (wit_hw (prompt_nand wit_cfg64 0x100000000 [0xBB])) = Some (2, s5)
         \<and> (1 :: nat) \<noteq> 0 \<and> (1 :: nat) \<le> 2"
    using x5 by simp
  from d4 [OF h5] obtain bufs5 rest5 where
    o5: "outline (trace s5) = outline (trace (wit_hw (prompt_nand wit_cfg64 0x100000000 [0xBB]))) @
           Call_spi0_nand_switch_page (of_nat (0x100000000 div unat (SPL_SPINAND_PAGE_SIZE wit_cfg64))) #
           Call_spi0_xfer (0x13 # be_bytes 3 (0x100000000 div unat (SPL_SPINAND_PAGE_SIZE wit_cfg64))) 4 0 #
           poll_outline bufs5 @ rest5"
    by blast
  have o5a: "outline (trace s5) =
            Call_spi0_nand_switch_page 0x200000 # Call_spi0_xfer [0x13, 0x20, 0x00, 0x00] 4 0 #
            poll_outline bufs5 @ rest5"
    using o5 by (simp add: e(1) ps64 be_bytes_3)
  \<comment> \<open>the whole read across \<open>2^32\<close> on the 64-bit build\<close>
  note f = C8_command_framing [where cfg = wit_cfg64 and buf = "0x4A000000"
      and s = "wit_hw (prompt_nand wit_cfg64 0xFFFFFFFF [0xAA, 0xBB])"]
  note f6 = f [THEN conjunct2, THEN conjunct2, THEN conjunct2, THEN conjunct2, THEN conjunct2,
      THEN conjunct1, rule_format]
  have i6: "input (wit_hw (prompt_nand wit_cfg64 0xFFFFFFFF [0xAA, 0xBB]))
      = prompt_nand wit_cfg64 (unat (0xFFFFFFFF :: u32)) [0xAA, 0xBB] @ []"
    by (simp add: wit_hw_def)
  from spi_load_read_nand_prompt [OF i6 l2 psnz64, where buf = "0x4A000000"]
  obtain s6 where x6: "spi_load_read_nand wit_cfg64 0xFFFFFFFF 2 0x4A000000
              (wit_hw (prompt_nand wit_cfg64 0xFFFFFFFF [0xAA, 0xBB])) = Some (2, s6)"
    by blast
  have h6: "spi_load_read_nand wit_cfg64 0xFFFFFFFF 2 0x4A000000
              (wit_hw (prompt_nand wit_cfg64 0xFFFFFFFF [0xAA, 0xBB])) = Some (2, s6)
         \<and> (2 :: u32) \<noteq> 0"
    using x6 by simp
  have o6: "page_ops (trace s6) =
          [Call_spi0_nand_switch_page 0x1FFFFF, Call_spi0_read_data 0x4A000000 2047 1 2,
           Call_spi0_nand_switch_page 0x200000, Call_spi0_read_data 0x4A000001 0 1 2]"
    using f6 [OF h6] by (simp add: e(1) nand_cycles_wrap64)
  show ?thesis
    using x1 o1 x2 o2 x3 o3 x4 o4a o4b x5 o5a x6 o6 by blast
qed

section \<open>Load offset\<close>

text \<open>
  Claim C9. Whenever \<open>spl_spi_load_image\<close> returns, its status, image information and
  hardware state are those of \<open>spl_spi_try_load\<close> called, after the initialisation (and
  the reset of the NAND chip), with the offset
  \<open>max(sunxi_get_spl_size(), CONFIG_SYS_SPI_U_BOOT_OFFS)\<close>, followed by the teardown. The
  64-byte header read of that call is made at that offset: on NOR the first data read after
  the initialisation is at that address, on NAND the first page switch is to the page
  holding it. A header read that returns 0 ends the call with \<open>-EINVAL\<close> in the state that
  read left; otherwise the structured loader is given the same offset, and the payload of
  a legacy image is read at the same offset. If the header parser and the structured loader
  only add to the sequence of device operations, the operations of the whole call, after
  the initialisation, begin with that header read. The offset is one of the two values and,
  as an unsigned number, at least each of them, so the header lies at or beyond the end of
  the loader's own image.
\<close>

theorem C9_load_offset:
  "(\<forall>ret spl_image' s'.
      spl_spi_load_image cfg ext spl_image bootdev s = Some (ret, spl_image', s') \<longrightarrow>
      (\<exists>s1 s2 s3 n sh evs.
          spi0_init cfg s = Some s1
        \<and> (case bootdev of BOOT_DEVICE_SPI \<Rightarrow> s2 = s1
           | BOOT_DEVICE_SPINAND \<Rightarrow> spi0_nand_reset cfg s1 = Some s2)
        \<and> spl_spi_try_load cfg ext spl_image bootdev
            (case bootdev of BOOT_DEVICE_SPI \<Rightarrow> spi_load_read_nor cfg
             | BOOT_DEVICE_SPINAND \<Rightarrow> spi_load_read_nand cfg)
            (max (sunxi_get_spl_size ext) (SYS_SPI_U_BOOT_OFFS cfg))
            (bootdev = BOOT_DEVICE_SPI) s2 = Some (ret, spl_image', s3)
        \<and> s' = spi0_deinit cfg s3
        \<and> (case bootdev of BOOT_DEVICE_SPI \<Rightarrow> spi_load_read_nor cfg
             | BOOT_DEVICE_SPINAND \<Rightarrow> spi_load_read_nand cfg)
            (max (sunxi_get_spl_size ext) (SYS_SPI_U_BOOT_OFFS cfg)) 0x40 (TEXT_BASE cfg) s2
            = Some (n, sh)
        \<and> outline (trace sh) = outline (trace s2) @
            (case bootdev of
               BOOT_DEVICE_SPI \<Rightarrow> Call_spi0_read_data (TEXT_BASE cfg)
                 (max (sunxi_get_spl_size ext) (SYS_SPI_U_BOOT_OFFS cfg)) 0x40 3
             | BOOT_DEVICE_SPINAND \<Rightarrow> Call_spi0_nand_switch_page
                 (max (sunxi_get_spl_size ext) (SYS_SPI_U_BOOT_OFFS cfg)
                    div SPL_SPINAND_PAGE_SIZE cfg)) # evs
        \<and> (n = 0 \<longrightarrow> ret = - EINVAL \<and> spl_image' = spl_image \<and> s3 = sh)
        \<and> (n \<noteq> 0 \<and> SPL_LOAD_FIT cfg \<and> image_get_magic (TEXT_BASE cfg) sh = FDT_MAGIC ext \<longrightarrow>
             spl_load_simple_fit ext spl_image
               (case bootdev of BOOT_DEVICE_SPI \<Rightarrow> spi_load_read_nor cfg
                | BOOT_DEVICE_SPINAND \<Rightarrow> spi_load_read_nand cfg)
               (max (sunxi_get_spl_size ext) (SYS_SPI_U_BOOT_OFFS cfg)) (TEXT_BASE cfg) sh
               = Some (ret, spl_image', s3))
        \<and> (n \<noteq> 0 \<and> \<not> (SPL_LOAD_FIT cfg \<and> image_get_magic (TEXT_BASE cfg) sh = FDT_MAGIC ext)
             \<and> (bootdev = BOOT_DEVICE_SPI \<or> image_get_magic (TEXT_BASE cfg) sh = IH_MAGIC ext) \<longrightarrow>
             (\<forall>img1 sp. spl_parse_image_header ext spl_image bootdev (TEXT_BASE cfg) sh
                           = (0, img1, sp) \<longrightarrow>
                (\<exists>n'. (case bootdev of BOOT_DEVICE_SPI \<Rightarrow> spi_load_read_nor cfg
                        | BOOT_DEVICE_SPINAND \<Rightarrow> spi_load_read_nand cfg)
                       (max (sunxi_get_spl_size ext) (SYS_SPI_U_BOOT_OFFS cfg))
                       (size' img1) (load_addr img1) sp = Some (n', s3))))
        \<and> ((\<forall>img bd hdr t. \<exists>es.
               outline (trace (snd (snd (spl_parse_image_header ext img bd hdr t))))
                 = outline (trace t) @ es)
            \<and> (\<forall>img off hdr t r img' t'.
                 spl_load_simple_fit ext img
                   (case bootdev of BOOT_DEVICE_SPI \<Rightarrow> spi_load_read_nor cfg
                    | BOOT_DEVICE_SPINAND \<Rightarrow> spi_load_read_nand cfg) off hdr t
                   = Some (r, img', t') \<longrightarrow>
                 (\<exists>es. outline (trace t') = outline (trace t) @ es)) \<longrightarrow>
            (\<exists>tl. outline (trace s') = outline (trace s2) @
               (case bootdev of
                  BOOT_DEVICE_SPI \<Rightarrow> Call_spi0_read_data (TEXT_BASE cfg)
                    (max (sunxi_get_spl_size ext) (SYS_SPI_U_BOOT_OFFS cfg)) 0x40 3
                | BOOT_DEVICE_SPINAND \<Rightarrow> Call_spi0_nand_switch_page
                    (max (sunxi_get_spl_size ext) (SYS_SPI_U_BOOT_OFFS cfg)
                       div SPL_SPINAND_PAGE_SIZE cfg)) # tl))))
   \<and> unat (sunxi_get_spl_size ext) \<le> unat (max (sunxi_get_spl_size ext) (SYS_SPI_U_BOOT_OFFS cfg))
   \<and> unat (SYS_SPI_U_BOOT_OFFS cfg) \<le> unat (max (sunxi_get_spl_size ext) (SYS_SPI_U_BOOT_OFFS cfg))
   \<and> (max (sunxi_get_spl_size ext) (SYS_SPI_U_BOOT_OFFS cfg) = sunxi_get_spl_size ext
        \<or> max (sunxi_get_spl_size ext) (SYS_SPI_U_BOOT_OFFS cfg) = SYS_SPI_U_BOOT_OFFS cfg)"
proof (intro conjI allI impI)
  fix ret spl_image' s'
  assume a: "spl_spi_load_image cfg ext spl_image bootdev s = Some (ret, spl_image', s')"
  let ?off = "max (sunxi_get_spl_size ext) (SYS_SPI_U_BOOT_OFFS cfg)"
  let ?read = "case bootdev of BOOT_DEVICE_SPI \<Rightarrow> spi_load_read_nor cfg
             | BOOT_DEVICE_SPINAND \<Rightarrow> spi_load_read_nand cfg"
  let ?first = "case bootdev of
                  BOOT_DEVICE_SPI \<Rightarrow> Call_spi0_read_data (TEXT_BASE cfg) ?off 0x40 3
                | BOOT_DEVICE_SPINAND \<Rightarrow>
                    Call_spi0_nand_switch_page (?off div SPL_SPINAND_PAGE_SIZE cfg)"
  let ?tb = "TEXT_BASE cfg"
  from load_image_teardown [OF a] obtain s1 s2 s3 where
    i: "spi0_init cfg s = Some s1"
    and r: "case bootdev of BOOT_DEVICE_SPI \<Rightarrow> s2 = s1
          | BOOT_DEVICE_SPINAND \<Rightarrow> spi0_nand_reset cfg s1 = Some s2"
    and t: "spl_spi_try_load cfg ext spl_image bootdev ?read ?off
              (bootdev = BOOT_DEVICE_SPI) s2 = Some (ret, spl_image', s3)"
    and s': "s' = spi0_deinit cfg s3"
    by blast
  from try_load_Some_header [OF t] obtain n sh where
    h: "?read ?off 0x40 ?tb s2 = Some (n, sh)"
    by blast
  from device_read_first [OF h] obtain evs where
    f: "outline (trace sh) = outline (trace s2) @ ?first # evs"
    by blast
  have z: "n = 0 \<longrightarrow> ret = - EINVAL \<and> spl_image' = spl_image \<and> s3 = sh"
  proof
    assume "n = 0"
    with h have "?read ?off 0x40 ?tb s2 = Some (0, sh)" by simp
    from try_load_header_zero [where load_read = ?read and offset = ?off and cfg = cfg
        and s = s2, OF this, of ext spl_image bootdev "bootdev = BOOT_DEVICE_SPI"] t
    show "ret = - EINVAL \<and> spl_image' = spl_image \<and> s3 = sh" by simp
  qed
  have ft: "n \<noteq> 0 \<and> SPL_LOAD_FIT cfg \<and> image_get_magic ?tb sh = FDT_MAGIC ext \<longrightarrow>
             spl_load_simple_fit ext spl_image ?read ?off ?tb sh = Some (ret, spl_image', s3)"
  proof
    assume c: "n \<noteq> 0 \<and> SPL_LOAD_FIT cfg \<and> image_get_magic ?tb sh = FDT_MAGIC ext"
    then have c1: "n \<noteq> 0" and c2: "SPL_LOAD_FIT cfg"
      and c3: "image_get_magic ?tb sh = FDT_MAGIC ext"
      by simp_all
    from try_load_fit [where load_read = ?read and offset = ?off and cfg = cfg and s = s2,
        OF h c1 c2 c3, of spl_image bootdev "bootdev = BOOT_DEVICE_SPI"] t
    show "spl_load_simple_fit ext spl_image ?read ?off ?tb sh = Some (ret, spl_image', s3)"
      by simp
  qed
  have lg: "n \<noteq> 0 \<and> \<not> (SPL_LOAD_FIT cfg \<and> image_get_magic ?tb sh = FDT_MAGIC ext)
             \<and> (bootdev = BOOT_DEVICE_SPI \<or> image_get_magic ?tb sh = IH_MAGIC ext) \<longrightarrow>
             (\<forall>img1 sp. spl_parse_image_header ext spl_image bootdev ?tb sh = (0, img1, sp) \<longrightarrow>
                (\<exists>n'. ?read ?off (size' img1) (load_addr img1) sp = Some (n', s3)))"
  proof (intro impI allI)
    fix img1 sp
    assume c: "n \<noteq> 0 \<and> \<not> (SPL_LOAD_FIT cfg \<and> image_get_magic ?tb sh = FDT_MAGIC ext)
             \<and> (bootdev = BOOT_DEVICE_SPI \<or> image_get_magic ?tb sh = IH_MAGIC ext)"
      and p: "spl_parse_image_header ext spl_image bootdev ?tb sh = (0, img1, sp)"
    from c have c1: "n \<noteq> 0"
      and c2: "\<not> (SPL_LOAD_FIT cfg \<and> image_get_magic ?tb sh = FDT_MAGIC ext)"
      and c3: "bootdev = BOOT_DEVICE_SPI \<or> image_get_magic ?tb sh = IH_MAGIC ext"
      by blast+
    from try_load_legacy [where load_read = ?read and offset = ?off and cfg = cfg and s = s2,
        OF h c1 c2 c3 p] t
    show "\<exists>n'. ?read ?off (size' img1) (load_addr img1) sp = Some (n', s3)"
      by (auto split: option.splits)
  qed
  have ex: "(\<forall>img bd hdr t. \<exists>es.
               outline (trace (snd (snd (spl_parse_image_header ext img bd hdr t))))
                 = outline (trace t) @ es)
            \<and> (\<forall>img off hdr t r img' t'.
                 spl_load_simple_fit ext img ?read off hdr t = Some (r, img', t') \<longrightarrow>
                 (\<exists>es. outline (trace t') = outline (trace t) @ es)) \<longrightarrow>
            (\<exists>tl. outline (trace s') = outline (trace s2) @ ?first # tl)"
  proof
    assume q: "(\<forall>img bd hdr t. \<exists>es.
               outline (trace (snd (snd (spl_parse_image_header ext img bd hdr t))))
                 = outline (trace t) @ es)
            \<and> (\<forall>img off hdr t r img' t'.
                 spl_load_simple_fit ext img ?read off hdr t = Some (r, img', t') \<longrightarrow>
                 (\<exists>es. outline (trace t') = outline (trace t) @ es))"
    have "\<exists>es. outline (trace s3) = outline (trace sh) @ es"
    proof (rule try_load_outline [where load_read = ?read and ext = ext and cfg = cfg
          and offset = ?off and s = s2, OF _ _ _ t h])
      fix a b c u n u'
      assume "?read a b c u = Some (n, u')"
      then show "\<exists>evs. outline (trace u') = outline (trace u) @ evs"
        by (rule device_read_outline)
    next
      fix img bd hdr t
      from q show "\<exists>evs. outline (trace (snd (snd (spl_parse_image_header ext img bd hdr t))))
          = outline (trace t) @ evs"
        by blast
    next
      fix img off hdr t r img' t'
      assume "spl_load_simple_fit ext img ?read off hdr t = Some (r, img', t')"
      with q show "\<exists>evs. outline (trace t') = outline (trace t) @ evs"
        by blast
    qed
    then obtain es where "outline (trace s3) = outline (trace sh) @ es" by blast
    then have "outline (trace s') = outline (trace s2) @ ?first # (evs @ es @ outline (teardown_events cfg))"
      using f by (simp add: s' spi0_deinit_outline)
    then show "\<exists>tl. outline (trace s') = outline (trace s2) @ ?first # tl" by blast
  qed
  show "\<exists>s1 s2 s3 n sh evs.
          spi0_init cfg s = Some s1
        \<and> (case bootdev of BOOT_DEVICE_SPI \<Rightarrow> s2 = s1
           | BOOT_DEVICE_SPINAND \<Rightarrow> spi0_nand_reset cfg s1 = Some s2)
        \<and> spl_spi_try_load cfg ext spl_image bootdev ?read ?off
            (bootdev = BOOT_DEVICE_SPI) s2 = Some (ret, spl_image', s3)
        \<and> s' = spi0_deinit cfg s3
        \<and> ?read ?off 0x40 ?tb s2 = Some (n, sh)
        \<and> outline (trace sh) = outline (trace s2) @ ?first # evs
        \<and> (n = 0 \<longrightarrow> ret = - EINVAL \<and> spl_image' = spl_image \<and> s3 = sh)
        \<and> (n \<noteq> 0 \<and> SPL_LOAD_FIT cfg \<and> image_get_magic ?tb sh = FDT_MAGIC ext \<longrightarrow>
             spl_load_simple_fit ext spl_image ?read ?off ?tb sh = Some (ret, spl_image', s3))
        \<and> (n \<noteq> 0 \<and> \<not> (SPL_LOAD_FIT cfg \<and> image_get_magic ?tb sh = FDT_MAGIC ext)
             \<and> (bootdev = BOOT_DEVICE_SPI \<or> image_get_magic ?tb sh = IH_MAGIC ext) \<longrightarrow>
             (\<forall>img1 sp. spl_parse_image_header ext spl_image bootdev ?tb sh = (0, img1, sp) \<longrightarrow>
                (\<exists>n'. ?read ?off (size' img1) (load_addr img1) sp = Some (n', s3))))
        \<and> ((\<forall>img bd hdr t. \<exists>es.
               outline (trace (snd (snd (spl_parse_image_header ext img bd hdr t))))
                 = outline (trace t) @ es)
            \<and> (\<forall>img off hdr t r img' t'.
                 spl_load_simple_fit ext img ?read off hdr t = Some (r, img', t') \<longrightarrow>
                 (\<exists>es. outline (trace t') = outline (trace t) @ es)) \<longrightarrow>
            (\<exists>tl. outline (trace s') = outline (trace s2) @ ?first # tl))"
    using i r t s' h f z ft lg ex by blast
next
  show "unat (sunxi_get_spl_size ext) \<le> unat (max (sunxi_get_spl_size ext) (SYS_SPI_U_BOOT_OFFS cfg))"
    by (simp add: word_le_nat_alt [symmetric])
next
  show "unat (SYS_SPI_U_BOOT_OFFS cfg) \<le> unat (max (sunxi_get_spl_size ext) (SYS_SPI_U_BOOT_OFFS cfg))"
    by (simp add: word_le_nat_alt [symmetric])
next
  show "max (sunxi_get_spl_size ext) (SYS_SPI_U_BOOT_OFFS cfg) = sunxi_get_spl_size ext
        \<or> max (sunxi_get_spl_size ext) (SYS_SPI_U_BOOT_OFFS cfg) = SYS_SPI_U_BOOT_OFFS cfg"
    by (auto simp: max_def)
qed

theorem C9_load_offset_witness:
  "(\<exists>s1 s' tl. spi0_init wit_cfg
           (wit_hw (prompt_init wit_cfg @ prompt_read legacy_header @ prompt_read [1, 2, 3, 4]))
         = Some s1
      \<and> spl_spi_load_image wit_cfg wit_ext wit_img BOOT_DEVICE_SPI
           (wit_hw (prompt_init wit_cfg @ prompt_read legacy_header @ prompt_read [1, 2, 3, 4]))
         = Some (0, \<lparr>size' = 4, load_addr = 0x42000000\<rparr>, s')
      \<and> outline (trace s') = outline (trace s1) @
            Call_spi0_read_data 0x4A000000 0x8000 0x40 3 # tl)
   \<and> (\<exists>s1 s2 s' tl. spi0_init wit_cfg
           (wit_hw (prompt_init wit_cfg @ prompt_xfer 1 [] @ prompt_switch (replicate 100 1)))
         = Some s1
      \<and> spi0_nand_reset wit_cfg s1 = Some s2
      \<and> spl_spi_load_image wit_cfg wit_ext_big wit_img BOOT_DEVICE_SPINAND
           (wit_hw (prompt_init wit_cfg @ prompt_xfer 1 [] @ prompt_switch (replicate 100 1)))
         = Some (- EINVAL, wit_img, s')
      \<and> outline (trace s') = outline (trace s2) @ Call_spi0_nand_switch_page 20 # tl)
   \<and> sunxi_get_spl_size wit_ext = 0x6000 \<and> sunxi_get_spl_size wit_ext_big = 0xA000
   \<and> SYS_SPI_U_BOOT_OFFS wit_cfg = 0x8000"
proof -
  have e: "input (wit_hw xs) = xs" "mem (wit_hw xs) = (\<lambda>a. 0)" for xs
    by (simp_all add: wit_hw_def)
  have v: "sunxi_get_spl_size wit_ext = 0x6000" "sunxi_get_spl_size wit_ext_big = 0xA000"
    "SYS_SPI_U_BOOT_OFFS wit_cfg = 0x8000" "TEXT_BASE wit_cfg = 0x4A000000"
    "SPL_SPINAND_PAGE_SIZE wit_cfg = 2048"
    by (simp_all add: wit_ext_def wit_ext_big_def wit_cfg_def)
  have q: "(\<forall>img bd hdr t. \<exists>es.
               outline (trace (snd (snd (spl_parse_image_header wit_ext img bd hdr t))))
                 = outline (trace t) @ es)
            \<and> (\<forall>img off hdr t r img' t'.
                 spl_load_simple_fit wit_ext img
                   (case bootdev of BOOT_DEVICE_SPI \<Rightarrow> spi_load_read_nor wit_cfg
                    | BOOT_DEVICE_SPINAND \<Rightarrow> spi_load_read_nand wit_cfg) off hdr t
                   = Some (r, img', t') \<longrightarrow>
                 (\<exists>es. outline (trace t') = outline (trace t) @ es))" for bootdev
    by (auto simp: wit_ext_simps)
  have qb: "(\<forall>img bd hdr t. \<exists>es.
               outline (trace (snd (snd (spl_parse_image_header wit_ext_big img bd hdr t))))
                 = outline (trace t) @ es)
            \<and> (\<forall>img off hdr t r img' t'.
                 spl_load_simple_fit wit_ext_big img
                   (case bootdev of BOOT_DEVICE_SPI \<Rightarrow> spi_load_read_nor wit_cfg
                    | BOOT_DEVICE_SPINAND \<Rightarrow> spi_load_read_nand wit_cfg) off hdr t
                   = Some (r, img', t') \<longrightarrow>
                 (\<exists>es. outline (trace t') = outline (trace t) @ es))" for bootdev
    by (auto simp: wit_ext_big_def wit_ext_def)
  \<comment> \<open>NOR: the configured offset is the larger value\<close>
  define sa where
    "sa = wit_hw (prompt_init wit_cfg @ prompt_read legacy_header @ prompt_read [1, 2, 3, 4])"
  have ia: "input sa = prompt_init wit_cfg @ prompt_read legacy_header @ prompt_read [1, 2, 3, 4]"
    "mem sa = (\<lambda>a. 0)"
    by (simp_all add: sa_def e)
  from nor_legacy_boot [OF ia] obtain a1 a3 where
    a1: "spi0_init wit_cfg sa = Some a1"
    and a: "spl_spi_load_image wit_cfg wit_ext wit_img BOOT_DEVICE_SPI sa
           = Some (0, \<lparr>size' = 4, load_addr = 0x42000000\<rparr>, spi0_deinit wit_cfg a3)"
    by blast
  note ta = C9_load_offset [where cfg = wit_cfg and ext = wit_ext and spl_image = wit_img
      and bootdev = BOOT_DEVICE_SPI and s = sa, THEN conjunct1, rule_format, OF a]
  then obtain tla where
    oa: "outline (trace (spi0_deinit wit_cfg a3)) = outline (trace a1) @
            Call_spi0_read_data 0x4A000000 0x8000 0x40 3 # tla"
    using q [of BOOT_DEVICE_SPI] by (auto simp: a1 v)
  \<comment> \<open>NAND: the size of the loader image is the larger value\<close>
  define sb where
    "sb = wit_hw (prompt_init wit_cfg @ prompt_xfer 1 [] @ prompt_switch (replicate 100 1))"
  have ib: "input sb = prompt_init wit_cfg @ prompt_xfer 1 [] @ prompt_switch (replicate 100 1)"
    "mem sb = (\<lambda>a. 0)"
    by (simp_all add: sb_def e)
  from nand_timeout_boot_big [OF ib] obtain b1 b2 b3 where
    b1: "spi0_init wit_cfg sb = Some b1" and b2: "spi0_nand_reset wit_cfg b1 = Some b2"
    and b: "spl_spi_load_image wit_cfg wit_ext_big wit_img BOOT_DEVICE_SPINAND sb
           = Some (- EINVAL, wit_img, spi0_deinit wit_cfg b3)"
    by blast
  note tb = C9_load_offset [where cfg = wit_cfg and ext = wit_ext_big and spl_image = wit_img
      and bootdev = BOOT_DEVICE_SPINAND and s = sb, THEN conjunct1, rule_format, OF b]
  then obtain tlb where
    ob: "outline (trace (spi0_deinit wit_cfg b3)) = outline (trace b2) @
            Call_spi0_nand_switch_page 20 # tlb"
    using qb [of BOOT_DEVICE_SPINAND] by (auto simp: b1 b2 v)
  show ?thesis
    using a1 a oa b1 b2 b ob v(1,2,3) unfolding sa_def sb_def by blast
qed

section \<open>Return value of the NAND read\<close>

text \<open>
  Claim C10. The NAND read function returns 0 or the requested count, nothing in
  between, from every state of its loop on the 32-bit and on the 64-bit builds, and so as
  the dispatch calls it. The memory it leaves is the initial memory with the bytes of the
  data reads it has made stored at the destination, whatever it returns; in particular,
  when the first page is read and the switch to the next page, the one of the
  \<open>unsigned long\<close> sum \<open>sector + count_in_page\<close>, fails, the function returns 0 and the
  bytes of the first page are in the buffer. A request of zero bytes returns 0 without
  touching the device, and a header read that returns 0 makes the caller
  \<open>spl_spi_try_load\<close> fail with \<open>-EINVAL\<close>.
\<close>

theorem C10_nand_read_zero_or_count:
  "(\<forall>count sector remain r s'.
      spi_load_read_nand_loop cfg count sector remain buf s = Some (r, s') \<and> remain \<le> count \<longrightarrow>
      (r = 0 \<or> r = count)
      \<and> (\<exists>evs data. outline (trace s') = outline (trace s) @ evs
            \<and> mem s' = store_bytes buf data (mem s)
            \<and> length data = bytes_read evs \<and> length data \<le> remain
            \<and> (r = count \<longrightarrow> length data = remain)))
   \<and> (\<forall>sector count r s'. spi_load_read_nand cfg sector count buf s = Some (r, s') \<longrightarrow>
      (r = 0 \<or> r = count)
      \<and> (\<exists>evs data. outline (trace s') = outline (trace s) @ evs
            \<and> mem s' = store_bytes buf data (mem s)
            \<and> length data = bytes_read evs
            \<and> (r = count \<longrightarrow> length data = unat count)))
   \<and> (\<forall>count sector remain s1 s2 r3 s3 c.
        SPL_SPINAND_PAGE_SIZE cfg \<noteq> 0 \<and> remain \<noteq> 0
        \<and> c = min remain (unat (SPL_SPINAND_PAGE_SIZE cfg)
                             - sector mod unat (SPL_SPINAND_PAGE_SIZE cfg))
        \<and> remain - c \<noteq> 0
        \<and> spi0_nand_switch_page cfg (of_nat (sector div unat (SPL_SPINAND_PAGE_SIZE cfg))) s
            = Some (0, s1)
        \<and> spi0_read_data cfg buf (of_nat (sector mod unat (SPL_SPINAND_PAGE_SIZE cfg)))
            (of_nat c) 2 s1 = Some s2
        \<and> spi0_nand_switch_page cfg
            (of_nat (ulong cfg (sector + c) div unat (SPL_SPINAND_PAGE_SIZE cfg))) s2
            = Some (r3, s3)
        \<and> r3 \<noteq> 0 \<longrightarrow>
        spi_load_read_nand_loop cfg count sector remain buf s = Some (0, s3) \<and> mem s3 = mem s2
        \<and> 0 < c \<and> (\<exists>data. length data = c \<and> mem s3 = store_bytes buf data (mem s)))
   \<and> (\<forall>sector count s1 s2 r3 s3 c.
        SPL_SPINAND_PAGE_SIZE cfg \<noteq> 0 \<and> count \<noteq> 0
        \<and> c = min (unat count) (unat (SPL_SPINAND_PAGE_SIZE cfg)
                                   - unat sector mod unat (SPL_SPINAND_PAGE_SIZE cfg))
        \<and> unat count - c \<noteq> 0
        \<and> spi0_nand_switch_page cfg
            (of_nat (unat sector div unat (SPL_SPINAND_PAGE_SIZE cfg))) s = Some (0, s1)
        \<and> spi0_read_data cfg buf (of_nat (unat sector mod unat (SPL_SPINAND_PAGE_SIZE cfg)))
            (of_nat c) 2 s1 = Some s2
        \<and> spi0_nand_switch_page cfg
            (of_nat (ulong cfg (unat sector + c) div unat (SPL_SPINAND_PAGE_SIZE cfg))) s2
            = Some (r3, s3)
        \<and> r3 \<noteq> 0 \<longrightarrow>
        spi_load_read_nand cfg sector count buf s = Some (0, s3) \<and> mem s3 = mem s2
        \<and> 0 < c \<and> (\<exists>data. length data = c \<and> mem s3 = store_bytes buf data (mem s)))
   \<and> (\<forall>sector. spi_load_read_nand cfg sector 0 buf s = Some (0, s))
   \<and> (\<forall>ext spl_image bootdev offset allow_raw s1.
        spi_load_read_nand cfg offset 0x40 (TEXT_BASE cfg) s = Some (0, s1) \<longrightarrow>
        spl_spi_try_load cfg ext spl_image bootdev (spi_load_read_nand cfg) offset allow_raw s
          = Some (- EINVAL, spl_image, s1) \<and> - EINVAL \<noteq> 0)"
proof (intro conjI allI impI)
  fix count sector remain r s'
  assume a: "spi_load_read_nand_loop cfg count sector remain buf s = Some (r, s') \<and> remain \<le> count"
  then have a1: "spi_load_read_nand_loop cfg count sector remain buf s = Some (r, s')"
    and a2: "remain \<le> count" by simp_all
  note l = spi_load_read_nand_loop_Some [OF a1 a2]
  from l show "r = 0 \<or> r = count" by blast
  from l obtain evs data where "outline (trace s') = outline (trace s) @ evs"
    "mem s' = store_bytes buf data (mem s)" "length data = bytes_read evs"
    "length data \<le> remain" "r = count \<longrightarrow> length data = remain"
    by blast
  then show "\<exists>evs data. outline (trace s') = outline (trace s) @ evs
            \<and> mem s' = store_bytes buf data (mem s)
            \<and> length data = bytes_read evs \<and> length data \<le> remain
            \<and> (r = count \<longrightarrow> length data = remain)"
    by blast
next
  fix sector count r s'
  assume a: "spi_load_read_nand cfg sector count buf s = Some (r, s')"
  note l = spi_load_read_nand_Some [OF a]
  from l show "r = 0 \<or> r = count" by blast
  from l obtain evs data where "outline (trace s') = outline (trace s) @ evs"
    "mem s' = store_bytes buf data (mem s)" "length data = bytes_read evs"
    "r = count \<longrightarrow> length data = unat count"
    by blast
  then show "\<exists>evs data. outline (trace s') = outline (trace s) @ evs
            \<and> mem s' = store_bytes buf data (mem s)
            \<and> length data = bytes_read evs
            \<and> (r = count \<longrightarrow> length data = unat count)"
    by blast
next
  fix count sector remain s1 s2 r3 s3 c
  assume h: "SPL_SPINAND_PAGE_SIZE cfg \<noteq> 0 \<and> remain \<noteq> 0
        \<and> c = min remain (unat (SPL_SPINAND_PAGE_SIZE cfg)
                             - sector mod unat (SPL_SPINAND_PAGE_SIZE cfg))
        \<and> remain - c \<noteq> 0
        \<and> spi0_nand_switch_page cfg (of_nat (sector div unat (SPL_SPINAND_PAGE_SIZE cfg))) s
            = Some (0, s1)
        \<and> spi0_read_data cfg buf (of_nat (sector mod unat (SPL_SPINAND_PAGE_SIZE cfg)))
            (of_nat c) 2 s1 = Some s2
        \<and> spi0_nand_switch_page cfg
            (of_nat (ulong cfg (sector + c) div unat (SPL_SPINAND_PAGE_SIZE cfg))) s2
            = Some (r3, s3)
        \<and> r3 \<noteq> 0"
  then have hs: "c = min remain (unat (SPL_SPINAND_PAGE_SIZE cfg)
                             - sector mod unat (SPL_SPINAND_PAGE_SIZE cfg))"
    "SPL_SPINAND_PAGE_SIZE cfg \<noteq> 0" "remain \<noteq> 0" "remain - c \<noteq> 0"
    "spi0_nand_switch_page cfg (of_nat (sector div unat (SPL_SPINAND_PAGE_SIZE cfg))) s
            = Some (0, s1)"
    "spi0_read_data cfg buf (of_nat (sector mod unat (SPL_SPINAND_PAGE_SIZE cfg)))
            (of_nat c) 2 s1 = Some s2"
    "spi0_nand_switch_page cfg
            (of_nat (ulong cfg (sector + c) div unat (SPL_SPINAND_PAGE_SIZE cfg))) s2
            = Some (r3, s3)"
    "r3 \<noteq> 0"
    by blast+
  have "spi_load_read_nand_loop cfg count sector remain buf s = Some (0, s3) \<and> mem s3 = mem s2
        \<and> 0 < c \<and> (\<exists>data. length data = c \<and> mem s3 = store_bytes buf data (mem s))"
    by (rule nand_partway_timeout [OF hs])
  then show "spi_load_read_nand_loop cfg count sector remain buf s = Some (0, s3)"
    "mem s3 = mem s2" "0 < c"
    "\<exists>data. length data = c \<and> mem s3 = store_bytes buf data (mem s)"
    by blast+
next
  fix sector count :: u32 and s1 s2 r3 s3 c
  assume h: "SPL_SPINAND_PAGE_SIZE cfg \<noteq> 0 \<and> count \<noteq> 0
        \<and> c = min (unat count) (unat (SPL_SPINAND_PAGE_SIZE cfg)
                                   - unat sector mod unat (SPL_SPINAND_PAGE_SIZE cfg))
        \<and> unat count - c \<noteq> 0
        \<and> spi0_nand_switch_page cfg
            (of_nat (unat sector div unat (SPL_SPINAND_PAGE_SIZE cfg))) s = Some (0, s1)
        \<and> spi0_read_data cfg buf (of_nat (unat sector mod unat (SPL_SPINAND_PAGE_SIZE cfg)))
            (of_nat c) 2 s1 = Some s2
        \<and> spi0_nand_switch_page cfg
            (of_nat (ulong cfg (unat sector + c) div unat (SPL_SPINAND_PAGE_SIZE cfg))) s2
            = Some (r3, s3)
        \<and> r3 \<noteq> 0"
  then have hs: "c = min (unat count) (unat (SPL_SPINAND_PAGE_SIZE cfg)
                             - unat sector mod unat (SPL_SPINAND_PAGE_SIZE cfg))"
    "SPL_SPINAND_PAGE_SIZE cfg \<noteq> 0" "unat count \<noteq> 0" "unat count - c \<noteq> 0"
    "spi0_nand_switch_page cfg (of_nat (unat sector div unat (SPL_SPINAND_PAGE_SIZE cfg))) s
            = Some (0, s1)"
    "spi0_read_data cfg buf (of_nat (unat sector mod unat (SPL_SPINAND_PAGE_SIZE cfg)))
            (of_nat c) 2 s1 = Some s2"
    "spi0_nand_switch_page cfg
            (of_nat (ulong cfg (unat sector + c) div unat (SPL_SPINAND_PAGE_SIZE cfg))) s2
            = Some (r3, s3)"
    "r3 \<noteq> 0"
    by (auto simp: unat_eq_zero)
  have t: "spi_load_read_nand_loop cfg (unat count) (unat sector) (unat count) buf s = Some (0, s3)
        \<and> mem s3 = mem s2
        \<and> 0 < c \<and> (\<exists>data. length data = c \<and> mem s3 = store_bytes buf data (mem s))"
    by (rule nand_partway_timeout [OF hs])
  then have "spi_load_read_nand cfg sector count buf s = Some (of_nat 0, s3)"
    by (intro nand_read_of_loop) simp
  then show "spi_load_read_nand cfg sector count buf s = Some (0, s3)" by simp
  from t show "mem s3 = mem s2" "0 < c"
    "\<exists>data. length data = c \<and> mem s3 = store_bytes buf data (mem s)"
    by blast+
next
  fix sector
  show "spi_load_read_nand cfg sector 0 buf s = Some (0, s)"
    by (simp add: spi_load_read_nand_def nand_loop_done)
next
  fix ext spl_image bootdev offset allow_raw s1
  assume "spi_load_read_nand cfg offset 0x40 (TEXT_BASE cfg) s = Some (0, s1)"
  then show "spl_spi_try_load cfg ext spl_image bootdev (spi_load_read_nand cfg) offset allow_raw s
          = Some (- EINVAL, spl_image, s1)"
    by (rule try_load_header_zero)
next
  show "- EINVAL \<noteq> 0" by (rule EINVAL_nonzero)
qed

theorem C10_nand_read_zero_or_count_witness:
  "(\<exists>s3. spi_load_read_nand wit_cfg 2000 200 0x4A000000
           (wit_hw (prompt_switch [0] @ prompt_read (replicate 48 0xAB)
                      @ prompt_switch (replicate 100 1))) = Some (0, s3)
      \<and> mem s3 = store_bytes 0x4A000000 (replicate 48 0xAB) (\<lambda>a. 0)
      \<and> mem s3 0x4A000000 = 0xAB)
   \<and> (\<exists>s3. spi_load_read_nand wit_cfg64 0xFFFFFFFF 2 0x4A000000
           (wit_hw (prompt_switch [0] @ prompt_read [0xAB] @ prompt_switch (replicate 100 1)))
           = Some (0, s3)
      \<and> mem s3 = store_bytes 0x4A000000 [0xAB] (\<lambda>a. 0)
      \<and> last (page_ops (trace s3)) = Call_spi0_nand_switch_page 0x200000)
   \<and> spi_load_read_nand wit_cfg 2000 0 0x4A000000 (wit_hw []) = Some (0, wit_hw [])"
proof -
  have tnz: "- ETIMEDOUT \<noteq> 0" by (simp add: ETIMEDOUT_def)
  \<comment> \<open>32-bit build, 200 bytes at offset 2000\<close>
  define s where "s = wit_hw (prompt_switch [0] @ prompt_read (replicate 48 0xAB)
                      @ prompt_switch (replicate 100 1))"
  note t = C10_nand_read_zero_or_count [of wit_cfg "0x4A000000" s]
  note t4 = t [THEN conjunct2, THEN conjunct2, THEN conjunct2, THEN conjunct1, rule_format]
  have ps: "SPL_SPINAND_PAGE_SIZE wit_cfg = 2048" by (simp add: wit_cfg_def)
  have u: "ulong wit_cfg 2048 = 2048" by (rule ulong_small) simp
  have i: "input s = prompt_switch ([] @ [0]) @ (prompt_read (replicate 48 0xAB)
                      @ prompt_switch (replicate 100 1))" "mem s = (\<lambda>a. 0)"
    by (simp_all add: s_def wit_hw_def)
  from switch_page_ready_prompt [OF i(1), of wit_cfg 0] obtain s1 where
    s1: "spi0_nand_switch_page wit_cfg 0 s = Some (0, s1)"
      "input s1 = prompt_read (replicate 48 0xAB) @ prompt_switch (replicate 100 1)"
      "mem s1 = mem s"
    by auto
  have l48: "length (replicate 48 (0xAB :: u8)) = unat (48 :: u32)" by simp
  from spi0_read_data_prompt [OF s1(2) l48, of wit_cfg "0x4A000000" 2000 2] obtain s2 where
    s2: "spi0_read_data wit_cfg 0x4A000000 2000 48 2 s1 = Some s2"
      "input s2 = prompt_switch (replicate 100 1)"
      "mem s2 = store_bytes 0x4A000000 (replicate 48 0xAB) (mem s1)"
    by auto
  have i2: "input s2 = prompt_switch (replicate 100 1) @ []" by (simp add: s2(2))
  from switch_page_timeout_prompt [OF i2, of wit_cfg 1] obtain s3 where
    s3: "spi0_nand_switch_page wit_cfg 1 s2 = Some (- ETIMEDOUT, s3)"
    by auto
  have h: "SPL_SPINAND_PAGE_SIZE wit_cfg \<noteq> 0 \<and> (200 :: u32) \<noteq> 0
        \<and> 48 = min (unat (200 :: u32)) (unat (SPL_SPINAND_PAGE_SIZE wit_cfg)
                                   - unat (2000 :: u32) mod unat (SPL_SPINAND_PAGE_SIZE wit_cfg))
        \<and> unat (200 :: u32) - 48 \<noteq> 0
        \<and> spi0_nand_switch_page wit_cfg
            (of_nat (unat (2000 :: u32) div unat (SPL_SPINAND_PAGE_SIZE wit_cfg))) s = Some (0, s1)
        \<and> spi0_read_data wit_cfg 0x4A000000
            (of_nat (unat (2000 :: u32) mod unat (SPL_SPINAND_PAGE_SIZE wit_cfg)))
            (of_nat 48) 2 s1 = Some s2
        \<and> spi0_nand_switch_page wit_cfg
            (of_nat (ulong wit_cfg (unat (2000 :: u32) + 48) div unat (SPL_SPINAND_PAGE_SIZE wit_cfg))) s2
            = Some (- ETIMEDOUT, s3)
        \<and> - ETIMEDOUT \<noteq> 0"
    by (simp add: ps s1(1) s2(1) s3 ETIMEDOUT_def u)
  from t4 [OF h] have r: "spi_load_read_nand wit_cfg 2000 200 0x4A000000 s = Some (0, s3)"
    "mem s3 = mem s2"
    by simp_all
  have m: "mem s3 = store_bytes 0x4A000000 (replicate 48 0xAB) (\<lambda>a. 0)"
    by (simp only: r(2) s2(3) s1(3) i(2))
  have "store_bytes 0x4A000000 (replicate 48 0xAB) (\<lambda>a. 0) 0x4A000000 = (0xAB :: u8)"
    by code_simp
  then have "mem s3 0x4A000000 = 0xAB" by (simp only: m)
  then have A: "\<exists>s3. spi_load_read_nand wit_cfg 2000 200 0x4A000000
           (wit_hw (prompt_switch [0] @ prompt_read (replicate 48 0xAB)
                      @ prompt_switch (replicate 100 1))) = Some (0, s3)
      \<and> mem s3 = store_bytes 0x4A000000 (replicate 48 0xAB) (\<lambda>a. 0)
      \<and> mem s3 0x4A000000 = 0xAB"
    using r(1) m unfolding s_def by blast
  \<comment> \<open>64-bit build, two bytes across \<open>2^32\<close>\<close>
  define w where "w = wit_hw (prompt_switch [0] @ prompt_read [0xAB]
                      @ prompt_switch (replicate 100 1))"
  note v = C10_nand_read_zero_or_count [of wit_cfg64 "0x4A000000" w]
  note v4 = v [THEN conjunct2, THEN conjunct2, THEN conjunct2, THEN conjunct1, rule_format]
  have ps64: "SPL_SPINAND_PAGE_SIZE wit_cfg64 = 2048" by (simp add: wit_cfg64_def)
  have u64: "ulong wit_cfg64 4294967296 = 4294967296"
    by (simp add: ulong_def ulong_bits_def wit_cfg64_def)
  have j: "input w = prompt_switch ([] @ [0]) @ (prompt_read [0xAB]
                      @ prompt_switch (replicate 100 1))" "mem w = (\<lambda>a. 0)" "trace w = []"
    by (simp_all add: w_def wit_hw_def)
  from switch_page_ready_prompt [OF j(1), of wit_cfg64 "0x1FFFFF"] obtain w1 where
    w1: "spi0_nand_switch_page wit_cfg64 0x1FFFFF w = Some (0, w1)"
      "input w1 = prompt_read [0xAB] @ prompt_switch (replicate 100 1)"
      "mem w1 = mem w"
    by auto
  have l1: "length [0xAB :: u8] = unat (1 :: u32)" by simp
  from spi0_read_data_prompt [OF w1(2) l1, of wit_cfg64 "0x4A000000" 2047 2] obtain w2 where
    w2: "spi0_read_data wit_cfg64 0x4A000000 2047 1 2 w1 = Some w2"
      "input w2 = prompt_switch (replicate 100 1)"
      "mem w2 = store_bytes 0x4A000000 [0xAB] (mem w1)"
    by auto
  have j2: "input w2 = prompt_switch (replicate 100 1) @ []" by (simp add: w2(2))
  from switch_page_timeout_prompt [OF j2, of wit_cfg64 "0x200000"] obtain w3 where
    w3: "spi0_nand_switch_page wit_cfg64 0x200000 w2 = Some (- ETIMEDOUT, w3)"
    by auto
  have h64: "SPL_SPINAND_PAGE_SIZE wit_cfg64 \<noteq> 0 \<and> (2 :: u32) \<noteq> 0
        \<and> Suc 0 = min (unat (2 :: u32)) (unat (SPL_SPINAND_PAGE_SIZE wit_cfg64)
                   - unat (0xFFFFFFFF :: u32) mod unat (SPL_SPINAND_PAGE_SIZE wit_cfg64))
        \<and> unat (2 :: u32) - Suc 0 \<noteq> 0
        \<and> spi0_nand_switch_page wit_cfg64
            (of_nat (unat (0xFFFFFFFF :: u32) div unat (SPL_SPINAND_PAGE_SIZE wit_cfg64))) w
            = Some (0, w1)
        \<and> spi0_read_data wit_cfg64 0x4A000000
            (of_nat (unat (0xFFFFFFFF :: u32) mod unat (SPL_SPINAND_PAGE_SIZE wit_cfg64)))
            (of_nat (Suc 0)) 2 w1 = Some w2
        \<and> spi0_nand_switch_page wit_cfg64
            (of_nat (ulong wit_cfg64 (unat (0xFFFFFFFF :: u32) + Suc 0)
                       div unat (SPL_SPINAND_PAGE_SIZE wit_cfg64))) w2
            = Some (- ETIMEDOUT, w3)
        \<and> - ETIMEDOUT \<noteq> 0"
    by (simp add: ps64 w1(1) w2(1) w3 ETIMEDOUT_def u64)
  from v4 [OF h64] have q: "spi_load_read_nand wit_cfg64 0xFFFFFFFF 2 0x4A000000 w = Some (0, w3)"
    "mem w3 = mem w2"
    by simp_all
  have m64: "mem w3 = store_bytes 0x4A000000 [0xAB] (\<lambda>a. 0)"
    by (simp only: q(2) w2(3) w1(3) j(2))
  have po: "page_ops (trace w3) = page_ops (trace w2) @ [Call_spi0_nand_switch_page 0x200000]"
    by (rule page_ops_switch [OF w3])
  then have lp: "last (page_ops (trace w3)) = Call_spi0_nand_switch_page 0x200000" by simp
  have B: "\<exists>s3. spi_load_read_nand wit_cfg64 0xFFFFFFFF 2 0x4A000000
           (wit_hw (prompt_switch [0] @ prompt_read [0xAB] @ prompt_switch (replicate 100 1)))
           = Some (0, s3)
      \<and> mem s3 = store_bytes 0x4A000000 [0xAB] (\<lambda>a. 0)
      \<and> last (page_ops (trace s3)) = Call_spi0_nand_switch_page 0x200000"
    using q(1) m64 lp unfolding w_def by blast
  have C: "spi_load_read_nand wit_cfg 2000 0 0x4A000000 (wit_hw []) = Some (0, wit_hw [])"
    using C10_nand_read_zero_or_count [of wit_cfg "0x4A000000" "wit_hw []"] by simp
  show ?thesis
    using A B C by blast
qed

end
